(* ===== verification/Prelude.thy ===== *)
theory Prelude
  imports Main "HOL-Library.Word" "HOL-Library.Multiset"
begin

text \<open>
  The vocabulary the component theories share.  A Go function that returns
  \<open>(T, error)\<close> is modelled by \<open>go_error + 'a\<close> where the callers never read the value
  beside an error, and by a pair where they do.  A Go error is its \<open>Error()\<close> text, which is
  what the code compares and searches.  A run-time panic is the value \<open>Panic\<close> of
  \<open>'a outcome\<close>, so that every index, subslice, nil and division fault of the source is a
  branch of the model.  Bytes and fixed-width integers are machine words.
\<close>

unbundle bit_operations_syntax

section \<open>Types\<close>

type_synonym byte = "8 word"
type_synonym u8 = "8 word"
type_synonym u16 = "16 word"
type_synonym u32 = "32 word"
type_synonym u64 = "64 word"
type_synonym bytes = "8 word list"
type_synonym go_error = string

text \<open>
  What a Go call does to its caller: it returns a value or it panics.  Where a panic
  matters the models use this type; a deferred \<open>recover\<close> turns \<open>Panic\<close> back into
  a return.
\<close>

datatype 'a outcome = Ret 'a | Panic

fun bind_outcome :: "'a outcome \<Rightarrow> ('a \<Rightarrow> 'b outcome) \<Rightarrow> 'b outcome" where
  "bind_outcome Panic f = Panic"
| "bind_outcome (Ret x) f = f x"

fun recover_with :: "'a \<Rightarrow> 'a outcome \<Rightarrow> 'a" where
  "recover_with z (Ret x) = x"
| "recover_with z Panic = z"

fun bind_result :: "'e + 'a \<Rightarrow> ('a \<Rightarrow> 'e + 'b) \<Rightarrow> 'e + 'b" where
  "bind_result (Inl e) f = Inl e"
| "bind_result (Inr x) f = f x"

text \<open>\<open>errors.Wrap(err, msg)\<close> of the pkg/errors package prints as \<open>msg: err\<close>.\<close>

definition wrap_error :: "string \<Rightarrow> go_error \<Rightarrow> go_error" where
  "wrap_error msg e = msg @ '': '' @ e"

section \<open>Proof collections\<close>

text \<open>
  \<open>go_std\<close> gathers the round-trip and length equations of the standard-library layer,
  \<open>go_code\<close> the definitions to unfold when a closed term is evaluated.
\<close>

named_theorems go_std "equations of the standard library layer"
named_theorems go_code "definitions unfolded to evaluate a closed term"

declare wrap_error_def [go_code]

section \<open>Outcomes and results\<close>

lemma bind_outcome_Ret_iff [simp]:
  "bind_outcome m f = Ret y \<longleftrightarrow> (\<exists>x. m = Ret x \<and> f x = Ret y)"
  by (cases m) auto

lemma bind_result_Inr_iff [simp]:
  "bind_result m f = Inr y \<longleftrightarrow> (\<exists>x. m = Inr x \<and> f x = Inr y)"
  by (cases m) auto

lemma wrap_error_nonempty [simp]: "wrap_error msg e \<noteq> []"
  by (simp add: wrap_error_def)

section \<open>Slices\<close>

text \<open>
  \<open>subslice a b xs\<close> is \<open>xs[a:b]\<close> for \<open>a \<le> b \<le> len(xs)\<close>; the callers check the
  bounds, or return \<open>Panic\<close>, before they use it.
\<close>

definition subslice :: "nat \<Rightarrow> nat \<Rightarrow> 'a list \<Rightarrow> 'a list" where
  "subslice a b xs = drop a (take b xs)"

lemma length_subslice [simp]: "b \<le> length xs \<Longrightarrow> length (subslice a b xs) = b - a"
  by (simp add: subslice_def)

lemma subslice_append_mid:
  "length a = n \<Longrightarrow> length b = m - n \<Longrightarrow> n \<le> m \<Longrightarrow> subslice n m (a @ b @ c) = b"
  by (simp add: subslice_def)

lemma subslice_split:
  assumes "n \<le> m" "m \<le> length xs"
  shows "xs = take n xs @ subslice n m xs @ drop m xs"
proof -
  have "take m xs = take n xs @ subslice n m xs"
    using assms unfolding subslice_def
    by (metis append_take_drop_id min.absorb1 take_take)
  then show ?thesis by (metis append.assoc append_take_drop_id)
qed

lemma nth_subslice: "i < b - a \<Longrightarrow> b \<le> length xs \<Longrightarrow> subslice a b xs ! i = xs ! (a + i)"
  by (simp add: subslice_def)

section \<open>Lists\<close>

lemma mset_swap [simp]:
  "i < length xs \<Longrightarrow> j < length xs \<Longrightarrow> mset (xs[i := xs ! j, j := xs ! i]) = mset xs"
  by (rule mset_swap)

lemma list_eq_take_pad:
  "length xs \<le> n \<Longrightarrow> take (length xs) (xs @ replicate (n - length xs) z) = xs"
  by simp

lemma concat_replicate_length:
  "(\<forall>x \<in> set xs. length x = k) \<Longrightarrow> length (concat xs) = k * length xs"
  by (induction xs) auto

section \<open>Codecs\<close>

text \<open>
  The contract of a self-delimiting encoding: the decoder, given an encoded value followed
  by anything, returns the value and the rest.  The stream lemmas are proved once here; the
  wire formats of the program interpret the locale in their own theories.
\<close>

fun decode_n :: "('b list \<Rightarrow> ('a \<times> 'b list) option) \<Rightarrow> nat \<Rightarrow> 'b list \<Rightarrow> ('a list \<times> 'b list) option" where
  "decode_n dec 0 bs = Some ([], bs)"
| "decode_n dec (Suc n) bs =
     (case dec bs of None \<Rightarrow> None
      | Some (x, bs') \<Rightarrow>
          (case decode_n dec n bs' of None \<Rightarrow> None | Some (xs, r) \<Rightarrow> Some (x # xs, r)))"

locale prefix_codec =
  fixes enc :: "'a \<Rightarrow> 'b list"
    and dec :: "'b list \<Rightarrow> ('a \<times> 'b list) option"
    and valid :: "'a \<Rightarrow> bool"
  assumes dec_enc: "valid x \<Longrightarrow> dec (enc x @ r) = Some (x, r)"
begin

lemma dec_enc_exact: "valid x \<Longrightarrow> dec (enc x) = Some (x, [])"
  using dec_enc [of x "[]"] by simp

lemma enc_inject: "valid x \<Longrightarrow> valid y \<Longrightarrow> enc x = enc y \<Longrightarrow> x = y"
  by (metis dec_enc_exact option.inject prod.inject)

lemma enc_prefix_free: "valid x \<Longrightarrow> valid y \<Longrightarrow> enc x @ r = enc y @ s \<Longrightarrow> x = y \<and> r = s"
  by (metis dec_enc option.inject prod.inject)

lemma decode_stream:
  "\<forall>x \<in> set xs. valid x \<Longrightarrow>
   decode_n dec (length xs) (concat (map enc xs) @ r) = Some (xs, r)"
  by (induction xs) (auto simp: dec_enc)

end

end
