(* ===== verification/GoBytes.thy ===== *)
theory GoBytes
  imports Prelude
begin

text \<open>
  The parts of the Go standard library that turn bytes into numbers and text and back:
  conversion between strings and byte slices, \<open>encoding/binary\<close> (big endian),
  \<open>math/big\<close> on naturals and integers, \<open>encoding/hex\<close> and decimal printing.
\<close>

section \<open>Strings and byte slices\<close>

definition byte_of_char :: "char \<Rightarrow> byte" where
  "byte_of_char c = word_of_nat (of_char c)"

definition char_of_byte :: "byte \<Rightarrow> char" where
  "char_of_byte b = char_of (unat b)"

definition bytes_of_string :: "string \<Rightarrow> bytes" where
  "bytes_of_string s = map byte_of_char s"

definition string_of_bytes :: "bytes \<Rightarrow> string" where
  "string_of_bytes bs = map char_of_byte bs"

lemma unat_byte_lt [simp]: "unat (b :: byte) < 256"
  using unsigned_less [of b, where 'a = nat] by simp

lemma char_of_byte_of_char [go_std, simp]: "char_of_byte (byte_of_char c) = c"
proof -
  have "(of_char c :: nat) < 256" by (rule nat_of_char_less_256)
  then have "unat (word_of_nat (of_char c) :: byte) = of_char c"
    by (simp add: unat_of_nat)
  then show ?thesis by (simp add: char_of_byte_def byte_of_char_def)
qed

lemma byte_of_char_of_byte [go_std, simp]: "byte_of_char (char_of_byte b) = b"
proof -
  have "unat b < 256" by (rule unat_byte_lt)
  then have "of_char (char_of (unat b) :: char) = unat b" by (simp add: of_char_of)
  then show ?thesis by (simp add: char_of_byte_def byte_of_char_def)
qed

lemma string_of_bytes_of_string [go_std, simp]: "string_of_bytes (bytes_of_string s) = s"
  by (simp add: string_of_bytes_def bytes_of_string_def o_def)

lemma bytes_of_string_of_bytes [go_std, simp]: "bytes_of_string (string_of_bytes bs) = bs"
  by (simp add: string_of_bytes_def bytes_of_string_def o_def)

lemma length_bytes_of_string [go_std, simp]: "length (bytes_of_string s) = length s"
  by (simp add: bytes_of_string_def)

lemma length_string_of_bytes [go_std, simp]: "length (string_of_bytes s) = length s"
  by (simp add: string_of_bytes_def)

lemma bytes_of_string_inject [simp]: "bytes_of_string s = bytes_of_string t \<longleftrightarrow> s = t"
  by (metis string_of_bytes_of_string)

section \<open>encoding/binary\<close>

definition PutUint32 :: "u32 \<Rightarrow> bytes" where
  "PutUint32 v = [ucast (drop_bit 24 v), ucast (drop_bit 16 v), ucast (drop_bit 8 v), ucast v]"

text \<open>\<open>binary.BigEndian.Uint32\<close> indexes four bytes, so a shorter slice panics.\<close>

fun Uint32 :: "bytes \<Rightarrow> u32 outcome" where
  "Uint32 (a # b # c # d # _) =
     Ret (ucast d OR push_bit 8 (ucast c) OR push_bit 16 (ucast b) OR push_bit 24 (ucast a))"
| "Uint32 _ = Panic"

fun Uint64 :: "bytes \<Rightarrow> u64 outcome" where
  "Uint64 (a # b # c # d # e # f # g # h # _) =
     Ret (ucast h OR push_bit 8 (ucast g) OR push_bit 16 (ucast f) OR push_bit 24 (ucast e)
          OR push_bit 32 (ucast d) OR push_bit 40 (ucast c) OR push_bit 48 (ucast b)
          OR push_bit 56 (ucast a))"
| "Uint64 _ = Panic"

lemma length_PutUint32 [go_std, simp]: "length (PutUint32 v) = 4"
  by (simp add: PutUint32_def)

lemma Uint32_PutUint32 [go_std, simp]: "Uint32 (PutUint32 v @ r) = Ret v"
proof -
  have "bit (ucast (ucast v :: byte) OR push_bit 8 (ucast (ucast (drop_bit 8 v) :: byte))
      OR push_bit 16 (ucast (ucast (drop_bit 16 v) :: byte))
      OR push_bit 24 (ucast (ucast (drop_bit 24 v) :: byte)) :: u32) n \<longleftrightarrow> bit v n"
    if "n < 32" for n
    using that by (cases "n < 8"; cases "n < 16"; cases "n < 24") (auto simp add: bit_simps)
  then have "ucast (ucast v :: byte) OR push_bit 8 (ucast (ucast (drop_bit 8 v) :: byte))
      OR push_bit 16 (ucast (ucast (drop_bit 16 v) :: byte))
      OR push_bit 24 (ucast (ucast (drop_bit 24 v) :: byte)) = v"
    by (intro bit_word_eqI) simp
  then show ?thesis by (simp add: PutUint32_def)
qed

lemma Uint64_panics_iff: "Uint64 bs = Panic \<longleftrightarrow> length bs < 8"
  by (induction bs rule: Uint64.induct) auto

section \<open>math/big\<close>

text \<open>\<open>new(big.Int).SetBytes\<close>: the slice as a big-endian natural.\<close>

definition SetBytes :: "bytes \<Rightarrow> nat" where
  "SetBytes bs = foldl (\<lambda>a b. a * 256 + unat b) 0 bs"

text \<open>\<open>big.Int.Bytes\<close>: the shortest big-endian slice of the absolute value.\<close>

fun big_Bytes :: "nat \<Rightarrow> bytes" where
  "big_Bytes n = (if n = 0 then [] else big_Bytes (n div 256) @ [word_of_nat (n mod 256)])"

declare big_Bytes.simps [simp del]

lemma SetBytes_snoc: "SetBytes (bs @ [b]) = SetBytes bs * 256 + unat b"
  by (simp add: SetBytes_def)

lemma SetBytes_Nil [simp]: "SetBytes [] = 0"
  by (simp add: SetBytes_def)

lemma SetBytes_big_Bytes [go_std, simp]: "SetBytes (big_Bytes n) = n"
proof (induction n rule: big_Bytes.induct)
  case (1 n)
  show ?case
  proof (cases "n = 0")
    case True
    then show ?thesis by (simp add: big_Bytes.simps)
  next
    case False
    have "unat (word_of_nat (n mod 256) :: byte) = n mod 256"
      by (simp add: unat_of_nat)
    with "1" False show ?thesis
      by (subst big_Bytes.simps) (simp add: SetBytes_snoc)
  qed
qed

text \<open>
  \<open>big.Int.Uint64\<close> keeps the low 64 bits of the absolute value; \<open>Int64\<close> reads the
  low 64 bits of the two's complement.
\<close>

definition big_Uint64 :: "int \<Rightarrow> u64" where
  "big_Uint64 x = word_of_int \<bar>x\<bar>"

definition big_Int64 :: "int \<Rightarrow> int" where
  "big_Int64 x = sint (word_of_int x :: u64)"

text \<open>
  \<open>big.Int.Exp(x, y, m)\<close> for \<open>x \<ge> 0\<close>: a nil or zero modulus means no reduction, the
  sign of the modulus is ignored, and a negative exponent needs an inverse (\<open>None\<close> is the
  nil that \<open>Exp\<close> returns when there is none).
\<close>

definition mod_inverse :: "nat \<Rightarrow> nat \<Rightarrow> nat option" where
  "mod_inverse x m = find (\<lambda>i. x * i mod m = 1 mod m) [0..<m]"

definition big_Exp :: "nat \<Rightarrow> int \<Rightarrow> int option \<Rightarrow> nat option" where
  "big_Exp x y m =
     (case m of
        None \<Rightarrow> Some (if y \<le> 0 then 1 else x ^ nat y)
      | Some n \<Rightarrow>
          (let m' = nat \<bar>n\<bar> in
           if m' = 0 then Some (if y \<le> 0 then 1 else x ^ nat y)
           else if 0 \<le> y then Some (x ^ nat y mod m')
           else map_option (\<lambda>i. i ^ nat (- y) mod m') (mod_inverse x m')))"

text \<open>\<open>big.Int.Mod\<close> is the Euclidean remainder; a zero (or nil) modulus panics.\<close>

definition big_Mod :: "nat \<Rightarrow> int option \<Rightarrow> nat outcome" where
  "big_Mod x m = (case m of None \<Rightarrow> Panic
     | Some n \<Rightarrow> if n = 0 then Panic else Ret (x mod nat \<bar>n\<bar>))"

section \<open>Decimal text\<close>

definition is_digit :: "char \<Rightarrow> bool" where
  "is_digit c = (48 \<le> (of_char c :: nat) \<and> (of_char c :: nat) \<le> 57)"

definition digit_val :: "char \<Rightarrow> nat" where
  "digit_val c = of_char c - 48"

definition digit_char :: "nat \<Rightarrow> char" where
  "digit_char d = char_of (48 + d)"

text \<open>The \<open>%d\<close> of a non-negative integer.\<close>

fun show_nat :: "nat \<Rightarrow> string" where
  "show_nat n = (if n < 10 then [digit_char n]
                 else show_nat (n div 10) @ [digit_char (n mod 10)])"

declare show_nat.simps [simp del]

definition dec_val :: "nat \<Rightarrow> string \<Rightarrow> nat" where
  "dec_val a s = foldl (\<lambda>a c. a * 10 + digit_val c) a s"

lemma of_char_digit_char [simp]: "d < 10 \<Longrightarrow> of_char (digit_char d) = (48 + d :: nat)"
  by (simp add: digit_char_def of_char_of)

lemma is_digit_digit_char [simp]: "d < 10 \<Longrightarrow> is_digit (digit_char d)"
  by (simp add: is_digit_def)

lemma digit_char_0 [simp]: "digit_char 0 = CHR ''0''"
  unfolding digit_char_def by code_simp

lemma digit_val_digit_char [simp]: "d < 10 \<Longrightarrow> digit_val (digit_char d) = d"
  by (simp add: digit_val_def)

lemma dec_val_Nil [simp]: "dec_val a [] = a"
  by (simp add: dec_val_def)

lemma dec_val_Cons [simp]: "dec_val a (c # s) = dec_val (a * 10 + digit_val c) s"
  by (simp add: dec_val_def)

lemma dec_val_snoc: "dec_val a (s @ [c]) = dec_val a s * 10 + digit_val c"
  by (simp add: dec_val_def)

lemma show_nat_props:
  "list_all is_digit (show_nat n) \<and> show_nat n \<noteq> [] \<and> dec_val 0 (show_nat n) = n
   \<and> (hd (show_nat n) = CHR ''0'' \<longrightarrow> n = 0 \<and> show_nat n = ''0'')"
proof (induction n rule: show_nat.induct)
  case (1 n)
  show ?case
  proof (cases "n < 10")
    case True
    have "digit_char n = CHR ''0'' \<longleftrightarrow> n = 0"
    proof
      assume "digit_char n = CHR ''0''"
      then have "of_char (digit_char n) = (48 :: nat)" by simp
      with True show "n = 0" by simp
    qed simp
    with True show ?thesis by (subst (1 2 3 4 5) show_nat.simps) auto
  next
    case False
    have ne: "n div 10 \<noteq> 0" using False by simp
    show ?thesis using "1" [OF False] False ne
      by (subst (1 2 3 4 5) show_nat.simps) (auto simp: dec_val_snoc hd_append)
  qed
qed

lemma list_all_is_digit_show_nat [go_std, simp]: "list_all is_digit (show_nat n)"
  using show_nat_props [of n] by simp

lemma show_nat_nonempty [go_std, simp]: "show_nat n \<noteq> []"
  using show_nat_props [of n] by simp

lemma dec_val_show_nat [go_std, simp]: "dec_val 0 (show_nat n) = n"
  using show_nat_props [of n] by simp

lemma show_nat_leading_zero: "hd (show_nat n) = CHR ''0'' \<Longrightarrow> show_nat n = ''0''"
  using show_nat_props [of n] by blast

lemma length_show_nat: "0 < k \<Longrightarrow> n < 10 ^ k \<Longrightarrow> length (show_nat n) \<le> k"
proof (induction k arbitrary: n)
  case (Suc k)
  show ?case
  proof (cases "n < 10")
    case True
    then show ?thesis by (simp add: show_nat.simps [of n])
  next
    case False
    then have "0 < k" using Suc.prems by (cases k) auto
    moreover have "n div 10 < 10 ^ k" using Suc.prems by (simp add: less_mult_imp_div_less mult.commute)
    ultimately have "length (show_nat (n div 10)) \<le> k" by (rule Suc.IH)
    then show ?thesis using False by (simp add: show_nat.simps [of n])
  qed
qed simp

lemma show_nat_inject [simp]: "show_nat m = show_nat n \<longleftrightarrow> m = n"
  by (metis dec_val_show_nat)

section \<open>encoding/hex\<close>

definition hex_char :: "nat \<Rightarrow> char" where
  "hex_char d = (if d < 10 then char_of (48 + d) else char_of (87 + d))"

definition hex_val :: "char \<Rightarrow> nat option" where
  "hex_val c = (let n = of_char c in
     if 48 \<le> n \<and> n \<le> 57 then Some (n - 48)
     else if 97 \<le> n \<and> n \<le> 102 then Some (n - 87)
     else if 65 \<le> n \<and> n \<le> 70 then Some (n - 55) else None)"

definition hex_byte :: "byte \<Rightarrow> string" where
  "hex_byte b = [hex_char (unat b div 16), hex_char (unat b mod 16)]"

definition hex_EncodeToString :: "bytes \<Rightarrow> string" where
  "hex_EncodeToString bs = concat (map hex_byte bs)"

fun hex_DecodeString :: "string \<Rightarrow> go_error + bytes" where
  "hex_DecodeString [] = Inr []"
| "hex_DecodeString [c] =
     (case hex_val c of None \<Rightarrow> Inl ''encoding/hex: invalid byte''
      | Some _ \<Rightarrow> Inl ''encoding/hex: odd length hex string'')"
| "hex_DecodeString (c # d # s) =
     (case (hex_val c, hex_val d) of
        (Some a, Some b) \<Rightarrow>
          (case hex_DecodeString s of Inl e \<Rightarrow> Inl e | Inr r \<Rightarrow> Inr (word_of_nat (a * 16 + b) # r))
      | _ \<Rightarrow> Inl ''encoding/hex: invalid byte'')"

lemma hex_val_hex_char [simp]: "d < 16 \<Longrightarrow> hex_val (hex_char d) = Some d"
  by (auto simp: hex_val_def hex_char_def of_char_of Let_def)

lemma length_hex_byte [simp]: "length (hex_byte b) = 2"
  by (simp add: hex_byte_def)

lemma length_hex [go_std, simp]: "length (hex_EncodeToString bs) = 2 * length bs"
  by (induction bs) (auto simp: hex_EncodeToString_def)

lemma hex_roundtrip [go_std, simp]: "hex_DecodeString (hex_EncodeToString bs) = Inr bs"
proof (induction bs)
  case Nil
  then show ?case by (simp add: hex_EncodeToString_def)
next
  case (Cons b bs)
  have lt: "unat b div 16 < 16" using unat_byte_lt [of b] by linarith
  have "(word_of_nat (unat b div 16 * 16 + unat b mod 16) :: byte) = b"
    by (simp only: div_mult_mod_eq) simp
  with Cons lt show ?case
    by (simp add: hex_EncodeToString_def hex_byte_def)
qed

end
