(* ===== verification/Ss58.thy ===== *)
theory Ss58
  imports GoBytes
begin

text \<open>
  Account addresses (pkg/utils/ss58_transform.go).  The base58 codec and the BLAKE2b hash are
  third-party packages: they are the parameters \<open>b58enc\<close>, \<open>b58dec\<close> and \<open>sum512\<close>.
  What the code relies on is stated as \<open>ss58_deps\<close>: decoding inverts encoding, the empty
  text decodes to the empty slice, and the digest has 64 bytes.
\<close>

definition SSPrefix :: bytes where "SSPrefix = [0x53, 0x53, 0x35, 0x38, 0x50, 0x52, 0x45]"
definition SubstratePrefix :: bytes where "SubstratePrefix = [0x2a]"
definition CessPrefix :: bytes where "CessPrefix = [0x50, 0xac]"

lemmas prefix_defs [go_code] = SSPrefix_def SubstratePrefix_def CessPrefix_def

definition ss58_deps :: "(bytes \<Rightarrow> string) \<Rightarrow> (string \<Rightarrow> bytes) \<Rightarrow> (bytes \<Rightarrow> bytes) \<Rightarrow> bool" where
  "ss58_deps b58enc b58dec sum512 \<longleftrightarrow>
     (\<forall>bs. b58dec (b58enc bs) = bs) \<and> b58dec [] = [] \<and> (\<forall>bs. length (sum512 bs) = 64)"

section \<open>The operations\<close>

definition appendBytes :: "bytes \<Rightarrow> bytes \<Rightarrow> bytes" where
  "appendBytes data1 data2 = data1 @ data2"

definition EncodePublicKey :: "(bytes \<Rightarrow> string) \<Rightarrow> (bytes \<Rightarrow> bytes) \<Rightarrow> bytes \<Rightarrow> bytes \<Rightarrow> go_error + string" where
  "EncodePublicKey b58enc sum512 prefix publicKey =
     (if length publicKey \<noteq> 32 then Inl ''public hash length is not equal 32''
      else let payload = appendBytes prefix publicKey;
               input = appendBytes SSPrefix payload;
               checkum = take 2 (sum512 input);
               address = b58enc (appendBytes payload checkum)
           in if address = [] then Inl ''base58 encode error'' else Inr address)"

definition EncodePublicKeyAsSubstrateAccount ::
  "(bytes \<Rightarrow> string) \<Rightarrow> (bytes \<Rightarrow> bytes) \<Rightarrow> bytes \<Rightarrow> go_error + string" where
  "EncodePublicKeyAsSubstrateAccount b58enc sum512 publicKey =
     EncodePublicKey b58enc sum512 SubstratePrefix publicKey"

definition EncodePublicKeyAsCessAccount ::
  "(bytes \<Rightarrow> string) \<Rightarrow> (bytes \<Rightarrow> bytes) \<Rightarrow> bytes \<Rightarrow> go_error + string" where
  "EncodePublicKeyAsCessAccount b58enc sum512 publicKey =
     EncodePublicKey b58enc sum512 CessPrefix publicKey"

text \<open>
  \<open>VerityAddress\<close> returns \<open>None\<close> for the nil error.  Only the first byte of the prefix
  is compared with the address.
\<close>

definition VerityAddress ::
  "(string \<Rightarrow> bytes) \<Rightarrow> (bytes \<Rightarrow> bytes) \<Rightarrow> string \<Rightarrow> bytes \<Rightarrow> go_error option" where
  "VerityAddress b58dec sum512 address prefix =
     (let decodeBytes = b58dec address in
      if length decodeBytes \<noteq> 34 + length prefix then Some ''base58 decode error''
      else if decodeBytes ! 0 \<noteq> prefix ! 0 then Some ''prefix valid error''
      else let pub = subslice (length prefix) (length decodeBytes - 2) decodeBytes;
               input = SSPrefix @ (prefix @ pub);
               checkSum = take 2 (sum512 input) in
        if checkSum ! 0 \<noteq> decodeBytes ! (32 + length prefix + 0)
           \<or> checkSum ! 1 \<noteq> decodeBytes ! (32 + length prefix + 1)
        then Some ''checksum valid error''
        else if length pub \<noteq> 32 then Some ''decode public key length is not equal 32''
        else None)"

definition DecodePublicKey ::
  "string \<Rightarrow> (string \<Rightarrow> bytes) \<Rightarrow> (bytes \<Rightarrow> bytes) \<Rightarrow> bytes \<Rightarrow> string \<Rightarrow> go_error + bytes" where
  "DecodePublicKey msg b58dec sum512 prefix address =
     (case VerityAddress b58dec sum512 address prefix of
        Some _ \<Rightarrow> Inl msg
      | None \<Rightarrow>
          (let data = b58dec address in
           if length data \<noteq> 34 + length prefix then Inl ''base58 decode error''
           else Inr (subslice (length prefix) (length data - 2) data)))"

definition DecodePublicKeyOfCessAccount ::
  "(string \<Rightarrow> bytes) \<Rightarrow> (bytes \<Rightarrow> bytes) \<Rightarrow> string \<Rightarrow> go_error + bytes" where
  "DecodePublicKeyOfCessAccount b58dec sum512 address =
     DecodePublicKey ''Invalid addrss'' b58dec sum512 CessPrefix address"

definition DecodePublicKeyOfSubstrateAccount ::
  "(string \<Rightarrow> bytes) \<Rightarrow> (bytes \<Rightarrow> bytes) \<Rightarrow> string \<Rightarrow> go_error + bytes" where
  "DecodePublicKeyOfSubstrateAccount b58dec sum512 address =
     DecodePublicKey ''Invalid address'' b58dec sum512 SubstratePrefix address"

text \<open>\<open>fmt.Sprintf("%#02x", b)\<close> is \<open>0x\<close> and two digits, of which the code keeps the digits.\<close>

definition PubBytesToString :: "bytes \<Rightarrow> string" where
  "PubBytesToString b = foldl (\<lambda>s x. s @ drop 2 (''0x'' @ hex_byte x)) [] b"

section \<open>Lemmas\<close>

lemma ss58_depsD:
  assumes "ss58_deps b58enc b58dec sum512"
  shows "b58dec (b58enc bs) = bs" "b58dec [] = []" "length (sum512 bs) = 64"
    "b58enc bs = [] \<Longrightarrow> bs = []"
  using assms unfolding ss58_deps_def by metis+

lemma encode_ok:
  assumes "ss58_deps b58enc b58dec sum512" "length pk = 32"
  shows "EncodePublicKey b58enc sum512 prefix pk =
    Inr (b58enc (prefix @ pk @ take 2 (sum512 (SSPrefix @ prefix @ pk))))"
proof -
  have "b58enc (prefix @ pk @ take 2 (sum512 (SSPrefix @ prefix @ pk))) \<noteq> []"
    using ss58_depsD(4) [OF assms(1), of "prefix @ pk @ take 2 (sum512 (SSPrefix @ prefix @ pk))"]
      assms(2)
    by auto
  with assms(2) show ?thesis by (simp add: EncodePublicKey_def appendBytes_def Let_def)
qed

lemma subslice_payload:
  "length pk = 32 \<Longrightarrow> length ck = 2 \<Longrightarrow>
   subslice (length p) (length (p @ pk @ ck) - 2) (p @ pk @ ck) = pk"
  by (intro subslice_append_mid) auto

text \<open>
  Acceptance, characterised: the decoded bytes are the prefix length and 34 more, start with
  the first prefix byte, and end in the checksum of the \<^emph>\<open>expected\<close> prefix and the key.
\<close>

lemma verify_iff:
  assumes "\<And>bs. length (sum512 bs) = 64"
  shows "VerityAddress b58dec sum512 address prefix = None \<longleftrightarrow>
    (\<exists>p pk. b58dec address = p @ pk @ take 2 (sum512 (SSPrefix @ prefix @ pk))
       \<and> length p = length prefix \<and> length pk = 32
       \<and> b58dec address ! 0 = prefix ! 0)" (is "?L \<longleftrightarrow> ?R")
proof
  assume L: ?L
  let ?d = "b58dec address" and ?n = "length prefix"
  let ?pk = "subslice ?n (length ?d - 2) ?d"
  let ?ck = "take 2 (sum512 (SSPrefix @ prefix @ ?pk))"
  from L have len: "length ?d = 34 + ?n" and hd: "?d ! 0 = prefix ! 0"
    and c0: "?ck ! 0 = ?d ! (32 + ?n)" and c1: "?ck ! 1 = ?d ! (33 + ?n)"
    by (auto simp: VerityAddress_def Let_def split: if_splits)
  have lck: "length ?ck = 2" using assms by simp
  have "drop (32 + ?n) ?d = ?ck"
  proof (rule nth_equalityI)
    show "length (drop (32 + ?n) ?d) = length ?ck" using len lck by simp
    fix i assume "i < length (drop (32 + ?n) ?d)"
    then have "i = 0 \<or> i = 1" using len by auto
    then show "drop (32 + ?n) ?d ! i = ?ck ! i" using c0 c1 len by (auto simp: add.commute)
  qed
  moreover have "?d = take ?n ?d @ ?pk @ drop (32 + ?n) ?d"
    using subslice_split [of ?n "32 + ?n" ?d] len by (simp add: add.commute)
  ultimately have "?d = take ?n ?d @ ?pk @ ?ck" by simp
  moreover have "length ?pk = 32" "length (take ?n ?d) = ?n" using len by auto
  ultimately show ?R using hd by blast
next
  assume ?R
  then obtain p pk where d: "b58dec address = p @ pk @ take 2 (sum512 (SSPrefix @ prefix @ pk))"
    and lp: "length p = length prefix" and lk: "length pk = 32"
    and hd: "b58dec address ! 0 = prefix ! 0" by blast
  let ?ck = "take 2 (sum512 (SSPrefix @ prefix @ pk))"
  have lck: "length ?ck = 2" using assms by simp
  have len: "length (b58dec address) = 34 + length prefix" using d lp lk lck by simp
  have sub: "subslice (length prefix) (length (b58dec address) - 2) (b58dec address) = pk"
    using subslice_payload [of pk ?ck p] lk lck lp d by simp
  have ck: "b58dec address ! (32 + length prefix + i) = ?ck ! i" for i
    using d lp lk by (simp add: nth_append)
  show ?L using len hd sub ck [of 0] ck [of 1] lk
    by (simp add: VerityAddress_def Let_def)
qed

lemma verify_encoded:
  assumes "ss58_deps b58enc b58dec sum512" "length pk = 32" "prefix \<noteq> []"
    and "b58dec address = prefix @ pk @ take 2 (sum512 (SSPrefix @ prefix @ pk))"
  shows "VerityAddress b58dec sum512 address prefix = None"
proof -
  have "b58dec address ! 0 = prefix ! 0" using assms(3,4) by (cases prefix) auto
  with assms(2,4) show ?thesis
    by (subst verify_iff) (use ss58_depsD(3) [OF assms(1)] in auto)
qed

lemma decode_encoded:
  assumes "ss58_deps b58enc b58dec sum512" "length pk = 32" "prefix \<noteq> []"
  shows "bind_result (EncodePublicKey b58enc sum512 prefix pk)
           (DecodePublicKey msg b58dec sum512 prefix) = Inr pk"
proof -
  let ?ck = "take 2 (sum512 (SSPrefix @ prefix @ pk))"
  have dec: "b58dec (b58enc (prefix @ pk @ ?ck)) = prefix @ pk @ ?ck"
    by (rule ss58_depsD(1) [OF assms(1)])
  have lck: "length ?ck = 2" using ss58_depsD(3) [OF assms(1)] by simp
  have "VerityAddress b58dec sum512 (b58enc (prefix @ pk @ ?ck)) prefix = None"
    using assms dec by (intro verify_encoded)
  with dec lck assms subslice_payload [of pk ?ck prefix] show ?thesis
    by (simp add: encode_ok DecodePublicKey_def Let_def)
qed

lemma PubBytesToString_hex: "PubBytesToString bs = hex_EncodeToString bs"
proof -
  have "foldl (\<lambda>s x. s @ drop 2 (''0x'' @ hex_byte x)) s bs = s @ hex_EncodeToString bs" for s
    by (induction bs arbitrary: s) (auto simp: hex_EncodeToString_def)
  then show ?thesis by (simp add: PubBytesToString_def)
qed

section \<open>Properties\<close>

lemma sample_deps: "ss58_deps string_of_bytes bytes_of_string (\<lambda>_. replicate 64 0)"
  by (simp add: ss58_deps_def bytes_of_string_def [of "[]"])

text \<open>
  C40: Account addresses round trip: a 32-byte public key that is printed as a CESS or as a
  Substrate account decodes, as the same kind of account, to that key.
\<close>

theorem account_roundtrip:
  assumes "ss58_deps b58enc b58dec sum512" and "length pk = 32"
  shows "bind_result (EncodePublicKeyAsCessAccount b58enc sum512 pk)
      (DecodePublicKeyOfCessAccount b58dec sum512) = Inr pk
    \<and> bind_result (EncodePublicKeyAsSubstrateAccount b58enc sum512 pk)
      (DecodePublicKeyOfSubstrateAccount b58dec sum512) = Inr pk"
proof -
  have ne: "CessPrefix \<noteq> []" "SubstratePrefix \<noteq> []" by (simp_all add: prefix_defs)
  have "DecodePublicKeyOfCessAccount b58dec sum512
      = DecodePublicKey ''Invalid addrss'' b58dec sum512 CessPrefix"
    "DecodePublicKeyOfSubstrateAccount b58dec sum512
      = DecodePublicKey ''Invalid address'' b58dec sum512 SubstratePrefix"
    by (simp_all add: fun_eq_iff DecodePublicKeyOfCessAccount_def DecodePublicKeyOfSubstrateAccount_def)
  then show ?thesis
    unfolding EncodePublicKeyAsCessAccount_def EncodePublicKeyAsSubstrateAccount_def
    using decode_encoded [OF assms ne(1)] decode_encoded [OF assms ne(2)] by (simp only: simp_thms)
qed

theorem account_roundtrip_witness:
  "bind_result (EncodePublicKeyAsCessAccount string_of_bytes (\<lambda>_. replicate 64 0) (replicate 32 7))
      (DecodePublicKeyOfCessAccount bytes_of_string (\<lambda>_. replicate 64 0)) = Inr (replicate 32 7)"
  using account_roundtrip [OF sample_deps, of "replicate 32 7"]
  by (simp only: length_replicate refl simp_thms)

lemma decode_iff:
  assumes "\<And>bs. length (sum512 bs) = 64"
  shows "DecodePublicKey msg b58dec sum512 prefix address = Inr pk \<longleftrightarrow>
    (\<exists>p. b58dec address = p @ pk @ take 2 (sum512 (SSPrefix @ prefix @ pk))
       \<and> length p = length prefix \<and> length pk = 32 \<and> b58dec address ! 0 = prefix ! 0)"
    (is "?L \<longleftrightarrow> ?R pk")
proof
  assume L: ?L
  then have v: "VerityAddress b58dec sum512 address prefix = None"
    by (auto simp: DecodePublicKey_def split: option.splits)
  note vi = verify_iff [of sum512 b58dec address prefix, OF assms]
  from v vi obtain k where k: "?R k" by auto
  then obtain p where p: "b58dec address = p @ k @ take 2 (sum512 (SSPrefix @ prefix @ k))"
    "length p = length prefix" "length k = 32" by blast
  have ck: "length (take 2 (sum512 (SSPrefix @ prefix @ k))) = 2" using assms by simp
  have "subslice (length prefix) (length (b58dec address) - 2) (b58dec address) = k"
    using subslice_payload [OF p(3) ck, of p] p(1,2) by simp
  moreover have "length (b58dec address) = 34 + length prefix" using p ck by simp
  ultimately have "DecodePublicKey msg b58dec sum512 prefix address = Inr k"
    using v by (simp add: DecodePublicKey_def Let_def)
  with L have "pk = k" by simp
  with k show "?R pk" by simp
next
  assume R: "?R pk"
  note vi = verify_iff [of sum512 b58dec address prefix, OF assms]
  from R vi have v: "VerityAddress b58dec sum512 address prefix = None" by auto
  from R obtain p where p: "b58dec address = p @ pk @ take 2 (sum512 (SSPrefix @ prefix @ pk))"
    "length p = length prefix" "length pk = 32" by blast
  let ?ck = "take 2 (sum512 (SSPrefix @ prefix @ pk))"
  have ck: "length ?ck = 2" using assms by simp
  have "subslice (length prefix) (length (b58dec address) - 2) (b58dec address) = pk"
    using subslice_payload [OF p(3) ck, of p] p by simp
  moreover have "length (b58dec address) = 34 + length prefix" using p ck by simp
  ultimately show ?L using v by (simp add: DecodePublicKey_def Let_def)
qed

text \<open>
  A text is accepted as a CESS account exactly when it decodes to the byte \<open>0x50\<close>, any one
  byte, a 32-byte key, which is the result, and the checksum of the CESS prefix and that key: the
  second byte of the prefix is not compared.
\<close>

theorem cess_account_accepted_iff:
  assumes "\<And>bs. length (sum512 bs) = 64"
  shows "DecodePublicKeyOfCessAccount b58dec sum512 address = Inr pk \<longleftrightarrow>
    (\<exists>b. b58dec address = 0x50 # b # pk @ take 2 (sum512 (SSPrefix @ CessPrefix @ pk))
       \<and> length pk = 32)"
proof -
  have two: "(\<exists>p. d = p @ r \<and> length p = length CessPrefix \<and> length pk = 32 \<and> d ! 0 = CessPrefix ! 0)
      \<longleftrightarrow> (\<exists>b. d = 0x50 # b # r \<and> length pk = 32)" for d r :: bytes
  proof
    assume "\<exists>p. d = p @ r \<and> length p = length CessPrefix \<and> length pk = 32 \<and> d ! 0 = CessPrefix ! 0"
    then obtain p where p: "d = p @ r" "length p = Suc (Suc 0)" "length pk = 32" "d ! 0 = 0x50"
      by (auto simp: CessPrefix_def)
    then show "\<exists>b. d = 0x50 # b # r \<and> length pk = 32"
      by (auto simp: length_Suc_conv)
  next
    assume "\<exists>b. d = 0x50 # b # r \<and> length pk = 32"
    then obtain b where "d = [0x50, b] @ r" "length pk = 32" by auto
    then show "\<exists>p. d = p @ r \<and> length p = length CessPrefix \<and> length pk = 32 \<and> d ! 0 = CessPrefix ! 0"
      by (intro exI [of _ "[0x50, b]"]) (simp add: CessPrefix_def)
  qed
  show ?thesis
    unfolding DecodePublicKeyOfCessAccount_def decode_iff [of sum512, OF assms] two ..
qed

theorem cess_account_accepted_iff_witness:
  "DecodePublicKeyOfCessAccount bytes_of_string (\<lambda>_. replicate 64 0)
     (string_of_bytes (0x50 # 0x00 # replicate 32 7 @ [0, 0])) = Inr (replicate 32 7)"
  using cess_account_accepted_iff [of "\<lambda>_. replicate 64 0" bytes_of_string
      "string_of_bytes (0x50 # 0x00 # replicate 32 7 @ [0, 0])" "replicate 32 7"]
  by (simp add: eval_nat_numeral del: replicate_0)

end
