(* ===== verification/GoStrings.thy ===== *)
theory GoStrings
  imports GoBytes
begin

text \<open>
  The parts of \<open>strings\<close>, \<open>strconv\<close>, \<open>path/filepath\<close> and \<open>net\<close> that the
  program uses: splitting and suffixes, \<open>Atoi\<close>, \<open>Base\<close>, \<open>Ext\<close>, \<open>Join\<close> and
  \<open>ParseIP\<close> (its version in Go 1.19, the release the module names).
\<close>

section \<open>strings\<close>

fun contains_sub :: "string \<Rightarrow> string \<Rightarrow> bool" where
  "contains_sub p [] = (p = [])"
| "contains_sub p (c # s) = (take (length p) (c # s) = p \<or> contains_sub p s)"

text \<open>\<open>strings.Split(s, sep)\<close> for a separator of one character.\<close>

fun split_char :: "char \<Rightarrow> string \<Rightarrow> string list" where
  "split_char c [] = [[]]"
| "split_char c (x # xs) =
     (if x = c then [] # split_char c xs
      else (case split_char c xs of [] \<Rightarrow> [[x]] | y # ys \<Rightarrow> (x # y) # ys))"

definition has_suffix :: "string \<Rightarrow> string \<Rightarrow> bool" where
  "has_suffix s suf = (length suf \<le> length s \<and> drop (length s - length suf) s = suf)"

definition TrimSuffix :: "string \<Rightarrow> string \<Rightarrow> string" where
  "TrimSuffix s suf = (if has_suffix s suf then take (length s - length suf) s else s)"

lemma TrimSuffix_append [go_std, simp]: "TrimSuffix (s @ suf) suf = s"
  by (simp add: TrimSuffix_def has_suffix_def)

lemma split_char_nonempty [simp]: "split_char c s \<noteq> []"
  by (induction s) (auto split: list.splits)

lemma split_char_no_sep [go_std]: "c \<notin> set s \<Longrightarrow> split_char c s = [s]"
  by (induction s) auto

lemma split_char_append [go_std]:
  "c \<notin> set s \<Longrightarrow> split_char c (s @ c # t) = s # split_char c t"
  by (induction s) auto

lemma contains_sub_append [simp]: "contains_sub p (s @ p @ t)"
proof (induction s)
  case Nil
  then show ?case by (cases p; cases t) auto
qed auto

lemma contains_sub_single: "contains_sub [c] s \<longleftrightarrow> c \<in> set s"
  by (induction s) auto

section \<open>strconv\<close>

text \<open>
  \<open>Atoi\<close> returns a value beside its error (0 for a syntax error, the nearest bound for a
  range error), and the code reads it without looking at the error.
\<close>

definition Atoi :: "string \<Rightarrow> int \<times> go_error option" where
  "Atoi s =
     (let neg = (s \<noteq> [] \<and> hd s = CHR ''-'');
          ds = (if s \<noteq> [] \<and> (hd s = CHR ''-'' \<or> hd s = CHR ''+'') then tl s else s) in
      if ds = [] \<or> \<not> list_all is_digit ds then (0, Some ''invalid syntax'')
      else let v = int (dec_val 0 ds) in
        if neg then (if v > 2 ^ 63 then (- (2 ^ 63), Some ''value out of range'') else (- v, None))
        else (if v \<ge> 2 ^ 63 then (2 ^ 63 - 1, Some ''value out of range'') else (v, None)))"

lemma not_digit_sign: "is_digit c \<Longrightarrow> c \<noteq> CHR ''-'' \<and> c \<noteq> CHR ''+'' \<and> c \<noteq> CHR ''.'' \<and> c \<noteq> CHR '':''
    \<and> c \<noteq> CHR ''/''"
  by (auto simp: is_digit_def)

lemma Atoi_show_nat [go_std]: "n < 2 ^ 63 \<Longrightarrow> Atoi (show_nat n) = (int n, None)"
proof -
  assume lt: "n < 2 ^ 63"
  have "is_digit (hd (show_nat n))"
    using list_all_is_digit_show_nat [of n] show_nat_nonempty [of n]
    by (cases "show_nat n") auto
  then have "hd (show_nat n) \<noteq> CHR ''-''" "hd (show_nat n) \<noteq> CHR ''+''"
    using not_digit_sign by blast+
  with lt show ?thesis by (simp add: Atoi_def Let_def)
qed

lemma sep_notin_show_nat [simp]:
  "CHR ''.'' \<notin> set (show_nat n)" "CHR '':'' \<notin> set (show_nat n)" "CHR ''/'' \<notin> set (show_nat n)"
  using list_all_is_digit_show_nat [of n] not_digit_sign unfolding list_all_iff by blast+

text \<open>\<open>new(big.Int).SetString(s, 10)\<close>: \<open>None\<close> is the nil integer with \<open>ok = false\<close>.\<close>

definition SetString10 :: "string \<Rightarrow> int option" where
  "SetString10 s =
     (let neg = (s \<noteq> [] \<and> hd s = CHR ''-'');
          ds = (if s \<noteq> [] \<and> (hd s = CHR ''-'' \<or> hd s = CHR ''+'') then tl s else s) in
      if ds = [] \<or> \<not> list_all is_digit ds then None
      else Some (if neg then - int (dec_val 0 ds) else int (dec_val 0 ds)))"

lemma SetString10_show_nat [go_std, simp]: "SetString10 (show_nat n) = Some (int n)"
proof -
  have "is_digit (hd (show_nat n))"
    using list_all_is_digit_show_nat [of n] show_nat_nonempty [of n]
    by (cases "show_nat n") auto
  then have "hd (show_nat n) \<noteq> CHR ''-''" "hd (show_nat n) \<noteq> CHR ''+''"
    using not_digit_sign by blast+
  then show ?thesis by (simp add: SetString10_def Let_def)
qed

section \<open>path/filepath\<close>

definition strip_slashes :: "string \<Rightarrow> string" where
  "strip_slashes p = rev (dropWhile (\<lambda>c. c = CHR ''/'') (rev p))"

definition last_elem :: "string \<Rightarrow> string" where
  "last_elem p = rev (takeWhile (\<lambda>c. c \<noteq> CHR ''/'') (rev p))"

definition filepath_Base :: "string \<Rightarrow> string" where
  "filepath_Base p =
     (if p = [] then ''.''
      else let q = strip_slashes p; b = last_elem q in if b = [] then ''/'' else b)"

definition filepath_Ext :: "string \<Rightarrow> string" where
  "filepath_Ext p =
     (let t = takeWhile (\<lambda>c. c \<noteq> CHR ''.'' \<and> c \<noteq> CHR ''/'') (rev p) in
      case drop (length t) (rev p) of
        [] \<Rightarrow> []
      | c # _ \<Rightarrow> if c = CHR ''.'' then c # rev t else [])"

text \<open>
  \<open>Clean\<close> works through the elements between slashes with a stack (newest first): empty
  and \<open>.\<close> elements vanish, \<open>..\<close> removes the element before it, stays at the front of a
  relative path and vanishes at the root of a rooted one.
\<close>

fun clean_elems :: "bool \<Rightarrow> string list \<Rightarrow> string list \<Rightarrow> string list" where
  "clean_elems rooted st [] = rev st"
| "clean_elems rooted st (e # es) =
     (if e = [] \<or> e = ''.'' then clean_elems rooted st es
      else if e = ''..'' then
        (case st of
           [] \<Rightarrow> clean_elems rooted (if rooted then [] else [''..'']) es
         | e1 # st1 \<Rightarrow>
             if e1 = ''..'' then clean_elems rooted (''..'' # st) es
             else clean_elems rooted st1 es)
      else clean_elems rooted (e # st) es)"

fun join_slash :: "string list \<Rightarrow> string" where
  "join_slash [] = []"
| "join_slash [e] = e"
| "join_slash (e # es) = e @ CHR ''/'' # join_slash es"

definition filepath_Clean :: "string \<Rightarrow> string" where
  "filepath_Clean p =
     (if p = [] then ''.''
      else let rooted = (hd p = CHR ''/'');
               body = join_slash (clean_elems rooted [] (split_char CHR ''/'' p)) in
        if rooted then CHR ''/'' # body else if body = [] then ''.'' else body)"

definition filepath_Join :: "string list \<Rightarrow> string" where
  "filepath_Join es =
     (let ne = filter (\<lambda>e. e \<noteq> []) es in
      if ne = [] then [] else filepath_Clean (join_slash ne))"

lemma last_elem_no_slash [simp]: "CHR ''/'' \<notin> set p \<Longrightarrow> last_elem p = p"
proof -
  assume "CHR ''/'' \<notin> set p"
  then have tw: "takeWhile (\<lambda>c. c \<noteq> CHR ''/'') (rev p) = rev p"
    by (subst takeWhile_eq_all_conv) auto
  show ?thesis by (simp only: last_elem_def tw rev_rev_ident)
qed

lemma last_elem_append [simp]: "CHR ''/'' \<notin> set n \<Longrightarrow> last_elem (d @ CHR ''/'' # n) = n"
proof -
  assume "CHR ''/'' \<notin> set n"
  then have "takeWhile (\<lambda>c. c \<noteq> CHR ''/'') (rev n @ CHR ''/'' # rev d) = rev n"
    by (subst takeWhile_append2) auto
  then show ?thesis by (simp add: last_elem_def)
qed

lemma strip_slashes_id: "n \<noteq> [] \<Longrightarrow> CHR ''/'' \<notin> set n \<Longrightarrow> strip_slashes (d @ n) = d @ n"
proof -
  assume "n \<noteq> []" and "CHR ''/'' \<notin> set n"
  then have "dropWhile (\<lambda>c. c = CHR ''/'') (rev (d @ n)) = rev (d @ n)"
    by (subst dropWhile_eq_self_iff) (auto simp: hd_append hd_rev dest: last_in_set)
  then show ?thesis by (simp add: strip_slashes_def)
qed

lemma filepath_Base_name [go_std]:
  assumes "n \<noteq> []" "CHR ''/'' \<notin> set n"
  shows "filepath_Base n = n" "filepath_Base (d @ CHR ''/'' # n) = n"
proof -
  show "filepath_Base n = n"
    using strip_slashes_id [of n "[]"] assms by (simp add: filepath_Base_def)
  have "strip_slashes (d @ CHR ''/'' # n) = d @ CHR ''/'' # n"
    using strip_slashes_id [of n "d @ [CHR ''/'']"] assms by simp
  then show "filepath_Base (d @ CHR ''/'' # n) = n"
    using assms by (simp add: filepath_Base_def)
qed

section \<open>net.ParseIP\<close>

text \<open>
  \<open>dtoi\<close> and \<open>xtoi\<close> read a decimal or hexadecimal prefix: the value and the number of
  characters, or \<open>None\<close> for \<open>ok = false\<close> (no digit, or a value of \<open>0xFFFFFF\<close> or more).
\<close>

fun dtoi :: "nat \<Rightarrow> nat \<Rightarrow> string \<Rightarrow> (nat \<times> nat) option" where
  "dtoi n i [] = (if i = 0 then None else Some (n, i))"
| "dtoi n i (c # s) =
     (if is_digit c then
        (let n' = n * 10 + digit_val c in
         if n' \<ge> 16777215 then None else dtoi n' (i + 1) s)
      else if i = 0 then None else Some (n, i))"

fun xtoi :: "nat \<Rightarrow> nat \<Rightarrow> string \<Rightarrow> (nat \<times> nat) option" where
  "xtoi n i [] = (if i = 0 then None else Some (n, i))"
| "xtoi n i (c # s) =
     (case hex_val c of
        Some d \<Rightarrow>
          (let n' = n * 16 + d in
           if n' \<ge> 16777215 then None else xtoi n' (i + 1) s)
      | None \<Rightarrow> if i = 0 then None else Some (n, i))"

fun parse_octets :: "nat \<Rightarrow> bool \<Rightarrow> string \<Rightarrow> bytes option" where
  "parse_octets 0 first s = (if s = [] then Some [] else None)"
| "parse_octets (Suc k) first s =
     (case (if first then Some s
            else (case s of c # s' \<Rightarrow> if c = CHR ''.'' then Some s' else None | [] \<Rightarrow> None)) of
        None \<Rightarrow> None
      | Some t \<Rightarrow>
          (case dtoi 0 0 t of
             None \<Rightarrow> None
           | Some (n, c) \<Rightarrow>
               if n > 255 \<or> (c > 1 \<and> hd t = CHR ''0'') then None
               else map_option (\<lambda>r. word_of_nat n # r) (parse_octets k False (drop c t))))"

definition parseIPv4 :: "string \<Rightarrow> bytes option" where
  "parseIPv4 s = parse_octets 4 True s"

text \<open>
  The loop of \<open>parseIPv6\<close>: \<open>i\<close> counts the address bytes written, \<open>ell\<close> is whether
  the ellipsis has been seen.  Its callers only ask whether the result is nil, so the model
  returns whether it parses.
\<close>

function parse_groups :: "nat \<Rightarrow> bool \<Rightarrow> string \<Rightarrow> bool" where
  "parse_groups i ell s =
     (if i \<ge> 16 then s = [] \<and> \<not> ell
      else (case xtoi 0 0 s of
        None \<Rightarrow> False
      | Some (n, c) \<Rightarrow>
          if n > 65535 then False
          else if c < length s \<and> s ! c = CHR ''.'' then
            (if (\<not> ell \<and> i \<noteq> 12) \<or> i + 4 > 16 \<or> parseIPv4 s = None then False
             else if i + 4 < 16 then ell else \<not> ell)
          else
            (case drop c s of
               [] \<Rightarrow> (if i + 2 < 16 then ell else \<not> ell)
             | d # t \<Rightarrow>
                 if d \<noteq> CHR '':'' \<or> t = [] then False
                 else if hd t = CHR '':'' then
                   (if ell then False
                    else if tl t = [] then i + 2 < 16
                    else parse_groups (i + 2) True (tl t))
                 else parse_groups (i + 2) ell t)))"
  by pat_completeness auto
termination
  by (relation "measure (\<lambda>(i, ell, s). 16 - i)") auto

declare parse_groups.simps [simp del]

definition parseIPv6 :: "string \<Rightarrow> bool" where
  "parseIPv6 s =
     (if take 2 s = ''::'' then drop 2 s = [] \<or> parse_groups 0 True (drop 2 s)
      else parse_groups 0 False s)"

fun ParseIP_scan :: "string \<Rightarrow> string \<Rightarrow> bool" where
  "ParseIP_scan s [] = False"
| "ParseIP_scan s (c # t) =
     (if c = CHR ''.'' then parseIPv4 s \<noteq> None
      else if c = CHR '':'' then parseIPv6 s
      else ParseIP_scan s t)"

text \<open>Whether \<open>net.ParseIP(s)\<close> is not nil.\<close>

definition ParseIP_ok :: "string \<Rightarrow> bool" where
  "ParseIP_ok s = ParseIP_scan s s"

text \<open>The text \<open>fmt.Sprintf("%d.%d.%d.%d", ...)\<close> prints for four octets.\<close>

definition show_ipv4 :: "byte \<Rightarrow> byte \<Rightarrow> byte \<Rightarrow> byte \<Rightarrow> string" where
  "show_ipv4 a b c d =
     show_nat (unat a) @ CHR ''.'' # show_nat (unat b) @ CHR ''.'' # show_nat (unat c)
       @ CHR ''.'' # show_nat (unat d)"

lemma dec_val_mono: "a \<le> dec_val a s"
proof (induction s arbitrary: a)
  case Nil
  then show ?case by simp
next
  case (Cons c s)
  have "a \<le> a * 10 + digit_val c" by simp
  also have "\<dots> \<le> dec_val (a * 10 + digit_val c) s" by (rule Cons.IH)
  finally show ?case by simp
qed

lemma dtoi_digits:
  "list_all is_digit ds \<Longrightarrow> dec_val n ds < 16777215 \<Longrightarrow> (r = [] \<or> \<not> is_digit (hd r)) \<Longrightarrow>
   0 < i + length ds \<Longrightarrow> dtoi n i (ds @ r) = Some (dec_val n ds, i + length ds)"
proof (induction ds arbitrary: n i)
  case Nil
  then show ?case by (cases r) auto
next
  case (Cons d ds)
  have "n * 10 + digit_val d \<le> dec_val (n * 10 + digit_val d) ds" by (rule dec_val_mono)
  with Cons show ?case by (simp add: Let_def)
qed

lemma dtoi_show_nat:
  "n < 16777215 \<Longrightarrow> r = [] \<or> \<not> is_digit (hd r) \<Longrightarrow>
   dtoi 0 0 (show_nat n @ r) = Some (n, length (show_nat n))"
  using dtoi_digits [of "show_nat n" 0 r 0] by simp

lemma hd_show_nat_0: "hd (show_nat n @ r) = CHR ''0'' \<Longrightarrow> length (show_nat n) = 1"
  using show_nat_leading_zero [of n] by (simp add: hd_append)

lemma not_digit_dot [simp]: "\<not> is_digit CHR ''.''"
  by (simp add: is_digit_def)

lemma parse_octets_show:
  "r = [] \<or> hd r = CHR ''.'' \<Longrightarrow>
   parse_octets (Suc k) True (show_nat (unat (b :: byte)) @ r)
     = map_option (\<lambda>t. b # t) (parse_octets k False r)"
  "r = [] \<or> hd r = CHR ''.'' \<Longrightarrow>
   parse_octets (Suc k) False (CHR ''.'' # show_nat (unat b) @ r)
     = map_option (\<lambda>t. b # t) (parse_octets k False r)"
proof -
  assume r: "r = [] \<or> hd r = CHR ''.''"
  have lt: "unat b < 256" by simp
  then have le: "\<not> 255 < unat b" by linarith
  from r have d: "dtoi 0 0 (show_nat (unat b) @ r) = Some (unat b, length (show_nat (unat b)))"
    by (intro dtoi_show_nat) (use lt in linarith, auto)
  have z: "\<not> (length (show_nat (unat b)) > 1 \<and> hd (show_nat (unat b) @ r) = CHR ''0'')"
    using hd_show_nat_0 by fastforce
  show "parse_octets (Suc k) True (show_nat (unat b) @ r)
     = map_option (\<lambda>t. b # t) (parse_octets k False r)"
    using d z le by auto
  show "parse_octets (Suc k) False (CHR ''.'' # show_nat (unat b) @ r)
     = map_option (\<lambda>t. b # t) (parse_octets k False r)"
    using d z le by auto
qed

lemma parseIPv4_show_ipv4 [go_std]: "parseIPv4 (show_ipv4 a b c d) = Some [a, b, c, d]"
proof -
  have "parseIPv4 (show_ipv4 a b c d) = parse_octets (Suc 3) True (show_ipv4 a b c d)"
    by (simp add: parseIPv4_def eval_nat_numeral)
  also have "\<dots> = Some [a, b, c, d]"
    unfolding show_ipv4_def eval_nat_numeral
    using parse_octets_show(2) [of "[]" 0 d]
    by (simp add: parse_octets_show del: parse_octets.simps(2))
  finally show ?thesis .
qed

lemma split_show_ipv4 [go_std]:
  "split_char CHR ''.'' (show_ipv4 a b c d)
     = [show_nat (unat a), show_nat (unat b), show_nat (unat c), show_nat (unat d)]"
  by (simp add: show_ipv4_def split_char_append split_char_no_sep)

lemma ParseIP_scan_dot:
  "list_all is_digit ds \<Longrightarrow> ParseIP_scan s (ds @ CHR ''.'' # t) = (parseIPv4 s \<noteq> None)"
  by (induction ds) (auto dest: not_digit_sign)

lemma ParseIP_ok_show_ipv4 [go_std]: "ParseIP_ok (show_ipv4 a b c d)"
  using ParseIP_scan_dot [of "show_nat (unat a)" "show_ipv4 a b c d"]
  by (simp add: ParseIP_ok_def parseIPv4_show_ipv4)
     (simp add: show_ipv4_def)

end
