(* ===== verification/Configs.thy ===== *)
theory Configs
  imports Prelude
begin

text \<open>
  The constants of configs/common.go and configs/system.go that the modelled code reads.
  Durations are in milliseconds.
\<close>

section \<open>Accounts and sizes\<close>

definition CESSTokenPrecision :: nat where "CESSTokenPrecision = 1000000000000"
definition MinimumBalance :: nat where "MinimumBalance = 2 * CESSTokenPrecision"

definition SIZE_1KiB :: nat where "SIZE_1KiB = 1024"
definition SIZE_1MiB :: nat where "SIZE_1MiB = 1024 * SIZE_1KiB"
definition SIZE_1GiB :: nat where "SIZE_1GiB = 1024 * SIZE_1MiB"

section \<open>Fillers\<close>

definition FillerSize :: nat where "FillerSize = 8 * SIZE_1MiB"
definition FillerLineLength :: nat where "FillerLineLength = 4096"
definition BlockSize :: nat where "BlockSize = SIZE_1KiB * 2"
definition ScanBlockSize :: nat where "ScanBlockSize = BlockSize div 2"
definition Num_Filler_Reserved :: nat where "Num_Filler_Reserved = 5"

section \<open>Transport\<close>

definition TCP_Time_WaitNotification :: nat where "TCP_Time_WaitNotification = 6000"
definition TCP_Time_WaitMsg :: nat where "TCP_Time_WaitMsg = 10000"
definition TCP_Transmission_Slowest :: nat where "TCP_Transmission_Slowest = SIZE_1KiB * 50"
definition Tcp_Dial_Timeout :: nat where "Tcp_Dial_Timeout = 5000"
definition TCP_Message_Send_Buffers :: nat where "TCP_Message_Send_Buffers = 10"
definition TCP_Message_Read_Buffers :: nat where "TCP_Message_Read_Buffers = 10"
definition TCP_SendBuffer :: nat where "TCP_SendBuffer = 8192"
definition TCP_ReadBuffer :: nat where "TCP_ReadBuffer = 12000"
definition TCP_TagBuffer :: nat where "TCP_TagBuffer = 2012"

section \<open>Transactions and tags\<close>

definition Max_SubProofResults :: nat where "Max_SubProofResults = 40"
definition BlockInterval :: nat where "BlockInterval = 6000"
definition TimeOut_WaitTag :: nat where "TimeOut_WaitTag = 240000"

definition TagFileExt :: string where "TagFileExt = ''.tag''"
definition Localhost :: string where "Localhost = ''http://localhost''"
definition GetTagRoute :: string where "GetTagRoute = ''/process_data''"
definition GetTagRoute_Callback :: string where "GetTagRoute_Callback = ''/tag''"
definition SgxMappingPath :: string where "SgxMappingPath = ''/sgx''"
definition SigKey_E :: string where "SigKey_E = ''SigKey_E''"
definition SigKey_N :: string where "SigKey_N = ''SigKey_N''"
definition SgxCallBackPort :: nat where "SgxCallBackPort = 15001"
definition SgxReportSuc :: nat where "SgxReportSuc = 100000"

section \<open>Names\<close>

definition LogFiles :: "string list" where
  "LogFiles = [''common'', ''upfile'', ''panic'', ''verify'', ''minerCache'', ''fillerMeta'',
     ''genFiller'', ''speed'', ''space'']"

definition Name :: string where "Name = ''cess-scheduler''"
definition Description :: string where "Description = ''Implementation of Scheduling Service for Consensus Nodes''"
definition Version :: string where "Version = ''v0.5.4 230213.1138 dev''"
definition NameSpace :: string where "NameSpace = ''scheduler''"

lemmas size_defs = SIZE_1KiB_def SIZE_1MiB_def SIZE_1GiB_def FillerSize_def
  FillerLineLength_def BlockSize_def ScanBlockSize_def

lemmas transport_defs = TCP_Time_WaitNotification_def TCP_Transmission_Slowest_def
  TCP_SendBuffer_def TCP_ReadBuffer_def TCP_TagBuffer_def

lemmas route_defs = Localhost_def GetTagRoute_def GetTagRoute_Callback_def SgxMappingPath_def
  SgxCallBackPort_def

lemmas key_defs = SigKey_E_def SigKey_N_def

declare size_defs [go_code] transport_defs [go_code] key_defs [go_code]
  route_defs [go_code] Max_SubProofResults_def [go_code] TagFileExt_def [go_code]

end
