(* ===== verification/Utils.thy ===== *)
theory Utils
  imports GoStrings Configs
begin

text \<open>
  pkg/utils: shuffling, address tests, file names, random text and hashing.  Random draws
  are the argument \<open>rnd\<close> (or \<open>src\<close>): the n-th value the generator yields.
\<close>

section \<open>common.go\<close>

text \<open>\<open>rand.Intn(n)\<close> reduces its draw to the range below \<open>n\<close>.\<close>

definition Intn :: "nat \<Rightarrow> nat \<Rightarrow> nat" where
  "Intn draw n = draw mod n"

definition swap :: "nat \<Rightarrow> nat \<Rightarrow> 'a list \<Rightarrow> 'a list" where
  "swap i j xs = xs[i := xs ! j, j := xs ! i]"

fun rand_swaps :: "(nat \<Rightarrow> nat) \<Rightarrow> nat \<Rightarrow> 'a list \<Rightarrow> 'a list" where
  "rand_swaps rnd 0 xs = xs"
| "rand_swaps rnd (Suc i) xs =
     (let j = Intn (rnd i) (length xs) in rand_swaps rnd i (swap i j xs))"

definition RandSlice :: "(nat \<Rightarrow> nat) \<Rightarrow> 'a list \<Rightarrow> 'a list" where
  "RandSlice rnd xs = (if length xs < 2 then xs else rand_swaps rnd (length xs) xs)"

definition IsIPv4 :: "string \<Rightarrow> bool" where
  "IsIPv4 ipAddr = (ParseIP_ok ipAddr \<and> contains_sub ''.'' ipAddr)"

definition IsIPv6 :: "string \<Rightarrow> bool" where
  "IsIPv6 ipAddr = (ParseIP_ok ipAddr \<and> contains_sub '':'' ipAddr)"

definition GetFileNameWithoutSuffix :: "string \<Rightarrow> string" where
  "GetFileNameWithoutSuffix fpath =
     (let base = filepath_Base fpath; ext = filepath_Ext base in TrimSuffix base ext)"

text \<open>
  \<open>RecoverError\<close> on the printed panic value; \<open>stack\<close> is what \<open>debug.Stack\<close> gives, which may be nil.
\<close>

definition RecoverError :: "string option \<Rightarrow> string \<Rightarrow> go_error" where
  "RecoverError stack err =
     ''[panic]'' @ [CHR 0x0A] @ err @ [CHR 0x0A] @ (case stack of None \<Rightarrow> [] | Some st \<Rightarrow> st @ [CHR 0x0A])"

text \<open>
  An interface value is nil, or holds a value of a kind that can be nil, or one of another kind, on which
  \<open>IsNil\<close> of \<open>reflect\<close> panics.  A recovered panic leaves the result, which has no name, at false.
\<close>

datatype interface = NilInterface | Nilable bool | NotNilable

definition reflect_IsNil :: "interface \<Rightarrow> bool outcome" where
  "reflect_IsNil i = (case i of NilInterface \<Rightarrow> Panic | Nilable b \<Rightarrow> Ret b | NotNilable \<Rightarrow> Panic)"

definition InterfaceIsNIL :: "interface \<Rightarrow> bool" where
  "InterfaceIsNIL i = (let ret = (i = NilInterface) in
     if \<not> ret then (case reflect_IsNil i of Panic \<Rightarrow> False | Ret b \<Rightarrow> b) else ret)"

lemma InterfaceIsNIL_iff: "InterfaceIsNIL i \<longleftrightarrow> i = NilInterface \<or> i = Nilable True"
  by (cases i) (auto simp: InterfaceIsNIL_def reflect_IsNil_def)

text \<open>The four commands of \<open>ClearMemBuf\<close>, run by \<open>exec\<close> with their output and their errors dropped.\<close>

definition ClearMemBuf :: "(string list \<Rightarrow> 'w \<Rightarrow> 'w) \<Rightarrow> 'w \<Rightarrow> 'w" where
  "ClearMemBuf exec w =
     exec [''bash'', ''-c'', ''echo 3 > /proc/sys/vm/drop_caches'']
       (exec [''bash'', ''-c'', ''echo 2 > /proc/sys/vm/drop_caches'']
         (exec [''bash'', ''-c'', ''echo 1 > /proc/sys/vm/drop_caches'']
           (exec [''bash'', ''-c'', ''sync;sync;sync;sync;sync;sync;''] w)))"

section \<open>randomX.go\<close>

definition letterIdMask :: u64 where "letterIdMask = 2 ^ 6 - 1"
definition letterIdMax :: nat where "letterIdMax = 63 div 6"

definition baseStr :: string where
  "baseStr = ''abcdefghijklmnopqrstuvwxyzABCDEFGHIJKLMNOPQRSTUVWXYZ0123456789!@#$%^&*()[]{}+-*/_=.<>?:|,~''"

text \<open>\<open>RandomInRange\<close>: \<open>rand.Intn\<close> panics unless its argument is positive.\<close>

definition RandomInRange :: "nat \<Rightarrow> int \<Rightarrow> int \<Rightarrow> int outcome" where
  "RandomInRange draw mn mx =
     (if mx - mn \<le> 0 then Panic else Ret (int (Intn draw (nat (mx - mn))) + mn))"

definition GetRandomcode :: "(nat \<Rightarrow> nat) \<Rightarrow> u8 \<Rightarrow> string" where
  "GetRandomcode rnd len = map (\<lambda>i. baseStr ! Intn (rnd i) (length baseStr)) [0..<unat len]"

text \<open>\<open>Int63\<close> yields 63 random bits.\<close>

definition Int63 :: "(nat \<Rightarrow> u64) \<Rightarrow> nat \<Rightarrow> u64" where
  "Int63 src k = src k AND mask 63"

lemma length_baseStr [simp]: "length baseStr = 90"
  by (simp add: baseStr_def)

lemma letterId_lt: "unat (c AND letterIdMask) < 64"
proof -
  have "letterIdMask = mask 6" by (simp add: letterIdMask_def mask_eq_exp_minus_1)
  then have "unat (c AND letterIdMask) = unat (take_bit 6 c)" by (simp add: take_bit_eq_mask)
  also have "\<dots> = take_bit 6 (unat c)" by (rule unsigned_take_bit_eq)
  also have "\<dots> < 64" using take_bit_nat_less_exp [of 6 "unat c"] by simp
  finally show ?thesis .
qed

lemma letterId_in_alphabet [simp]: "unat (c AND letterIdMask) < 90"
  using letterId_lt [of c] by simp

text \<open>
  The loop of \<open>RandStr\<close>: \<open>i\<close> letters are still to be written, \<open>k\<close> words have been
  drawn.  An index outside the alphabet would be skipped; \<open>letterId_lt\<close> is why that branch
  never repeats for ever.
\<close>

function rand_letters :: "(nat \<Rightarrow> u64) \<Rightarrow> nat \<Rightarrow> nat \<Rightarrow> u64 \<Rightarrow> nat \<Rightarrow> string" where
  "rand_letters src i k cache remain =
     (if i = 0 then []
      else
        (let k' = (if remain = 0 then k + 1 else k);
             c = (if remain = 0 then Int63 src k else cache);
             rm = (if remain = 0 then letterIdMax else remain);
             idx = unat (c AND letterIdMask) in
         if idx < length baseStr
         then baseStr ! idx # rand_letters src (i - 1) k' (drop_bit 6 c) (rm - 1)
         else rand_letters src i k' (drop_bit 6 c) (rm - 1)))"
  by pat_completeness auto
termination
proof (relation "measure (\<lambda>(src, i, k, cache, remain). i)")
qed auto

declare rand_letters.simps [simp del]

definition RandStr :: "(nat \<Rightarrow> u64) \<Rightarrow> nat \<Rightarrow> string" where
  "RandStr src n = rand_letters src n 1 (Int63 src 0) letterIdMax"

text \<open>
  \<open>GetGuid\<close>: \<open>NewNode\<close> is the constructor of the snowflake library and \<open>Generate\<close> the text of the next
  number of a node.
\<close>

definition GetGuid :: "(int \<Rightarrow> go_error + 'n) \<Rightarrow> ('n \<Rightarrow> string) \<Rightarrow> nat \<Rightarrow> (go_error + string) outcome" where
  "GetGuid NewNode Generate draw =
     bind_outcome (RandomInRange draw 0 1024)
       (\<lambda>k. Ret (case NewNode k of Inl err \<Rightarrow> Inl err | Inr node \<Rightarrow> Inr (Generate node)))"

text \<open>The library takes the numbers from 0 to 1023, and \<open>GetGuid\<close> draws no other.\<close>

lemma GetGuid_returns:
  assumes "\<And>k. 0 \<le> k \<Longrightarrow> k < 1024 \<Longrightarrow> \<exists>node. NewNode k = Inr node"
  shows "\<exists>node. GetGuid NewNode Generate draw = Ret (Inr (Generate node))"
  using assms [of "int (draw mod 1024)"] by (auto simp: GetGuid_def RandomInRange_def Intn_def)

section \<open>calculate_hash.go\<close>

text \<open>The SHA-256 digest is the parameter \<open>sha256\<close>.\<close>

definition CalcFileSHA256 :: "(bytes \<Rightarrow> bytes) \<Rightarrow> bytes \<Rightarrow> string" where
  "CalcFileSHA256 sha256 contents = hex_EncodeToString (sha256 contents)"

definition CalcSHA256 :: "(bytes \<Rightarrow> bytes) \<Rightarrow> bytes \<Rightarrow> go_error + string" where
  "CalcSHA256 sha256 data =
     (if length data \<le> 0 then Inl ''data is nil'' else Inr (hex_EncodeToString (sha256 data)))"

text \<open>The file at a path, as opening and copying it go: the first error, or its bytes.\<close>

definition CalcPathSHA256 :: "(bytes \<Rightarrow> bytes) \<Rightarrow> (string \<Rightarrow> go_error + go_error + bytes) \<Rightarrow> string \<Rightarrow> go_error + string" where
  "CalcPathSHA256 sha256 files fpath =
     (case files fpath of
        Inl err \<Rightarrow> Inl err
      | Inr (Inl err) \<Rightarrow> Inl err
      | Inr (Inr contents) \<Rightarrow> Inr (CalcFileSHA256 sha256 contents))"

text \<open>On a non-empty file it gives what \<open>CalcSHA256\<close> gives on its bytes; only the empty file tells them apart.\<close>

lemma CalcPathSHA256_CalcSHA256:
  "files fpath = Inr (Inr bs) \<Longrightarrow> bs \<noteq> [] \<Longrightarrow> CalcPathSHA256 sha256 files fpath = CalcSHA256 sha256 bs"
  by (simp add: CalcPathSHA256_def CalcSHA256_def CalcFileSHA256_def)

section \<open>Lemmas\<close>

lemma length_swap [simp]: "length (swap i j xs) = length xs"
  by (simp add: swap_def)

lemma Intn_lt [simp]: "0 < n \<Longrightarrow> Intn draw n < n"
  by (simp add: Intn_def)

lemma mset_rand_swaps: "k \<le> length xs \<Longrightarrow> mset (rand_swaps rnd k xs) = mset xs"
proof (induction k arbitrary: xs)
  case 0
  then show ?case by simp
next
  case (Suc i)
  let ?j = "Intn (rnd i) (length xs)"
  have lt: "i < length xs" "?j < length xs" using Suc.prems by (auto simp: Intn_def intro!: mod_less_divisor)
  have "mset (rand_swaps rnd i (swap i ?j xs)) = mset (swap i ?j xs)"
    using Suc by simp
  also have "\<dots> = mset xs" using lt by (simp add: swap_def mset_swap)
  finally show ?case by (simp add: Let_def)
qed

lemma mset_RandSlice: "mset (RandSlice rnd xs) = mset xs"
  by (simp add: RandSlice_def mset_rand_swaps)

lemma set_RandSlice [simp]: "set (RandSlice rnd xs) = set xs"
  by (metis mset_RandSlice mset_eq_setD)

lemma length_RandSlice [simp]: "length (RandSlice rnd xs) = length xs"
  by (metis mset_RandSlice size_mset)

lemma rand_letters_props:
  "length (rand_letters src i k c r) = i \<and> set (rand_letters src i k c r) \<subseteq> set (take 64 baseStr)"
proof (induction src i k c r rule: rand_letters.induct)
  case (1 src i k c r)
  show ?case
  proof (cases "i = 0")
    case True
    then show ?thesis by (simp add: rand_letters.simps)
  next
    case False
    have idx: "unat (w AND letterIdMask) < length baseStr" for w
      using letterId_lt [of w] by simp
    have mem: "baseStr ! unat (w AND letterIdMask) \<in> set (take 64 baseStr)" for w
      unfolding in_set_conv_nth
      by (rule exI [of _ "unat (w AND letterIdMask)"]) (use letterId_lt [of w] in simp)
    show ?thesis
      using "1.IH"(1) [OF False refl refl refl refl idx] False idx mem
      by (subst (1 2) rand_letters.simps) (simp add: Let_def)
  qed
qed

lemma length_RandStr [simp]: "length (RandStr src n) = n"
  by (simp add: RandStr_def rand_letters_props)

lemma newline_notin_alphabet: "CHR 0x0A \<notin> set baseStr"
  unfolding baseStr_def by code_simp

lemma newline_notin_RandStr [simp]: "CHR 0x0A \<notin> set (RandStr src n)"
proof -
  have "set (RandStr src n) \<subseteq> set (take 64 baseStr)"
    unfolding RandStr_def using rand_letters_props by blast
  also have "\<dots> \<subseteq> set baseStr" by (rule set_take_subset)
  finally show ?thesis using newline_notin_alphabet by blast
qed

lemma IsIPv4_show_ipv4 [simp]: "IsIPv4 (show_ipv4 a b c d)"
proof -
  have "CHR ''.'' \<in> set (show_ipv4 a b c d)" by (simp add: show_ipv4_def)
  then show ?thesis unfolding IsIPv4_def contains_sub_single
    using ParseIP_ok_show_ipv4 by blast
qed

lemma GetFileNameWithoutSuffix_ext:
  assumes "CHR ''/'' \<notin> set n" "CHR ''.'' \<notin> set e" "CHR ''/'' \<notin> set e"
  shows "GetFileNameWithoutSuffix (d @ CHR ''/'' # n @ CHR ''.'' # e) = n"
proof -
  have base: "filepath_Base (d @ CHR ''/'' # n @ CHR ''.'' # e) = n @ CHR ''.'' # e"
    using assms filepath_Base_name(2) [of "n @ CHR ''.'' # e" d] by simp
  have "takeWhile (\<lambda>c. c \<noteq> CHR ''.'' \<and> c \<noteq> CHR ''/'') (rev e @ CHR ''.'' # rev n) = rev e"
    using assms by (subst takeWhile_append2) auto
  then have "filepath_Ext (n @ CHR ''.'' # e) = CHR ''.'' # e"
    by (simp add: filepath_Ext_def Let_def)
  with base show ?thesis by (simp add: GetFileNameWithoutSuffix_def Let_def)
qed

section \<open>Properties\<close>

text \<open>
  Shuffling the miners neither loses nor repeats one: whatever the random source draws,
  the result of \<open>RandSlice\<close> has the same elements with the same multiplicity.
\<close>

theorem shuffle_permutes: "mset (RandSlice rnd xs) = mset xs"
  by (rule mset_RandSlice)

end
