(* ===== verification/Cache.thy ===== *)
theory Cache
  imports GoBytes Configs
begin

text \<open>
  The key-value cache (pkg/db).  \<open>'c Cacher\<close> is the interface of cache.go as a record of
  its methods over a state \<open>'c\<close>; \<open>LevelDB\<close> is the struct of leveldb.go over the
  third-party store, which is the parameter \<open>'s goleveldb\<close>.  The locale \<open>cacher\<close> states
  what the interface promises, and the wrapper provides it for every store that behaves as
  goleveldb documents.
\<close>

section \<open>The interface\<close>

record 'c Cacher =
  cHas :: "'c \<Rightarrow> bytes \<Rightarrow> go_error + bool"
  cGet :: "'c \<Rightarrow> bytes \<Rightarrow> go_error + bytes"
  cPut :: "'c \<Rightarrow> bytes \<Rightarrow> bytes \<Rightarrow> 'c \<times> go_error option"
  cDelete :: "'c \<Rightarrow> bytes \<Rightarrow> 'c \<times> go_error option"
  cClose :: "'c \<Rightarrow> 'c \<times> go_error option"

definition not_found :: go_error where "not_found = ''leveldb: not found''"

text \<open>
  Sequences of operations on a cache and their specification: a map on which every operation that
  reports success has its usual effect, and one that reports an error may leave anything under its
  own key and changes nothing else.
\<close>

datatype cache_op = Has_op bytes | Get_op bytes | Put_op bytes bytes | Delete_op bytes

datatype cache_result = Has_res "go_error + bool" | Get_res "go_error + bytes" | Write_res "go_error option"

fun do_op :: "'c Cacher \<Rightarrow> cache_op \<Rightarrow> 'c \<Rightarrow> cache_result \<times> 'c" where
  "do_op C (Has_op k) c = (Has_res (cHas C c k), c)"
| "do_op C (Get_op k) c = (Get_res (cGet C c k), c)"
| "do_op C (Put_op k v) c = (case cPut C c k v of (c', r) \<Rightarrow> (Write_res r, c'))"
| "do_op C (Delete_op k) c = (case cDelete C c k of (c', r) \<Rightarrow> (Write_res r, c'))"

fun do_ops :: "'c Cacher \<Rightarrow> cache_op list \<Rightarrow> 'c \<Rightarrow> cache_result list \<times> 'c" where
  "do_ops C [] c = ([], c)"
| "do_ops C (x # xs) c = (case do_op C x c of (r, c1) \<Rightarrow> (case do_ops C xs c1 of (rs, c2) \<Rightarrow> (r # rs, c2)))"

inductive map_step ::
    "(bytes \<Rightarrow> bytes option) \<Rightarrow> cache_op \<Rightarrow> cache_result \<Rightarrow> (bytes \<Rightarrow> bytes option) \<Rightarrow> bool" where
  has: "map_step m (Has_op k) (Has_res (Inr (m k \<noteq> None))) m"
| get: "map_step m (Get_op k) (Get_res (case m k of None \<Rightarrow> Inl not_found | Some v \<Rightarrow> Inr v)) m"
| put: "map_step m (Put_op k v) (Write_res None) (m(k \<mapsto> v))"
| put_error: "map_step m (Put_op k v) (Write_res (Some e)) (m(k := x))"
| delete: "map_step m (Delete_op k) (Write_res None) (m(k := None))"
| delete_error: "map_step m (Delete_op k) (Write_res (Some e)) (m(k := x))"

inductive map_run ::
    "(bytes \<Rightarrow> bytes option) \<Rightarrow> cache_op list \<Rightarrow> cache_result list \<Rightarrow> (bytes \<Rightarrow> bytes option) \<Rightarrow> bool" where
  finish: "map_run m [] [] m"
| step: "map_step m x r m' \<Longrightarrow> map_run m' xs rs m'' \<Longrightarrow> map_run m (x # xs) (r # rs) m''"

inductive_cases map_step_getE: "map_step m (Get_op k) r m'"
inductive_cases map_run_ConsE: "map_run m (x # xs) rs m''"

lemma map_run_put_get:
  "map_run m [Put_op k v, Get_op k] [Write_res None, r] m' \<Longrightarrow> r = Get_res (Inr v)"
  by (auto elim!: map_run_ConsE map_step_getE elim: map_step.cases)

locale cacher =
  fixes C :: "'c Cacher"
    and contents :: "'c \<Rightarrow> bytes \<Rightarrow> bytes option"
    and is_open :: "'c \<Rightarrow> bool"
  assumes has_contents: "is_open c \<Longrightarrow> cHas C c k = Inr (contents c k \<noteq> None)"
    and get_contents: "is_open c \<Longrightarrow>
      cGet C c k = (case contents c k of None \<Rightarrow> Inl not_found | Some v \<Rightarrow> Inr v)"
    and put_success: "is_open c \<Longrightarrow> cPut C c k v = (c', None) \<Longrightarrow> contents c' = (contents c)(k \<mapsto> v)"
    and put_frame: "is_open c \<Longrightarrow> cPut C c k v = (c', r) \<Longrightarrow> k' \<noteq> k \<Longrightarrow> contents c' k' = contents c k'"
    and put_open: "is_open c \<Longrightarrow> cPut C c k v = (c', r) \<Longrightarrow> is_open c'"
    and delete_success: "is_open c \<Longrightarrow> cDelete C c k = (c', None) \<Longrightarrow> contents c' = (contents c)(k := None)"
    and delete_frame: "is_open c \<Longrightarrow> cDelete C c k = (c', r) \<Longrightarrow> k' \<noteq> k \<Longrightarrow> contents c' k' = contents c k'"
    and delete_open: "is_open c \<Longrightarrow> cDelete C c k = (c', r) \<Longrightarrow> is_open c'"
begin

lemma get_after_put:
  "is_open c \<Longrightarrow> cPut C c k v = (c', None) \<Longrightarrow> cGet C c' k = Inr v"
  by (frule (1) put_success, frule (1) put_open) (simp add: get_contents)

lemma get_after_put_other:
  "is_open c \<Longrightarrow> cPut C c k v = (c', r) \<Longrightarrow> k' \<noteq> k \<Longrightarrow> cGet C c' k' = cGet C c k'"
  by (frule (1) put_open, frule (2) put_frame) (simp add: get_contents)

lemma has_after_delete:
  "is_open c \<Longrightarrow> cDelete C c k = (c', None) \<Longrightarrow> cHas C c' k = Inr False"
  by (frule (1) delete_success, frule (1) delete_open) (simp add: has_contents)

lemma get_Inr_iff: "is_open c \<Longrightarrow> cGet C c k = Inr v \<longleftrightarrow> contents c k = Some v"
  by (auto simp: get_contents split: option.splits)

text \<open>The simulation: an operation of an open cache is a step of the map of its contents.\<close>

lemma update_frame: "(\<And>k'. k' \<noteq> k \<Longrightarrow> g k' = f k') \<Longrightarrow> g = f(k := g k)"
  by (rule ext) simp

lemma do_op_refines:
  assumes "is_open c" "do_op C x c = (r, c')"
  shows "map_step (contents c) x r (contents c') \<and> is_open c'"
proof (cases x)
  case (Put_op k v)
  then obtain w where w: "cPut C c k v = (c', w)" "r = Write_res w" using assms(2) by (auto split: prod.splits)
  have "contents c' = (contents c)(k := contents c' k)" using put_frame [OF assms(1) w(1)] by (rule update_frame)
  then have "map_step (contents c) x r (contents c')"
    using put_success [OF assms(1)] w Put_op map_step.put map_step.put_error by (cases w) metis+
  then show ?thesis using put_open [OF assms(1) w(1)] by simp
next
  case (Delete_op k)
  then obtain w where w: "cDelete C c k = (c', w)" "r = Write_res w" using assms(2) by (auto split: prod.splits)
  have "contents c' = (contents c)(k := contents c' k)" using delete_frame [OF assms(1) w(1)] by (rule update_frame)
  then have "map_step (contents c) x r (contents c')"
    using delete_success [OF assms(1)] w Delete_op map_step.delete map_step.delete_error by (cases w) metis+
  then show ?thesis using delete_open [OF assms(1) w(1)] by simp
qed (use assms has_contents get_contents map_step.has map_step.get in auto)

lemma do_ops_refine:
  "is_open c \<Longrightarrow> do_ops C xs c = (rs, c') \<Longrightarrow> map_run (contents c) xs rs (contents c') \<and> is_open c'"
proof (induction xs arbitrary: c rs)
  case (Cons x xs)
  obtain r c1 rs1 where "do_op C x c = (r, c1)" "do_ops C xs c1 = (rs1, c')" "rs = r # rs1"
    using Cons.prems(2) by (auto split: prod.splits)
  then show ?case using do_op_refines [OF Cons.prems(1)] Cons.IH map_run.step by blast
qed (auto intro: map_run.finish)

lemma get_after_two_puts:
  "is_open c \<Longrightarrow> cPut C c k v = (c1, None) \<Longrightarrow> cPut C c1 k' v' = (c2, None) \<Longrightarrow> k \<noteq> k' \<Longrightarrow>
   cGet C c2 k = Inr v \<and> cGet C c2 k' = Inr v'"
  by (metis get_after_put get_after_put_other put_open)

end

section \<open>The LevelDB wrapper\<close>

record 's goleveldb =
  ldb_has :: "'s \<Rightarrow> bytes \<Rightarrow> go_error + bool"
  ldb_get :: "'s \<Rightarrow> bytes \<Rightarrow> go_error + bytes"
  ldb_put :: "'s \<Rightarrow> bytes \<Rightarrow> bytes \<Rightarrow> 's \<times> go_error option"
  ldb_delete :: "'s \<Rightarrow> bytes \<Rightarrow> 's \<times> go_error option"
  ldb_close :: "'s \<Rightarrow> 's \<times> go_error option"

record 's LevelDB =
  fn :: string
  db :: 's

definition LevelDB_Has :: "'s goleveldb \<Rightarrow> 's LevelDB \<Rightarrow> bytes \<Rightarrow> go_error + bool" where
  "LevelDB_Has L d key = ldb_has L (db d) key"

definition LevelDB_Get :: "'s goleveldb \<Rightarrow> 's LevelDB \<Rightarrow> bytes \<Rightarrow> go_error + bytes" where
  "LevelDB_Get L d key = (case ldb_get L (db d) key of Inl err \<Rightarrow> Inl err | Inr dat \<Rightarrow> Inr dat)"

definition LevelDB_Put :: "'s goleveldb \<Rightarrow> 's LevelDB \<Rightarrow> bytes \<Rightarrow> bytes \<Rightarrow> 's LevelDB \<times> go_error option" where
  "LevelDB_Put L d key value = (case ldb_put L (db d) key value of (s, err) \<Rightarrow> (d\<lparr>db := s\<rparr>, err))"

definition LevelDB_Delete :: "'s goleveldb \<Rightarrow> 's LevelDB \<Rightarrow> bytes \<Rightarrow> 's LevelDB \<times> go_error option" where
  "LevelDB_Delete L d key = (case ldb_delete L (db d) key of (s, err) \<Rightarrow> (d\<lparr>db := s\<rparr>, err))"

definition LevelDB_Close :: "'s goleveldb \<Rightarrow> 's LevelDB \<Rightarrow> 's LevelDB \<times> go_error option" where
  "LevelDB_Close L d = (case ldb_close L (db d) of (s, err) \<Rightarrow> (d\<lparr>db := s\<rparr>, err))"

definition LevelDB_cacher :: "'s goleveldb \<Rightarrow> 's LevelDB Cacher" where
  "LevelDB_cacher L = \<lparr>cHas = LevelDB_Has L, cGet = LevelDB_Get L, cPut = LevelDB_Put L,
     cDelete = LevelDB_Delete L, cClose = LevelDB_Close L\<rparr>"

lemmas LevelDB_defs = LevelDB_cacher_def LevelDB_Has_def LevelDB_Get_def LevelDB_Put_def
  LevelDB_Delete_def LevelDB_Close_def

declare LevelDB_defs [go_code] not_found_def [go_code]

subsection \<open>Opening\<close>

definition minCache :: int where "minCache = 16"
definition minHandles :: int where "minHandles = 32"
definition MiB :: int where "MiB = 1024 * 1024"

record ldb_options =
  OpenFilesCacheCapacity :: int
  BlockCacheCapacity :: int
  WriteBuffer :: int

definition configureOptions :: "int \<Rightarrow> int \<Rightarrow> ldb_options" where
  "configureOptions cache handles =
     (let cache' = (if cache < minCache then minCache else cache);
          handles' = (if handles < minHandles then minHandles else handles) in
      \<lparr>OpenFilesCacheCapacity = handles', BlockCacheCapacity = cache' div 2 * MiB,
       WriteBuffer = cache' div 4 * MiB\<rparr>)"

datatype 's open_result = Opened 's | Corrupted | OpenFailed go_error

text \<open>
  \<open>openf\<close> is \<open>leveldb.OpenFile\<close>, \<open>recoverf\<close> is \<open>leveldb.RecoverFile\<close> with nil
  options; \<open>statErr\<close> and \<open>mkdirErr\<close> are what \<open>os.Stat\<close> and \<open>os.MkdirAll\<close> report.
\<close>

definition newLevelDB ::
  "(string \<Rightarrow> ldb_options \<Rightarrow> 's open_result) \<Rightarrow> (string \<Rightarrow> go_error + 's)
   \<Rightarrow> string \<Rightarrow> int \<Rightarrow> int \<Rightarrow> go_error + 's LevelDB" where
  "newLevelDB openf recoverf file memory handles =
     (let options = configureOptions memory handles in
      case openf file options of
        Opened s \<Rightarrow> Inr \<lparr>fn = file, db = s\<rparr>
      | Corrupted \<Rightarrow>
          (case recoverf file of Inl err \<Rightarrow> Inl err | Inr s \<Rightarrow> Inr \<lparr>fn = file, db = s\<rparr>)
      | OpenFailed err \<Rightarrow> Inl err)"

definition NewCache ::
  "(string \<Rightarrow> ldb_options \<Rightarrow> 's open_result) \<Rightarrow> (string \<Rightarrow> go_error + 's)
   \<Rightarrow> (string \<Rightarrow> go_error option) \<Rightarrow> (string \<Rightarrow> go_error option)
   \<Rightarrow> string \<Rightarrow> int \<Rightarrow> int \<Rightarrow> go_error + 's LevelDB" where
  "NewCache openf recoverf statErr mkdirErr fpath memory handles =
     (case statErr fpath of
        Some _ \<Rightarrow>
          (case mkdirErr fpath of
             Some err \<Rightarrow> Inl err
           | None \<Rightarrow> newLevelDB openf recoverf fpath memory handles)
      | None \<Rightarrow> newLevelDB openf recoverf fpath memory handles)"

section \<open>The wrapper provides the interface\<close>

text \<open>What goleveldb documents, for an abstraction of its state to a map.\<close>

locale leveldb_store =
  fixes L :: "'s goleveldb"
    and st_contents :: "'s \<Rightarrow> bytes \<Rightarrow> bytes option"
    and st_open :: "'s \<Rightarrow> bool"
  assumes ldb_has: "st_open s \<Longrightarrow> ldb_has L s k = Inr (st_contents s k \<noteq> None)"
    and ldb_get: "st_open s \<Longrightarrow>
      ldb_get L s k = (case st_contents s k of None \<Rightarrow> Inl not_found | Some v \<Rightarrow> Inr v)"
    and ldb_put: "st_open s \<Longrightarrow> ldb_put L s k v = (s', r) \<Longrightarrow>
      st_open s' \<and> (r = None \<longrightarrow> st_contents s' = (st_contents s)(k \<mapsto> v))
      \<and> (\<forall>k'. k' \<noteq> k \<longrightarrow> st_contents s' k' = st_contents s k')"
    and ldb_delete: "st_open s \<Longrightarrow> ldb_delete L s k = (s', r) \<Longrightarrow>
      st_open s' \<and> (r = None \<longrightarrow> st_contents s' = (st_contents s)(k := None))
      \<and> (\<forall>k'. k' \<noteq> k \<longrightarrow> st_contents s' k' = st_contents s k')"

sublocale leveldb_store \<subseteq>
  ldb: cacher "LevelDB_cacher L" "\<lambda>d. st_contents (db d)" "\<lambda>d. st_open (db d)"
proof unfold_locales
  fix c :: "'s LevelDB" and k v c' r k'
  assume o: "st_open (db c)"
  show "cHas (LevelDB_cacher L) c k = Inr (st_contents (db c) k \<noteq> None)"
    using ldb_has [OF o] by (simp add: LevelDB_defs)
  show "cGet (LevelDB_cacher L) c k
      = (case st_contents (db c) k of None \<Rightarrow> Inl not_found | Some v \<Rightarrow> Inr v)"
    using ldb_get [OF o, of k] by (simp add: LevelDB_defs split: option.splits)
  show "st_contents (db c') = (st_contents (db c))(k \<mapsto> v)"
    if "cPut (LevelDB_cacher L) c k v = (c', None)"
    using that ldb_put [OF o, of k v] by (auto simp: LevelDB_defs split: prod.splits)
  show "st_contents (db c') k' = st_contents (db c) k'"
    if "cPut (LevelDB_cacher L) c k v = (c', r)" "k' \<noteq> k"
    using that ldb_put [OF o, of k v] by (auto simp: LevelDB_defs split: prod.splits)
  show "st_open (db c')" if "cPut (LevelDB_cacher L) c k v = (c', r)"
    using that ldb_put [OF o, of k v] by (auto simp: LevelDB_defs split: prod.splits)
  show "st_contents (db c') = (st_contents (db c))(k := None)"
    if "cDelete (LevelDB_cacher L) c k = (c', None)"
    using that ldb_delete [OF o, of k] by (auto simp: LevelDB_defs split: prod.splits)
  show "st_contents (db c') k' = st_contents (db c) k'"
    if "cDelete (LevelDB_cacher L) c k = (c', r)" "k' \<noteq> k"
    using that ldb_delete [OF o, of k] by (auto simp: LevelDB_defs split: prod.splits)
  show "st_open (db c')" if "cDelete (LevelDB_cacher L) c k = (c', r)"
    using that ldb_delete [OF o, of k] by (auto simp: LevelDB_defs split: prod.splits)
qed

context leveldb_store
begin

lemma wrapper_is_cacher:
  "cacher (LevelDB_cacher L) (\<lambda>d. st_contents (db d)) (\<lambda>d. st_open (db d))"
  by (rule ldb.cacher_axioms)

end

text \<open>
  A concrete store, for evaluation and for the witnesses: an association list and a flag that
  \<open>Close\<close> clears.
\<close>

definition mem_leveldb :: "((bytes \<times> bytes) list \<times> bool) goleveldb" where
  "mem_leveldb =
     \<lparr>ldb_has = (\<lambda>(m, op) k. if op then Inr (map_of m k \<noteq> None) else Inl ''leveldb: closed''),
      ldb_get = (\<lambda>(m, op) k. if op then
          (case map_of m k of None \<Rightarrow> Inl not_found | Some v \<Rightarrow> Inr v) else Inl ''leveldb: closed''),
      ldb_put = (\<lambda>(m, op) k v. if op then (((k, v) # m, op), None) else ((m, op), Some ''leveldb: closed'')),
      ldb_delete = (\<lambda>(m, op) k. if op then ((filter (\<lambda>p. fst p \<noteq> k) m, op), None)
          else ((m, op), Some ''leveldb: closed'')),
      ldb_close = (\<lambda>(m, op). if op then ((m, False), None) else ((m, op), Some ''leveldb: closed''))\<rparr>"

declare mem_leveldb_def [go_code]

lemma map_of_filter_neq: "map_of (filter (\<lambda>p. fst p \<noteq> k) m) = (map_of m)(k := None)"
  by (induction m) auto

interpretation mem: leveldb_store mem_leveldb "\<lambda>s. map_of (fst s)" snd
  by unfold_locales
     (auto simp: mem_leveldb_def map_of_filter_neq split: option.splits)

abbreviation mem_cache :: "((bytes \<times> bytes) list \<times> bool) LevelDB Cacher" where
  "mem_cache \<equiv> LevelDB_cacher mem_leveldb"

definition mem_db :: "(bytes \<times> bytes) list \<Rightarrow> ((bytes \<times> bytes) list \<times> bool) LevelDB" where
  "mem_db m = \<lparr>fn = [], db = (m, True)\<rparr>"

lemma mem_db_open [simp]: "snd (db (mem_db m))"
  by (simp add: mem_db_def)

section \<open>Properties\<close>

text \<open>
  Over any store that behaves as goleveldb documents, a value put under a key is what the
  wrapper then gets for it, a deleted key is no longer there, and neither operation changes what is
  got for another key, whether it succeeds or fails.
\<close>

theorem cache_reads_its_writes:
  assumes "leveldb_store L st_contents st_open" and "st_open (db d)"
  shows "(\<forall>d'. LevelDB_Put L d k v = (d', None) \<longrightarrow> LevelDB_Get L d' k = Inr v)
    \<and> (\<forall>d'. LevelDB_Delete L d k = (d', None) \<longrightarrow> LevelDB_Has L d' k = Inr False)
    \<and> (k' \<noteq> k \<longrightarrow> LevelDB_Get L (fst (LevelDB_Put L d k v)) k' = LevelDB_Get L d k')"
proof -
  note c = leveldb_store.wrapper_is_cacher [OF assms(1)]
  have sel: "cGet (LevelDB_cacher L) = LevelDB_Get L" "cHas (LevelDB_cacher L) = LevelDB_Has L"
    "cPut (LevelDB_cacher L) = LevelDB_Put L" "cDelete (LevelDB_cacher L) = LevelDB_Delete L"
    by (simp_all add: LevelDB_cacher_def)
  note laws = cacher.get_after_put [OF c, of d k v, unfolded sel, OF assms(2)]
    cacher.has_after_delete [OF c, of d k, unfolded sel, OF assms(2)]
    cacher.get_after_put_other [OF c, of d k v _ _ k', unfolded sel, OF assms(2)]
  obtain d1 r1 where "LevelDB_Put L d k v = (d1, r1)" by fastforce
  with laws show ?thesis by auto
qed

theorem cache_reads_its_writes_witness:
  "LevelDB_Get mem_leveldb (fst (LevelDB_Put mem_leveldb (mem_db []) [1] [2])) [1] = Inr [2]"
  using cache_reads_its_writes [OF mem.leveldb_store_axioms, of "mem_db []" "[1]" "[2]"]
  by (simp add: mem_db_def LevelDB_Put_def mem_leveldb_def)



end
