(* ===== verification/Steps.thy ===== *)
theory Steps
  imports Main "HOL-Library.Multiset"
begin

text \<open>
  Runs of a step relation, and the contracts the transition systems of the program interpret: the
  work lock, the task manager, the channel of tags and the goroutines of a connection and of a proof.
\<close>

section \<open>Runs\<close>

inductive runs :: "('s \<Rightarrow> 'e \<Rightarrow> 's \<Rightarrow> bool) \<Rightarrow> 's \<Rightarrow> 'e list \<Rightarrow> 's \<Rightarrow> bool" for step where
  runs_none: "runs step s [] s"
| runs_more: "step s e s1 \<Longrightarrow> runs step s1 es s2 \<Longrightarrow> runs step s (e # es) s2"

inductive_simps runs_Nil [simp]: "runs step s [] s'"
inductive_simps runs_Cons: "runs step s (e # es) s'"

lemma runs_one: "step s e s' \<Longrightarrow> runs step s [e] s'"
  by (simp add: runs_Cons)

lemma runs_append: "runs step s (es @ fs) s' \<longleftrightarrow> (\<exists>s1. runs step s es s1 \<and> runs step s1 fs s')"
  by (induction es arbitrary: s) (auto simp: runs_Cons)

lemma runs_snoc: "runs step s es s1 \<Longrightarrow> step s1 e s2 \<Longrightarrow> runs step s (es @ [e]) s2"
  by (auto simp: runs_append runs_Cons)

text \<open>The relation without its labels; its closure is the runs.\<close>

definition some_step :: "('s \<Rightarrow> 'e \<Rightarrow> 's \<Rightarrow> bool) \<Rightarrow> 's \<Rightarrow> 's \<Rightarrow> bool" where
  "some_step step s s' = (\<exists>e. step s e s')"

lemma runs_imp_star: "runs step s es s' \<Longrightarrow> (some_step step)\<^sup>*\<^sup>* s s'"
  by (induction rule: runs.induct) (auto simp: some_step_def intro: converse_rtranclp_into_rtranclp)

lemma star_imp_runs: "(some_step step)\<^sup>*\<^sup>* s s' \<Longrightarrow> \<exists>es. runs step s es s'"
  by (induction rule: rtranclp_induct) (auto simp: some_step_def intro: runs_snoc exI [of _ "[]"])

section \<open>Contracts of a transition system\<close>

text \<open>A set of states that no step leaves.\<close>

locale stable =
  fixes R :: "'s \<Rightarrow> 's \<Rightarrow> bool" and I :: "'s \<Rightarrow> bool"
  assumes stays: "R s s' \<Longrightarrow> I s \<Longrightarrow> I s'"
begin

lemma star_stays: "R\<^sup>*\<^sup>* s s' \<Longrightarrow> I s \<Longrightarrow> I s'"
  by (induction rule: rtranclp_induct) (auto intro: stays)

end

text \<open>The same with labelled steps, whose labels satisfy \<open>allowed\<close> as long as the states do.\<close>

locale labelled_stable =
  fixes step :: "'s \<Rightarrow> 'e \<Rightarrow> 's \<Rightarrow> bool" and I :: "'s \<Rightarrow> bool" and allowed :: "'e \<Rightarrow> bool"
  assumes step_stays: "step s e s' \<Longrightarrow> I s \<Longrightarrow> I s'"
    and step_allowed: "step s e s' \<Longrightarrow> I s \<Longrightarrow> allowed e"

sublocale labelled_stable \<subseteq> states: stable "some_step step" I
  by unfold_locales (auto simp: some_step_def intro: step_stays)

context labelled_stable begin

lemma runs_stay: "runs step s es s' \<Longrightarrow> I s \<Longrightarrow> I s'"
  by (rule states.star_stays [OF runs_imp_star])

lemma runs_allowed: "runs step s es s' \<Longrightarrow> I s \<Longrightarrow> e \<in> set es \<Longrightarrow> allowed e"
  by (induction rule: runs.induct) (auto dest: step_allowed step_stays)

end

text \<open>
  A system whose steps are runs of another, of which it is a refinement or in which it is one part: then
  its runs are runs of the other, and what holds of those holds of it.
\<close>

locale simulation =
  fixes step :: "'s \<Rightarrow> 'e \<Rightarrow> 's \<Rightarrow> bool" and step' :: "'t \<Rightarrow> 'f \<Rightarrow> 't \<Rightarrow> bool"
    and view :: "'s \<Rightarrow> 't" and events :: "'e \<Rightarrow> 'f list"
  assumes step_simulates: "step s e s' \<Longrightarrow> runs step' (view s) (events e) (view s')"
begin

lemma runs_simulate: "runs step s es s' \<Longrightarrow> runs step' (view s) (concat (map events es)) (view s')"
  by (induction rule: runs.induct) (auto simp: runs_append intro: step_simulates)

end

text \<open>
  A system that moves items: what a step gives out and what is held after it was put in by the step
  or held before.  Then the same is true of a run.
\<close>

locale conserving =
  fixes step :: "'s \<Rightarrow> 'e \<Rightarrow> 's \<Rightarrow> bool" and held :: "'s \<Rightarrow> 'm multiset"
    and put_in :: "'e list \<Rightarrow> 'm list" and given_out :: "'e list \<Rightarrow> 'm list"
  assumes step_conserves:
      "step s e s' \<Longrightarrow> mset (given_out [e]) + held s' \<subseteq># mset (put_in [e]) + held s"
    and put_in_append: "put_in (es @ fs) = put_in es @ put_in fs"
    and given_out_append: "given_out (es @ fs) = given_out es @ given_out fs"
begin

lemma put_in_Cons: "mset (put_in (e # es)) = mset (put_in [e]) + mset (put_in es)"
  using put_in_append [of "[e]" es] by (simp only: append_Cons append_Nil mset_append)

lemma given_out_Cons: "mset (given_out (e # es)) = mset (given_out [e]) + mset (given_out es)"
  using given_out_append [of "[e]" es] by (simp only: append_Cons append_Nil mset_append)

lemma nothing_put_in: "put_in [] = []"
  using put_in_append [of "[]" "[]"] by (simp only: append_Nil self_append_conv)

lemma nothing_given_out: "given_out [] = []"
  using given_out_append [of "[]" "[]"] by (simp only: append_Nil self_append_conv)

lemma runs_conserve:
  "runs step s es s' \<Longrightarrow> mset (given_out es) + held s' \<subseteq># mset (put_in es) + held s"
proof (induction rule: runs.induct)
  case (runs_none s)
  then show ?case by (simp add: nothing_put_in nothing_given_out)
next
  case (runs_more s e s1 es s2)
  have "mset (given_out (e # es)) + held s2 = mset (given_out [e]) + (mset (given_out es) + held s2)"
    by (simp only: given_out_Cons [of e es] ac_simps)
  also have "\<dots> \<subseteq># mset (given_out [e]) + (mset (put_in es) + held s1)"
    using runs_more.IH by simp
  also have "\<dots> = (mset (given_out [e]) + held s1) + mset (put_in es)" by (simp add: ac_simps)
  also have "\<dots> \<subseteq># (mset (put_in [e]) + held s) + mset (put_in es)"
    using step_conserves [OF runs_more.hyps(1)] by simp
  also have "\<dots> = mset (put_in (e # es)) + held s" by (simp only: put_in_Cons [of e es] ac_simps)
  finally show ?case .
qed

lemma every_item_was_put_in: "runs step s es s' \<Longrightarrow> held s = {#} \<Longrightarrow> x \<in> set (given_out es) \<Longrightarrow> x \<in> set (put_in es)"
  using runs_conserve [of s es s'] by (metis add.right_neutral mset_subset_eqD set_mset_mset union_iff)

end

end
