(* ===== verification/Podr2.thy ===== *)
theory Podr2
  imports Cache GoStrings Steps
begin

text \<open>
  Proofs of data possession (pkg/proof): the verification key and its cache, the challenge
  taken from the chain, the RSA check of a miner's proof with its concurrent products, and
  the splitting of a file into blocks.
\<close>

section \<open>The verification key (keyGen.go)\<close>

text \<open>The global \<open>key\<close>: the modulus is a pointer (\<open>None\<close> is nil), the exponent an int.\<close>

record RSAKeyPair =
  spk_N :: "int option"
  spk_E :: int

definition init_key :: RSAKeyPair where
  "init_key = \<lparr>spk_N = None, spk_E = 0\<rparr>"

definition key_unset :: "RSAKeyPair \<Rightarrow> bool" where
  "key_unset key = (spk_N key = None \<or> spk_E key = 0)"

text \<open>
  \<open>KeyGen\<close> over the RSA library: the modulus and the exponent of a new key of the size asked for.  The
  private half, which no other code reads, is left out.
\<close>

definition KeyGen :: "(nat \<Rightarrow> go_error + int \<times> int) \<Rightarrow> RSAKeyPair outcome" where
  "KeyGen rsa_GenerateKey =
     (case rsa_GenerateKey 1024 of
        Inl err \<Rightarrow> Panic
      | Inr (n, e) \<Rightarrow> Ret \<lparr>spk_N = Some n, spk_E = e\<rparr>)"

text \<open>A nil cache is \<open>None\<close>.  The result is the new value of the global and the error.\<close>

definition SetKey :: "'c Cacher \<Rightarrow> 'c option \<Rightarrow> RSAKeyPair \<Rightarrow> RSAKeyPair \<times> go_error option" where
  "SetKey C cace key =
     (case cace of None \<Rightarrow> (key, Some ''cace is nil'')
      | Some c \<Rightarrow>
        if key_unset key then
          (case cGet C c (bytes_of_string SigKey_E) of
             Inl err \<Rightarrow> (key, Some err)
           | Inr val \<Rightarrow>
               (case SetString10 (string_of_bytes val) of
                  None \<Rightarrow> (key, Some ''Set string to E'')
                | Some E_bigint \<Rightarrow>
                    (case cGet C c (bytes_of_string SigKey_N) of
                       Inl err \<Rightarrow> (key, Some err)
                     | Inr val2 \<Rightarrow>
                         (case SetString10 (string_of_bytes val2) of
                            None \<Rightarrow> (key\<lparr>spk_N := None\<rparr>, Some ''Set string to N'')
                          | Some n \<Rightarrow> (key\<lparr>spk_N := Some n, spk_E := big_Int64 E_bigint\<rparr>, None)))))
        else (key, None))"

definition GetKey :: "'c Cacher \<Rightarrow> 'c option \<Rightarrow> RSAKeyPair \<Rightarrow> RSAKeyPair \<times> go_error option" where
  "GetKey C d key = (if key_unset key then SetKey C d key else (key, None))"

section \<open>Challenges (chalGen.go)\<close>

record QElement =
  q_I :: int
  q_V :: bytes

text \<open>\<open>blockindex[j] >= 0\<close> compares an unsigned 32-bit value, and is kept as it is written.\<close>

definition PoDR2ChallengeGenerateFromChain ::
  "u32 list \<Rightarrow> bytes list \<Rightarrow> go_error + QElement list" where
  "PoDR2ChallengeGenerateFromChain blockindex blockrandom =
     (if length blockindex \<noteq> length blockrandom
      then Inl ''The number of blocks and the number of random numbers are not equal''
      else Inr (map (\<lambda>j. \<lparr>q_I = (if blockindex ! j \<ge> 0 then int (unat (blockindex ! j)) - 1 else 0),
                          q_V = blockrandom ! j\<rparr>) [0..<length blockindex]))"

section \<open>Verification (verifyProof.go)\<close>

text \<open>
  The outcome of a verification.  A panic in one of the goroutines is not under the caller's
  \<open>recover\<close>: it ends the process.  A panic after \<open>wg.Wait()\<close> is the caller's.
\<close>

datatype verdict = Verdict bool | MainPanic | ProcessCrash

text \<open>What goroutine \<open>i\<close> multiplies into the product.\<close>

definition goroutine_pow :: "RSAKeyPair \<Rightarrow> QElement list \<Rightarrow> bytes list \<Rightarrow> nat \<Rightarrow> nat outcome" where
  "goroutine_pow key QSlice HashMi i =
     (if i < length HashMi then
        (case big_Exp (SetBytes (HashMi ! i)) (int (SetBytes (q_V (QSlice ! i)))) (spk_N key) of
           None \<Rightarrow> Panic | Some p \<Rightarrow> Ret p)
      else Panic)"

fun mul_pows :: "RSAKeyPair \<Rightarrow> QElement list \<Rightarrow> bytes list \<Rightarrow> nat \<Rightarrow> nat list \<Rightarrow> nat outcome" where
  "mul_pows key Q H acc [] = Ret acc"
| "mul_pows key Q H acc (i # is) =
     (case goroutine_pow key Q H i of Panic \<Rightarrow> Panic | Ret p \<Rightarrow> mul_pows key Q H (acc * p) is)"

text \<open>
  \<open>order\<close> is the order in which the goroutines take the lock: a permutation of the indices.
  The code's parameters \<open>t\<close> and \<open>mht\<close> are read for \<open>t.U\<close> and \<open>mht.HashMi\<close> only;
  the other fields and \<open>sigRootHash\<close> are printed.
\<close>

definition VerifyProof_in_order ::
  "nat list \<Rightarrow> RSAKeyPair \<Rightarrow> bytes \<Rightarrow> QElement list \<Rightarrow> bytes \<Rightarrow> bytes \<Rightarrow> bytes list \<Rightarrow> verdict" where
  "VerifyProof_in_order order key U QSlice mu sigma HashMi =
     (case mul_pows key QSlice HashMi 1 order of
        Panic \<Rightarrow> ProcessCrash
      | Ret multiply \<Rightarrow>
          (case big_Exp (SetBytes U) (int (SetBytes mu)) (spk_N key) of
             None \<Rightarrow> MainPanic
           | Some uPowMu \<Rightarrow>
               if QSlice = [] then MainPanic
               else
                 (case big_Mod (multiply * uPowMu) (spk_N key) of
                    Panic \<Rightarrow> MainPanic
                  | Ret lhs \<Rightarrow>
                      (case big_Exp (SetBytes sigma) (spk_E key) (spk_N key) of
                         None \<Rightarrow> MainPanic
                       | Some rhs \<Rightarrow> Verdict (lhs = rhs)))))"

definition VerifyProof ::
  "RSAKeyPair \<Rightarrow> bytes \<Rightarrow> QElement list \<Rightarrow> bytes \<Rightarrow> bytes \<Rightarrow> bytes list \<Rightarrow> verdict" where
  "VerifyProof key U QSlice mu sigma HashMi =
     VerifyProof_in_order [0..<length QSlice] key U QSlice mu sigma HashMi"

text \<open>
  The goroutines as a step relation: the indices still to run and the product so far.  Each
  step is one goroutine's critical section; a failing one takes the process down.
\<close>

datatype mul_state = Running "nat set" nat | Crashed

inductive mul_step :: "RSAKeyPair \<Rightarrow> QElement list \<Rightarrow> bytes list \<Rightarrow> mul_state \<Rightarrow> mul_state \<Rightarrow> bool"
  for key Q H where
  multiply: "i \<in> P \<Longrightarrow> goroutine_pow key Q H i = Ret p \<Longrightarrow>
     mul_step key Q H (Running P acc) (Running (P - {i}) (acc * p))"
| crash: "i \<in> P \<Longrightarrow> goroutine_pow key Q H i = Panic \<Longrightarrow>
     mul_step key Q H (Running P acc) Crashed"

inductive_cases mul_step_RunningE: "mul_step key Q H (Running P acc) s"
inductive_cases mul_step_CrashedE: "mul_step key Q H Crashed s"

section \<open>Splitting (genProof.go)\<close>

text \<open>Go's integer division truncates towards zero.\<close>

definition go_quot :: "int \<Rightarrow> int \<Rightarrow> int" where
  "go_quot a b = sgn a * sgn b * (\<bar>a\<bar> div \<bar>b\<bar>)"

definition go_rem :: "int \<Rightarrow> int \<Rightarrow> int" where
  "go_rem a b = a - b * go_quot a b"

text \<open>\<open>data\<close> is the content \<open>os.ReadFile\<close> returned.  A zero \<open>sep\<close> divides by zero.\<close>

definition SplitV2 :: "bytes \<Rightarrow> int \<Rightarrow> (bytes list \<times> int) outcome" where
  "SplitV2 data sep =
     (let file_size = int (length data) in
      if sep > file_size then Ret ([data], 1)
      else if sep = 0 then Panic
      else
        let N = go_quot file_size sep + (if go_rem file_size sep \<noteq> 0 then 1 else 0);
            block = (\<lambda>i. if int i \<noteq> N - 1
                         then subslice (nat (int i * sep)) (nat ((int i + 1) * sep)) data
                         else let t = drop (nat (int i * sep)) data in
                              t @ replicate (nat (sep - int (length t))) 0)
        in Ret (map block [0..<nat N], N))"

section \<open>Lemmas\<close>

subsection \<open>Key\<close>

lemma GetKey_set [simp]: "\<not> key_unset key \<Longrightarrow> GetKey C d key = (key, None)"
  by (simp add: GetKey_def)

lemma SetKey_set [simp]: "\<not> key_unset key \<Longrightarrow> SetKey C (Some c) key = (key, None)"
  by (simp add: SetKey_def)

lemma SetKey_error_unset: "SetKey C (Some c) key = (key', Some e) \<Longrightarrow> key_unset key'"
  by (cases "key_unset key"; cases "cGet C c (bytes_of_string SigKey_E)";
      cases "cGet C c (bytes_of_string SigKey_N)")
     (auto simp: SetKey_def key_unset_def split: option.splits)

subsection \<open>Modular exponentiation\<close>

lemma big_Exp_nonneg [simp]:
  "0 < n \<Longrightarrow> big_Exp x (int y) (Some n) = Some (x ^ y mod nat n)"
  by (simp add: big_Exp_def Let_def)

lemma big_Exp_Some: "\<exists>p. big_Exp x (int y) m = Some p"
  by (auto simp: big_Exp_def Let_def split: option.splits)

lemma goroutine_pow_Panic_iff: "goroutine_pow key Q H i = Panic \<longleftrightarrow> length H \<le> i"
  using big_Exp_Some [of "SetBytes (H ! i)" "SetBytes (q_V (Q ! i))" "spk_N key"]
  by (auto simp: goroutine_pow_def)

definition pow_val :: "RSAKeyPair \<Rightarrow> QElement list \<Rightarrow> bytes list \<Rightarrow> nat \<Rightarrow> nat" where
  "pow_val key Q H i = (case goroutine_pow key Q H i of Ret p \<Rightarrow> p | Panic \<Rightarrow> 1)"

lemma goroutine_pow_val: "i < length H \<Longrightarrow> goroutine_pow key Q H i = Ret (pow_val key Q H i)"
  using goroutine_pow_Panic_iff [of key Q H i]
  by (cases "goroutine_pow key Q H i") (auto simp: pow_val_def)

lemma mul_pows_eq:
  "mul_pows key Q H acc is =
     (if \<forall>i \<in> set is. i < length H then Ret (acc * prod_list (map (pow_val key Q H) is)) else Panic)"
proof (induction "is" arbitrary: acc)
  case Nil
  then show ?case by simp
next
  case (Cons i "is")
  show ?case
  proof (cases "i < length H")
    case True
    with Cons show ?thesis by (simp add: goroutine_pow_val ac_simps)
  next
    case False
    then show ?thesis using goroutine_pow_Panic_iff [of key Q H i] by simp
  qed
qed

lemma mul_pows_perm:
  assumes "mset is = mset js"
  shows "mul_pows key Q H acc is = mul_pows key Q H acc js"
proof -
  have "prod_mset (image_mset (pow_val key Q H) (mset is))
      = prod_mset (image_mset (pow_val key Q H) (mset js))" using assms by simp
  then have "prod_list (map (pow_val key Q H) is) = prod_list (map (pow_val key Q H) js)"
    by (simp only: mset_map [symmetric] prod_mset_prod_list)
  moreover have "set is = set js" using assms by (rule mset_eq_setD)
  ultimately show ?thesis by (simp add: mul_pows_eq)
qed

lemma VerifyProof_perm:
  "mset order = mset [0..<length Q] \<Longrightarrow>
   VerifyProof_in_order order key U Q mu sigma H = VerifyProof key U Q mu sigma H"
  using mul_pows_perm [of order "[0..<length Q]" key Q H 1]
  by (simp add: VerifyProof_def VerifyProof_in_order_def)

text \<open>The invariant of the goroutines: product so far times what is pending.\<close>

definition mul_inv :: "RSAKeyPair \<Rightarrow> QElement list \<Rightarrow> bytes list \<Rightarrow> mul_state \<Rightarrow> bool" where
  "mul_inv key Q H s =
     (case s of Crashed \<Rightarrow> length H < length Q
      | Running P acc \<Rightarrow> P \<subseteq> {..<length Q} \<and> {length H..<length Q} \<subseteq> P \<and>
          acc * prod (pow_val key Q H) P = prod (pow_val key Q H) {..<length Q})"

lemma mul_step_inv:
  assumes "mul_step key Q H s s'" "mul_inv key Q H s"
  shows "mul_inv key Q H s'"
  using assms
proof (induction rule: mul_step.induct)
  case (multiply i P p acc)
  then have "finite P" by (auto simp: mul_inv_def intro: finite_subset)
  moreover have "pow_val key Q H i = p" using multiply by (simp add: pow_val_def)
  ultimately have "prod (pow_val key Q H) P = p * prod (pow_val key Q H) (P - {i})"
    using multiply.hyps(1) by (metis prod.remove)
  moreover have "i < length H"
    using multiply.hyps(2) goroutine_pow_Panic_iff [of key Q H i] by auto
  ultimately show ?case using multiply by (auto simp: mul_inv_def mult.assoc)
next
  case (crash i P acc)
  then show ?case by (auto simp: mul_inv_def goroutine_pow_Panic_iff)
qed

interpretation product: stable "mul_step key Q H" "mul_inv key Q H" for key Q H
  by unfold_locales (rule mul_step_inv)

subsection \<open>The check as an equation\<close>

lemma prod_list_map_upt: "prod_list (map f [0..<n]) = prod f {..<n}" for f :: "nat \<Rightarrow> nat"
  by (simp add: prod.distinct_set_conv_list [symmetric] lessThan_atLeast0)

lemma VerifyProof_eq:
  assumes "length Q \<le> length H" "Q \<noteq> []" "spk_N key = Some n" "0 < n" "0 \<le> spk_E key"
  shows "VerifyProof key U Q mu sigma H = Verdict
    ((prod (\<lambda>i. SetBytes (H ! i) ^ SetBytes (q_V (Q ! i))) {..<length Q}
        * SetBytes U ^ SetBytes mu) mod nat n
     = SetBytes sigma ^ nat (spk_E key) mod nat n)"
proof -
  let ?f = "\<lambda>i. SetBytes (H ! i) ^ SetBytes (q_V (Q ! i))"
  have pv: "pow_val key Q H i = ?f i mod nat n" if "i < length Q" for i
    using that assms by (simp add: pow_val_def goroutine_pow_def)
  have "mul_pows key Q H 1 [0..<length Q] = Ret (prod (pow_val key Q H) {..<length Q})"
    using assms(1) by (simp add: mul_pows_eq prod_list_map_upt)
  also have "prod (pow_val key Q H) {..<length Q} = prod (\<lambda>i. ?f i mod nat n) {..<length Q}"
    using pv by (intro prod.cong) auto
  finally have m: "mul_pows key Q H 1 [0..<length Q] = Ret (prod (\<lambda>i. ?f i mod nat n) {..<length Q})" .
  obtain e where e: "spk_E key = int e" using assms(5) nonneg_int_cases by metis
  let ?P = "prod (\<lambda>i. ?f i mod nat n) {..<length Q}" and ?X = "SetBytes U ^ SetBytes mu"
  have "?P * (?X mod nat n) mod nat n = (?P mod nat n) * (?X mod nat n) mod nat n"
    by (simp only: mod_mult_left_eq)
  also have "?P mod nat n = prod ?f {..<length Q} mod nat n" by (rule mod_prod_eq)
  also have "\<dots> * (?X mod nat n) mod nat n = prod ?f {..<length Q} * ?X mod nat n"
    by (rule mod_mult_eq)
  finally have "?P * (?X mod nat n) mod nat n = prod ?f {..<length Q} * ?X mod nat n" .
  then show ?thesis
    using m e assms(2-4) by (simp add: VerifyProof_def VerifyProof_in_order_def big_Mod_def)
qed

subsection \<open>Splitting\<close>

lemma go_quot_pos: "0 \<le> a \<Longrightarrow> 0 < b \<Longrightarrow> go_quot a b = a div b"
  by (cases "a = 0") (auto simp: go_quot_def)

lemma go_rem_pos: "0 \<le> a \<Longrightarrow> 0 < b \<Longrightarrow> go_rem a b = a mod b"
  by (simp add: go_rem_def go_quot_pos minus_mult_div_eq_mod)

lemma split_blocks_concat:
  "0 < k \<Longrightarrow> m * k \<le> length xs \<Longrightarrow>
   concat (map (\<lambda>i. subslice (i * k) ((i + 1) * k) xs) [0..<m]) = take (m * k) xs"
proof (induction m)
  case 0
  then show ?case by simp
next
  case (Suc m)
  then have "take (m * k) xs @ subslice (m * k) ((m + 1) * k) xs = take ((m + 1) * k) xs"
    using subslice_split [of "m * k" "(m + 1) * k" "take ((m + 1) * k) xs"]
    by (simp add: subslice_def min_def)
  with Suc show ?case by simp
qed

lemma SplitV2_shape:
  assumes "0 < k" "k \<le> length data"
  defines "m \<equiv> (length data - 1) div k"
  shows "SplitV2 data (int k) = Ret
    (map (\<lambda>i. subslice (i * k) ((i + 1) * k) data) [0..<m]
      @ [drop (m * k) data @ replicate (k - (length data - m * k)) 0], int m + 1)"
proof -
  let ?n = "length data"
  have ceil: "?n div k + (if ?n mod k \<noteq> 0 then 1 else 0) = m + 1"
  proof -
    obtain a where a: "?n = Suc a" using assms by (cases ?n) auto
    show ?thesis unfolding m_def a using assms(1) by (auto simp: div_Suc)
  qed
  have N: "go_quot (int ?n) (int k) + (if go_rem (int ?n) (int k) \<noteq> 0 then 1 else 0) = int m + 1"
  proof -
    have "int (?n div k + (if ?n mod k \<noteq> 0 then 1 else 0)) = int (m + 1)"
      by (simp only: ceil)
    then show ?thesis using assms(1)
      by (auto simp: go_quot_pos go_rem_pos zdiv_int zmod_int split: if_splits)
  qed
  have idx: "nat (int i * int k) = i * k" "nat ((int i + 1) * int k) = (i + 1) * k" for i
    by (simp_all add: nat_mult_distrib nat_add_distrib)
  have mk: "m * k \<le> ?n"
  proof -
    have "m * k \<le> ?n - 1" unfolding m_def by simp
    then show ?thesis by linarith
  qed
  have pad: "nat (int k - int (?n - m * k)) = k - (?n - m * k)" by linarith
  show ?thesis
    using assms(1,2) unfolding SplitV2_def Let_def N
    by (simp add: nat_add_distrib idx pad)
qed

section \<open>Properties\<close>

text \<open>
  C13: The goroutines of \<open>VerifyProof\<close> may take the lock in any order.  Every run that can
  go no further has either multiplied all the powers, with the product the sequential order
  gives, or (when the proof has fewer hashes than the challenge has blocks) has crashed.
\<close>

theorem goroutines_confluent:
  assumes "(mul_step key Q H)\<^sup>*\<^sup>* (Running {..<length Q} 1) s"
    and "\<And>s'. \<not> mul_step key Q H s s'"
  shows "if length Q \<le> length H
    then \<exists>prd. s = Running {} prd \<and> mul_pows key Q H 1 [0..<length Q] = Ret prd
    else s = Crashed \<and> mul_pows key Q H 1 [0..<length Q] = Panic"
proof -
  have "mul_inv key Q H (Running {..<length Q} 1)" by (auto simp: mul_inv_def)
  with assms(1) have inv: "mul_inv key Q H s" by (rule product.star_stays)
  show ?thesis
  proof (cases s)
    case (Running P acc)
    have "P = {}"
    proof (rule ccontr)
      assume "P \<noteq> {}"
      then obtain i where "i \<in> P" by blast
      with assms(2) Running show False
        by (cases "goroutine_pow key Q H i") (auto intro: mul_step.intros)
    qed
    with inv Running show ?thesis
      by (auto simp: mul_inv_def mul_pows_eq prod_list_map_upt)
  next
    case Crashed
    with inv show ?thesis by (auto simp: mul_inv_def mul_pows_eq)
  qed
qed

lemma witness_goroutines:
  "(mul_step \<lparr>spk_N = Some 33, spk_E = 3\<rparr> [\<lparr>q_I = 0, q_V = [2]\<rparr>] [[5]])\<^sup>*\<^sup>*
     (Running {..<length [\<lparr>q_I = 0, q_V = [2]\<rparr>]} 1) (Running {} 25)"
proof -
  have "goroutine_pow \<lparr>spk_N = Some 33, spk_E = 3\<rparr> [\<lparr>q_I = 0, q_V = [2]\<rparr>] [[5]] 0 = Ret 25"
    by (simp add: goroutine_pow_def big_Exp_def SetBytes_def Let_def)
  then have "mul_step \<lparr>spk_N = Some 33, spk_E = 3\<rparr> [\<lparr>q_I = 0, q_V = [2]\<rparr>] [[5]]
     (Running {0} 1) (Running ({0} - {0}) (1 * 25))"
    by (intro mul_step.multiply) auto
  then have "mul_step \<lparr>spk_N = Some 33, spk_E = 3\<rparr> [\<lparr>q_I = 0, q_V = [2]\<rparr>] [[5]]
     (Running {0} 1) (Running {} 25)" by simp
  then show ?thesis by (simp add: lessThan_Suc)
qed

theorem goroutines_confluent_witness:
  "\<exists>prd. Running {} 25 = Running {} prd \<and>
     mul_pows \<lparr>spk_N = Some 33, spk_E = 3\<rparr> [\<lparr>q_I = 0, q_V = [2]\<rparr>] [[5]] 1 [0..<1] = Ret prd"
  using goroutines_confluent [OF witness_goroutines]
  by (simp add: mul_step.simps)

text \<open>
  C12: The verdict is the RSA equation.  With one hash per challenged block, a positive
  modulus and a non-negative exponent, \<open>VerifyProof\<close> never panics, whatever the lock
  order, and answers whether the product of the hashes raised to the challenge values, times
  \<open>u\<close> to the \<open>mu\<close>, is \<open>sigma\<close> to the public exponent modulo \<open>N\<close>.
\<close>

theorem verify_proof_equation:
  assumes "mset order = mset [0..<length Q]"
    and "length Q \<le> length H" "Q \<noteq> []" "spk_N key = Some n" "0 < n" "0 \<le> spk_E key"
  shows "VerifyProof_in_order order key U Q mu sigma H = Verdict
    ((prod (\<lambda>i. SetBytes (H ! i) ^ SetBytes (q_V (Q ! i))) {..<length Q}
        * SetBytes U ^ SetBytes mu) mod nat n
     = SetBytes sigma ^ nat (spk_E key) mod nat n)"
  using VerifyProof_perm [OF assms(1)] VerifyProof_eq [OF assms(2-6)] by simp

theorem verify_proof_equation_witness:
  "VerifyProof_in_order [1, 0] \<lparr>spk_N = Some 33, spk_E = 3\<rparr> [2]
     [\<lparr>q_I = 0, q_V = [1]\<rparr>, \<lparr>q_I = 1, q_V = [1]\<rparr>] [0] [1] [[1], [1]] = Verdict True"
  by (subst verify_proof_equation [where n = 33]) (auto simp: SetBytes_def lessThan_Suc)

text \<open>
  Completeness for an honest prover.  If the tags are \<open>(H(m) u^m)^d\<close> for a secret
  exponent \<open>d\<close> that inverts \<open>E\<close> modulo \<open>N\<close>, the response \<open>mu\<close>, the sum of
  \<open>v m\<close>, and \<open>sigma\<close>, the product of the tags to the \<open>v\<close>, is accepted.
\<close>

theorem honest_proof_accepted:
  assumes len: "length Q \<le> length H" "Q \<noteq> []"
    and key: "spk_N key = Some n" "0 < n" "spk_E key = int e"
    and rsa: "\<And>x. (x ^ d) ^ e mod nat n = x mod nat n"
  shows "VerifyProof key U Q
     (big_Bytes (\<Sum>i<length Q. SetBytes (q_V (Q ! i)) * m i))
     (big_Bytes (\<Prod>i<length Q. ((SetBytes (H ! i) * SetBytes U ^ m i) ^ d) ^ SetBytes (q_V (Q ! i))))
     H = Verdict True"
proof -
  let ?h = "\<lambda>i. SetBytes (H ! i)" and ?v = "\<lambda>i. SetBytes (q_V (Q ! i))" and ?u = "SetBytes U"
  let ?X = "\<Prod>i<length Q. (?h i * ?u ^ m i) ^ ?v i"
  have "(\<Prod>i<length Q. ((?h i * ?u ^ m i) ^ d) ^ ?v i) = ?X ^ d"
    by (simp add: prod_power_distrib power_mult [symmetric] mult.commute)
  then have "(\<Prod>i<length Q. ((?h i * ?u ^ m i) ^ d) ^ ?v i) ^ e mod nat n = ?X mod nat n"
    using rsa by simp
  moreover have "?X = (\<Prod>i<length Q. ?h i ^ ?v i) * ?u ^ (\<Sum>i<length Q. ?v i * m i)"
    by (simp add: power_mult_distrib prod.distrib power_sum power_mult [symmetric] mult.commute)
  ultimately show ?thesis
    using VerifyProof_eq [OF len key(1,2)] key(3) by simp
qed

lemma rsa_33: "((x::nat) ^ 7) ^ 3 mod nat 33 = x mod nat 33"
proof -
  have all: "\<forall>y \<in> set [0..32]. (y::int) ^ 21 mod 33 = y" by code_simp
  have "int (x mod 33) \<in> set [0..32]" by simp
  with all have "int (x mod 33) ^ 21 mod 33 = int (x mod 33)" by blast
  then have "int ((x mod 33) ^ 21 mod 33) = int (x mod 33)"
    by (simp only: of_nat_power of_nat_mod of_nat_numeral)
  then have "(x mod 33) ^ 21 mod 33 = x mod 33" by (simp only: of_nat_eq_iff)
  then have "x ^ 21 mod 33 = x mod 33" by (metis power_mod)
  then show ?thesis by (simp add: power_mult [symmetric])
qed

theorem honest_proof_accepted_witness:
  "VerifyProof \<lparr>spk_N = Some 33, spk_E = int 3\<rparr> [2] [\<lparr>q_I = 0, q_V = [2]\<rparr>]
     (big_Bytes (\<Sum>i<length [\<lparr>q_I = 0, q_V = [2]\<rparr>]. SetBytes (q_V ([\<lparr>q_I = 0, q_V = [2]\<rparr>] ! i)) * 4))
     (big_Bytes (\<Prod>i<length [\<lparr>q_I = 0, q_V = [2]\<rparr>].
        ((SetBytes ([[5]] ! i) * SetBytes [2] ^ 4) ^ 7) ^ SetBytes (q_V ([\<lparr>q_I = 0, q_V = [2]\<rparr>] ! i))))
     [[5]] = Verdict True"
  by (rule honest_proof_accepted [where n = 33 and e = 3 and d = 7]) (simp_all only: rsa_33, simp_all)

text \<open>
  A proof that carries fewer hashes than the challenge has blocks makes a goroutine
  index out of range, which no \<open>recover\<close> of the caller catches: the process ends.
\<close>

theorem short_proof_crashes:
  assumes "length H < length Q" "mset order = mset [0..<length Q]"
  shows "VerifyProof_in_order order key U Q mu sigma H = ProcessCrash"
proof -
  have "mul_pows key Q H 1 [0..<length Q] = Panic" using assms by (auto simp: mul_pows_eq)
  then show ?thesis
    unfolding VerifyProof_perm [OF assms(2)] by (simp add: VerifyProof_def VerifyProof_in_order_def)
qed

theorem short_proof_crashes_witness:
  "VerifyProof_in_order [0] \<lparr>spk_N = Some 33, spk_E = 3\<rparr> [2] [\<lparr>q_I = 0, q_V = [1]\<rparr>] [0] [1] []
     = ProcessCrash"
  by (rule short_proof_crashes) auto

text \<open>
  The verification key is written once.  Whatever sequence of \<open>GetKey\<close> and
  \<open>SetKey\<close> calls follows, over whatever caches, a usable key stays as it is.
\<close>

theorem usable_key_never_changes:
  assumes "\<not> key_unset key"
  shows "fold (\<lambda>(get, d) k. fst (if get then GetKey C d k else SetKey C d k)) calls key = key"
proof (induction calls)
  case Nil
  then show ?case by simp
next
  case (Cons call calls)
  obtain get d where call: "call = (get, d)" by (cases call)
  have "fst (SetKey C d key) = key" using assms by (cases d) (auto simp: SetKey_def)
  then have "fst (if get then GetKey C d key else SetKey C d key) = key"
    using assms by simp
  with Cons call show ?case by simp
qed

theorem usable_key_never_changes_witness:
  "fold (\<lambda>(get, d) k. fst (if get then GetKey mem_cache d k else SetKey mem_cache d k))
     [(True, None), (False, Some (mem_db [(bytes_of_string SigKey_E, [0x35])]))]
     \<lparr>spk_N = Some 33, spk_E = 3\<rparr> = \<lparr>spk_N = Some 33, spk_E = 3\<rparr>"
  by (rule usable_key_never_changes) (simp add: key_unset_def)

text \<open>After a key is put into a cache that keeps the interface, \<open>GetKey\<close> returns exactly that key.\<close>

lemma stored_key_is_loaded:
  assumes "cacher C ct op" "op c"
    and "cPut C c (bytes_of_string SigKey_E) (bytes_of_string (show_nat e)) = (c1, None)"
    and "cPut C c1 (bytes_of_string SigKey_N) (bytes_of_string (show_nat n)) = (c2, None)"
    and "e < 2 ^ 63"
  shows "GetKey C (Some c2) init_key = (\<lparr>spk_N = Some (int n), spk_E = int e\<rparr>, None)"
proof -
  have "bytes_of_string SigKey_E \<noteq> bytes_of_string SigKey_N" by (simp add: key_defs)
  then have g: "cGet C c2 (bytes_of_string SigKey_E) = Inr (bytes_of_string (show_nat e))"
    "cGet C c2 (bytes_of_string SigKey_N) = Inr (bytes_of_string (show_nat n))"
    using cacher.get_after_two_puts [OF assms(1-4)] by auto
  have "big_Int64 (int e) = int e"
    using assms(5) by (simp add: big_Int64_def signed_of_nat signed_of_int signed_take_bit_int_eq_self)
  with g show ?thesis
    by (simp add: GetKey_def SetKey_def key_unset_def init_key_def)
qed

text \<open>
  The challenge has one element per block, in order, with the chain's random value and
  the block index counted from zero.  The guard for index 0 never takes its else branch:
  an index of 0 becomes -1.
\<close>

theorem challenge_elements:
  assumes "PoDR2ChallengeGenerateFromChain blocks randoms = Inr Q"
  shows "length Q = length blocks \<and> length blocks = length randoms \<and>
    (\<forall>j < length Q. Q ! j = \<lparr>q_I = int (unat (blocks ! j)) - 1, q_V = randoms ! j\<rparr>)"
  using assms by (auto simp: PoDR2ChallengeGenerateFromChain_def split: if_splits)

theorem challenge_elements_witness:
  "PoDR2ChallengeGenerateFromChain [0, 7] [[1], [2]]
     = Inr [\<lparr>q_I = -1, q_V = [1]\<rparr>, \<lparr>q_I = 6, q_V = [2]\<rparr>] \<and>
   length [\<lparr>q_I = -1, q_V = [1]\<rparr>, \<lparr>q_I = 6, q_V = [2 :: byte]\<rparr>] = length [0 :: u32, 7]"
proof -
  have *: "PoDR2ChallengeGenerateFromChain [0, 7] [[1], [2]]
     = Inr [\<lparr>q_I = -1, q_V = [1]\<rparr>, \<lparr>q_I = 6, q_V = [2]\<rparr>]"
    by (simp add: PoDR2ChallengeGenerateFromChain_def upt_rec)
  show ?thesis using * challenge_elements [OF *] by simp
qed

text \<open>
  Splitting a file of at least one block cuts it into blocks of exactly \<open>sep\<close> bytes
  whose concatenation is the file followed by zero padding of less than a block.
\<close>

theorem split_blocks:
  assumes "0 < k" "k \<le> length data"
  shows "\<exists>blocks pad. SplitV2 data (int k) = Ret (blocks, int (length blocks))
    \<and> (\<forall>b \<in> set blocks. length b = k)
    \<and> concat blocks = data @ replicate pad 0 \<and> pad < k"
proof -
  define m where "m = (length data - 1) div k"
  define bs where "bs = map (\<lambda>i. subslice (i * k) ((i + 1) * k) data) [0..<m]"
  let ?last = "drop (m * k) data @ replicate (k - (length data - m * k)) 0"
  have ne: "0 < length data" using assms by linarith
  have mk: "m * k \<le> length data - 1" unfolding m_def by simp
  have km: "length data - 1 < (m + 1) * k"
    unfolding m_def using assms(1) by (metis Suc_eq_plus1 dividend_less_div_times mult.commute mult_Suc)
  have cat: "concat bs = take (m * k) data"
    unfolding bs_def using assms(1) mk by (intro split_blocks_concat) auto
  have lens: "\<forall>b \<in> set (bs @ [?last]). length b = k"
  proof -
    have "(i + 1) * k \<le> length data" if "i < m" for i
    proof -
      have "(i + 1) * k \<le> m * k" using that by (intro mult_le_mono1) simp
      with mk show ?thesis by linarith
    qed
    moreover have "length data - m * k \<le> k" using km mk ne by (simp add: algebra_simps)
    ultimately show ?thesis using mk by (auto simp: bs_def algebra_simps)
  qed
  have "SplitV2 data (int k) = Ret (bs @ [?last], int (length (bs @ [?last])))"
    using SplitV2_shape [OF assms] by (simp add: m_def bs_def)
  moreover have "concat (bs @ [?last]) = data @ replicate (k - (length data - m * k)) 0"
    using cat by simp
  moreover have "k - (length data - m * k) < k" using mk ne assms(1) by linarith
  ultimately show ?thesis using lens by blast
qed

theorem split_blocks_witness:
  "\<exists>blocks pad. SplitV2 [1, 2, 3, 4, 5] (int 2) = Ret (blocks, int (length blocks))
    \<and> (\<forall>b \<in> set blocks. length b = 2)
    \<and> concat blocks = [1, 2, 3, 4, 5] @ replicate pad 0 \<and> pad < 2"
  by (rule split_blocks) auto

end
