(* ===== verification/ChainTypes.thy ===== *)
theory ChainTypes
  imports GoStrings
begin

text \<open>
  The chain's data (pkg/chain/types.go and events.go).  Fixed-size arrays are byte lists; their
  lengths are the well-formedness predicates below.  An account identifier is the 32-byte
  \<open>types.AccountID\<close> and \<open>types.U128\<close> a 128-bit word.
\<close>

section \<open>Names and messages\<close>

definition FILEBANK :: string where "FILEBANK = ''FileBank''"
definition TEEWORKER :: string where "TEEWORKER = ''TeeWorker''"
definition SMINER :: string where "SMINER = ''Sminer''"
definition AUDIT :: string where "AUDIT = ''Audit''"
definition SYSTEM :: string where "SYSTEM = ''System''"

definition ALLMINER :: string where "ALLMINER = ''AllMiner''"
definition MINERITEMS :: string where "MINERITEMS = ''MinerItems''"
definition SCHEDULERMAP :: string where "SCHEDULERMAP = ''SchedulerMap''"
definition FILE :: string where "FILE = ''File''"
definition UNVERIFYPROOF :: string where "UNVERIFYPROOF = ''UnVerifyProof''"
definition ACCOUNT :: string where "ACCOUNT = ''Account''"

definition TX_FILEBANK_UPLOAD :: string where "TX_FILEBANK_UPLOAD = FILEBANK @ ''.'' @ ''upload''"
definition TX_FILEBANK_UPLOADFILLER :: string where
  "TX_FILEBANK_UPLOADFILLER = FILEBANK @ ''.'' @ ''upload_filler''"
definition TX_AUDIT_VERIFYPROOF :: string where "TX_AUDIT_VERIFYPROOF = AUDIT @ ''.'' @ ''verify_proof''"
definition TX_TEEWORKER_UPDATE :: string where
  "TX_TEEWORKER_UPDATE = TEEWORKER @ ''.'' @ ''update_scheduler''"
definition TX_TEEWORKER_REGISTER :: string where
  "TX_TEEWORKER_REGISTER = TEEWORKER @ ''.'' @ ''registration_scheduler''"

definition FILE_STATE_ACTIVE :: string where "FILE_STATE_ACTIVE = ''active''"
definition FILE_STATE_PENDING :: string where "FILE_STATE_PENDING = ''pending''"
definition MINER_STATE_POSITIVE :: string where "MINER_STATE_POSITIVE = ''positive''"
definition ERR_Failed :: go_error where "ERR_Failed = ''Failed''"
definition ERR_RPC_CONNECTION :: go_error where "ERR_RPC_CONNECTION = ''rpc connection failed''"
definition ERR_RPC_TIMEOUT :: go_error where "ERR_RPC_TIMEOUT = ''timeout''"
definition ERR_RPC_EMPTY_VALUE :: go_error where "ERR_RPC_EMPTY_VALUE = ''empty''"

lemmas chain_text_defs = FILE_STATE_ACTIVE_def FILE_STATE_PENDING_def MINER_STATE_POSITIVE_def
  ERR_Failed_def ERR_RPC_CONNECTION_def ERR_RPC_TIMEOUT_def ERR_RPC_EMPTY_VALUE_def

declare chain_text_defs [go_code]

section \<open>Structures\<close>

type_synonym AccountID = bytes
type_synonym FileHash = bytes
type_synonym FileBlockId = bytes
type_synonym u128 = "128 word"

definition len_FileHash :: nat where "len_FileHash = 64"
definition len_FileBlockId :: nat where "len_FileBlockId = 68"

record Ipv4Type =
  ip_Index :: u8
  ip_Value :: "u8 list"
  ip_Port :: u16

definition zero_Ipv4 :: Ipv4Type where
  "zero_Ipv4 = \<lparr>ip_Index = 0, ip_Value = replicate 4 0, ip_Port = 0\<rparr>"

record RewardInfo =
  rw_Total :: u128
  rw_Received :: u128
  rw_NotReceived :: u128

record MinerInfo =
  mi_PeerId :: u64
  mi_IncomeAcc :: AccountID
  mi_Ip :: Ipv4Type
  mi_Collaterals :: u128
  mi_State :: bytes
  mi_Power :: u128
  mi_Space :: u128
  mi_RewardInfo :: RewardInfo

record Cache_MinerInfo =
  cm_Peerid :: u64
  cm_Ip :: string
  cm_Free :: u64

record UserBrief =
  ub_User :: AccountID
  ub_File_name :: bytes
  ub_Bucket_name :: bytes

record BlockInfo =
  bi_MinerId :: u64
  bi_BlockSize :: u64
  bi_BlockNum :: u32
  bi_BlockId :: FileBlockId
  bi_MinerIp :: Ipv4Type
  bi_MinerAcc :: AccountID

definition zero_BlockInfo :: BlockInfo where
  "zero_BlockInfo = \<lparr>bi_MinerId = 0, bi_BlockSize = 0, bi_BlockNum = 0,
     bi_BlockId = replicate 68 0, bi_MinerIp = zero_Ipv4, bi_MinerAcc = replicate 32 0\<rparr>"

record FileMetaInfo =
  fm_Size :: u64
  fm_Index :: u32
  fm_State :: bytes
  fm_UserBriefs :: "UserBrief list"
  fm_BlockInfo :: "BlockInfo list"

record FillerMetaInfo =
  fi_Size :: u64
  fi_Index :: u32
  fi_BlockNum :: u32
  fi_BlockSize :: u32
  fi_ScanSize :: u32
  fi_Acc :: AccountID
  fi_Hash :: FileHash

record SchedulerInfo =
  si_Ip :: Ipv4Type
  si_StashUser :: AccountID
  si_ControllerUser :: AccountID

record ChallengeInfo =
  ch_File_size :: u64
  ch_File_type :: u8
  ch_Block_list :: "u32 list"
  ch_File_id :: FileHash
  ch_Shard_id :: FileBlockId
  ch_Random :: "bytes list"

record Proof =
  pf_FileId :: FileHash
  pf_Miner_pubkey :: AccountID
  pf_Challenge_info :: ChallengeInfo
  pf_U :: bytes
  pf_Mu :: bytes
  pf_Sigma :: bytes
  pf_Omega :: bytes
  pf_SigRootHash :: bytes
  pf_HashMi :: "bytes list"

record ProofResult =
  pr_PublicKey :: AccountID
  pr_FileId :: FileHash
  pr_Shard_id :: FileBlockId
  pr_Result :: bool

text \<open>The fields of the third-party \<open>types.AccountInfo\<close> the code reads.\<close>

record AccountInfo =
  ai_Nonce :: u32
  ai_Free :: u128

section \<open>Events\<close>

text \<open>
  One constructor per event structure, with its fields in order but for \<open>Phase\<close> and
  \<open>Topics\<close>, which every event has and no code reads.
\<close>

datatype segment_event =
    PPBNoOnTimeSubmit AccountID u64
  | PPDNoOnTimeSubmit AccountID u64
  | ChallengeProof AccountID bytes
  | VerifyProofEv AccountID bytes
  | OutstandingChallenges AccountID bytes

datatype sminer_event =
    Registered AccountID u128
  | TimedTask
  | DrawFaucetMoney
  | FaucetTopUpMoney AccountID
  | LessThan24Hours u32 u32
  | AlreadyFrozen AccountID
  | MinerExit AccountID
  | MinerClaim AccountID
  | IncreaseCollateral AccountID u128
  | DepositEv u128
  | Redeemed AccountID u128
  | Claimed AccountID u128
  | TimingStorageSpace
  | UpdataBeneficiary AccountID AccountID
  | UpdataIp AccountID Ipv4Type Ipv4Type
  | StartOfBufferPeriod u32
  | EndOfBufferPeriod u32

datatype filebank_event =
    DeleteFile AccountID AccountID "FileHash list" "FileHash list"
  | FileUpload AccountID
  | FileUpdate AccountID bytes
  | FileChangeState AccountID bytes
  | BuyFile AccountID u128 bytes
  | Purchased AccountID bytes
  | InsertFileSlice bytes
  | FillerUpload AccountID u64
  | ClearInvalidFile AccountID bytes
  | RecoverFile AccountID bytes
  | ReceiveSpace AccountID
  | UploadDeclaration AccountID AccountID FileHash bytes
  | CreateBucket AccountID AccountID bytes
  | DeleteBucket AccountID AccountID bytes

datatype storage_event =
    BuySpace AccountID u128 u128
  | ExpansionSpace AccountID u128 u128
  | RenewalSpace AccountID u32 u128
  | LeaseExpired AccountID u128
  | LeaseExpireIn24Hours AccountID u128

datatype teeworker_event =
    RegistrationScheduler AccountID Ipv4Type
  | UpdateSchedulerEv AccountID Ipv4Type

datatype oss_event =
    OssRegister AccountID Ipv4Type
  | OssUpdate AccountID Ipv4Type

text \<open>\<open>EventRecords\<close>: the decoded events, one list per pallet instead of one per event.\<close>

record EventRecords =
  ev_SegmentBook :: "segment_event list"
  ev_Sminer :: "sminer_event list"
  ev_FileBank :: "filebank_event list"
  ev_StorageHandler :: "storage_event list"
  ev_TeeWorker :: "teeworker_event list"
  ev_Oss :: "oss_event list"

definition no_events :: EventRecords where
  "no_events = \<lparr>ev_SegmentBook = [], ev_Sminer = [], ev_FileBank = [], ev_StorageHandler = [],
     ev_TeeWorker = [], ev_Oss = []\<rparr>"

fun is_VerifyProofEv :: "segment_event \<Rightarrow> bool" where
  "is_VerifyProofEv (VerifyProofEv _ _) = True"
| "is_VerifyProofEv _ = False"

fun is_FileUpload :: "filebank_event \<Rightarrow> bool" where
  "is_FileUpload (FileUpload _) = True"
| "is_FileUpload _ = False"

fun is_FillerUpload :: "filebank_event \<Rightarrow> bool" where
  "is_FillerUpload (FillerUpload _ _) = True"
| "is_FillerUpload _ = False"

fun is_RegistrationScheduler :: "teeworker_event \<Rightarrow> bool" where
  "is_RegistrationScheduler (RegistrationScheduler _ _) = True"
| "is_RegistrationScheduler _ = False"

fun is_UpdateScheduler :: "teeworker_event \<Rightarrow> bool" where
  "is_UpdateScheduler (UpdateSchedulerEv _ _) = True"
| "is_UpdateScheduler _ = False"

end
