(* ===== verification/ChainClient.thy ===== *)
theory ChainClient
  imports ChainTypes Ss58 Utils
begin

text \<open>
  The chain client (pkg/chain/client.go, chainState.go and transaction.go).  The RPC library
  is third party: it is the record \<open>('api, 'w) gsrpc\<close> of functions over the state \<open>'w\<close>
  of the node and the network, together with the SCALE codec and the signer.  An operation
  takes the client and the world and returns its result, which may be a panic, the client and
  the world.
\<close>

section \<open>The RPC library\<close>

text \<open>What \<open>types.NewCall\<close> packs: the argument lists of the transactions.\<close>

datatype tx_call =
    Call_Register AccountID Ipv4Type
  | Call_Upload FileHash u64 "BlockInfo list"
  | Call_UploadFiller AccountID "FillerMetaInfo list"
  | Call_VerifyProof "ProofResult list"
  | Call_UpdateScheduler Ipv4Type

text \<open>
  What the \<open>select\<close> over a submission's channels can deliver: a status that the
  transaction is in a block, another status, or a value of the error channel, which is nil when
  the subscription is closed.  A submission is the list of deliveries that come before the timer
  fires; at its end the timer does.
\<close>

datatype sub_event = InBlock bytes | OtherStatus | SubErr "go_error option"

record ('api, 'w) gsrpc =
  rpc_connect :: "string \<Rightarrow> 'w \<Rightarrow> (go_error + 'api) \<times> 'w"
  rpc_Health :: "'api \<Rightarrow> 'w \<Rightarrow> (go_error + bool) \<times> 'w"
  rpc_GetStorageLatest :: "'api \<Rightarrow> bytes \<Rightarrow> 'w \<Rightarrow> (go_error + bytes option) \<times> 'w"
  rpc_GetStorageRaw :: "'api \<Rightarrow> bytes \<Rightarrow> 'w \<Rightarrow> (go_error + bytes) \<times> 'w"
  rpc_Submit :: "'api \<Rightarrow> tx_call \<times> u32 \<Rightarrow> 'w \<Rightarrow> (go_error + sub_event list) \<times> 'w"
  CreateStorageKey :: "string \<Rightarrow> string \<Rightarrow> bytes option \<Rightarrow> go_error + bytes"
  NewCall :: "string \<Rightarrow> tx_call \<Rightarrow> go_error option"
  Sign :: "tx_call \<Rightarrow> u32 \<Rightarrow> go_error option"
  Encode :: "bytes \<Rightarrow> go_error + bytes"
  DecodeEvents :: "bytes \<Rightarrow> EventRecords"
  DecMiner :: "bytes \<Rightarrow> go_error + MinerInfo"
  DecAccounts :: "bytes \<Rightarrow> go_error + AccountID list"
  DecFileMeta :: "bytes \<Rightarrow> go_error + FileMetaInfo"
  DecSchedulers :: "bytes \<Rightarrow> go_error + SchedulerInfo list"
  DecProofs :: "bytes \<Rightarrow> go_error + Proof list"
  DecAccountInfo :: "bytes \<Rightarrow> go_error + AccountInfo"

section \<open>The client (client.go)\<close>

record 'api chainClient =
  cc_api :: "'api option"
  cc_chainState :: bool
  cc_publicKey :: bytes
  cc_URI :: string
  cc_rpcAddr :: string
  cc_stash :: string

definition SetChainState :: "bool \<Rightarrow> 'api chainClient \<Rightarrow> 'api chainClient" where
  "SetChainState state c = c\<lparr>cc_chainState := state\<rparr>"

definition GetChainState :: "'api chainClient \<Rightarrow> bool" where
  "GetChainState c = cc_chainState c"

text \<open>
  \<open>healthchek\<close> recovers: with a nil api the field access panics, the deferred
  \<open>recover\<close> ends the function and its unnamed result is the nil error.
\<close>

definition healthchek :: "('api, 'w) gsrpc \<Rightarrow> 'api option \<Rightarrow> 'w \<Rightarrow> go_error option \<times> 'w" where
  "healthchek G a w =
     (case a of None \<Rightarrow> (None, w)
      | Some api \<Rightarrow>
          (case rpc_Health G api w of (Inl err, w') \<Rightarrow> (Some err, w') | (Inr _, w') \<Rightarrow> (None, w')))"

definition reconnectChainClient :: "('api, 'w) gsrpc \<Rightarrow> string \<Rightarrow> 'w \<Rightarrow> (go_error + 'api) \<times> 'w" where
  "reconnectChainClient G rpcAddr w = rpc_connect G rpcAddr w"

definition IsChainClientOk ::
  "('api, 'w) gsrpc \<Rightarrow> 'api chainClient \<Rightarrow> 'w \<Rightarrow> bool \<times> 'api chainClient \<times> 'w" where
  "IsChainClientOk G c w =
     (case healthchek G (cc_api c) w of
        (None, w1) \<Rightarrow> (True, c, w1)
      | (Some err, w1) \<Rightarrow>
          (let c1 = c\<lparr>cc_api := None\<rparr> in
           case reconnectChainClient G (cc_rpcAddr c1) w1 of
             (Inl err', w2) \<Rightarrow> (False, c1, w2)
           | (Inr cli, w2) \<Rightarrow> (True, c1\<lparr>cc_api := Some cli\<rparr>, w2)))"

section \<open>Queries (chainState.go)\<close>

text \<open>
  The preamble of every call: check the connection, record the state, go on or fail.
  \<open>fail\<close> is what the call returns when there is no connection.
\<close>

definition with_connection ::
  "('api, 'w) gsrpc \<Rightarrow> 'r \<Rightarrow> ('api chainClient \<Rightarrow> 'w \<Rightarrow> 'r outcome \<times> 'api chainClient \<times> 'w)
   \<Rightarrow> 'api chainClient \<Rightarrow> 'w \<Rightarrow> 'r outcome \<times> 'api chainClient \<times> 'w" where
  "with_connection G fail body c w =
     (case IsChainClientOk G c w of (ok, c1, w1) \<Rightarrow>
        if \<not> ok then (Ret fail, SetChainState False c1, w1)
        else body (SetChainState True c1) w1)"

text \<open>The common end of every query: the storage key, the latest value, its decoding.\<close>

definition query_latest ::
  "('api, 'w) gsrpc \<Rightarrow> string \<Rightarrow> string \<Rightarrow> bytes option \<Rightarrow> (bytes \<Rightarrow> go_error + 'a)
   \<Rightarrow> 'api chainClient \<Rightarrow> 'w \<Rightarrow> (go_error + 'a) outcome \<times> 'api chainClient \<times> 'w" where
  "query_latest G pallet item arg dec c w =
     (case CreateStorageKey G pallet item arg of
        Inl err \<Rightarrow> (Ret (Inl (wrap_error ''[CreateStorageKey]'' err)), c, w)
      | Inr key \<Rightarrow>
          (case cc_api c of
             None \<Rightarrow> (Panic, c, w)
           | Some api \<Rightarrow>
               (case rpc_GetStorageLatest G api key w of
                  (Inl err, w1) \<Rightarrow> (Ret (Inl (wrap_error ''[GetStorageLatest]'' err)), c, w1)
                | (Inr None, w1) \<Rightarrow> (Ret (Inl ERR_RPC_EMPTY_VALUE), c, w1)
                | (Inr (Some raw), w1) \<Rightarrow>
                    (case dec raw of
                       Inl err \<Rightarrow> (Ret (Inl (wrap_error ''[GetStorageLatest]'' err)), c, w1)
                     | Inr data \<Rightarrow> (Ret (Inr data), c, w1)))))"

definition GetSyncStatus ::
  "('api, 'w) gsrpc \<Rightarrow> 'api chainClient \<Rightarrow> 'w \<Rightarrow> (go_error + bool) outcome \<times> 'api chainClient \<times> 'w" where
  "GetSyncStatus G c w =
     (case IsChainClientOk G c w of (ok, c1, w1) \<Rightarrow>
        if \<not> ok then (Ret (Inl ERR_RPC_CONNECTION), c1, w1)
        else (case cc_api c1 of
                None \<Rightarrow> (Panic, c1, w1)
              | Some api \<Rightarrow>
                  (case rpc_Health G api w1 of
                     (Inl err, w2) \<Rightarrow> (Ret (Inl err), c1, w2)
                   | (Inr syncing, w2) \<Rightarrow> (Ret (Inr syncing), c1, w2))))"

definition GetStorageMinerInfo ::
  "('api, 'w) gsrpc \<Rightarrow> bytes \<Rightarrow> 'api chainClient \<Rightarrow> 'w
   \<Rightarrow> (go_error + MinerInfo) outcome \<times> 'api chainClient \<times> 'w" where
  "GetStorageMinerInfo G pkey =
     with_connection G (Inl ERR_RPC_CONNECTION) (query_latest G SMINER MINERITEMS (Some pkey) (DecMiner G))"

definition GetAllStorageMiner ::
  "('api, 'w) gsrpc \<Rightarrow> 'api chainClient \<Rightarrow> 'w
   \<Rightarrow> (go_error + AccountID list) outcome \<times> 'api chainClient \<times> 'w" where
  "GetAllStorageMiner G =
     with_connection G (Inl ERR_RPC_CONNECTION) (query_latest G SMINER ALLMINER None (DecAccounts G))"

definition GetFileMetaInfo ::
  "('api, 'w) gsrpc \<Rightarrow> string \<Rightarrow> 'api chainClient \<Rightarrow> 'w
   \<Rightarrow> (go_error + FileMetaInfo) outcome \<times> 'api chainClient \<times> 'w" where
  "GetFileMetaInfo G fid =
     with_connection G (Inl ERR_RPC_CONNECTION) (\<lambda>c w.
       if length fid \<noteq> len_FileHash then (Ret (Inl ERR_Failed), c, w)
       else case Encode G (bytes_of_string fid) of
              Inl err \<Rightarrow> (Ret (Inl (wrap_error ''[Encode]'' err)), c, w)
            | Inr b \<Rightarrow> query_latest G FILEBANK FILE (Some b) (DecFileMeta G) c w)"

definition GetAllSchedulerInfo ::
  "('api, 'w) gsrpc \<Rightarrow> 'api chainClient \<Rightarrow> 'w
   \<Rightarrow> (go_error + SchedulerInfo list) outcome \<times> 'api chainClient \<times> 'w" where
  "GetAllSchedulerInfo G =
     with_connection G (Inl ERR_RPC_CONNECTION)
       (query_latest G TEEWORKER SCHEDULERMAP None (DecSchedulers G))"

definition GetProofs ::
  "('api, 'w) gsrpc \<Rightarrow> 'api chainClient \<Rightarrow> 'w
   \<Rightarrow> (go_error + Proof list) outcome \<times> 'api chainClient \<times> 'w" where
  "GetProofs G =
     with_connection G (Inl ERR_RPC_CONNECTION) (\<lambda>c w.
       query_latest G AUDIT UNVERIFYPROOF (Some (cc_publicKey c)) (DecProofs G) c w)"

text \<open>\<open>types.NewAccountID\<close> fails unless it is given 32 bytes.\<close>

definition NewAccountID :: "bytes \<Rightarrow> go_error + AccountID" where
  "NewAccountID pkey =
     (if length pkey \<noteq> 32 then Inl ''expected 32 bytes'' else Inr pkey)"

definition GetAccountInfo ::
  "('api, 'w) gsrpc \<Rightarrow> bytes \<Rightarrow> 'api chainClient \<Rightarrow> 'w
   \<Rightarrow> (go_error + AccountInfo) outcome \<times> 'api chainClient \<times> 'w" where
  "GetAccountInfo G pkey =
     with_connection G (Inl ERR_RPC_CONNECTION) (\<lambda>c w.
       case NewAccountID pkey of
         Inl err \<Rightarrow> (Ret (Inl (wrap_error ''[NewAccountID]'' err)), c, w)
       | Inr acc \<Rightarrow>
           (case Encode G acc of
              Inl err \<Rightarrow> (Ret (Inl (wrap_error ''[EncodeToBytes]'' err)), c, w)
            | Inr b \<Rightarrow> query_latest G SYSTEM ACCOUNT (Some b) (DecAccountInfo G) c w))"

definition GetPublicKey :: "'api chainClient \<Rightarrow> bytes" where
  "GetPublicKey c = cc_publicKey c"

definition GetStashPublicKey ::
  "(string \<Rightarrow> bytes) \<Rightarrow> (bytes \<Rightarrow> bytes) \<Rightarrow> 'api chainClient \<Rightarrow> go_error + bytes" where
  "GetStashPublicKey b58dec sum512 c = DecodePublicKeyOfCessAccount b58dec sum512 (cc_stash c)"

definition GetMnemonicSeed :: "'api chainClient \<Rightarrow> string" where
  "GetMnemonicSeed c = cc_URI c"

definition GetChainStatus :: "'api chainClient \<Rightarrow> bool" where
  "GetChainStatus c = GetChainState c"

definition GetCessAccount ::
  "(bytes \<Rightarrow> string) \<Rightarrow> (bytes \<Rightarrow> bytes) \<Rightarrow> 'api chainClient \<Rightarrow> go_error + string" where
  "GetCessAccount b58enc sum512 c = EncodePublicKeyAsCessAccount b58enc sum512 (cc_publicKey c)"

section \<open>Lemmas\<close>

lemma IsChainClientOk_result:
  "fst (snd (IsChainClientOk G c w)) = c
   \<or> (\<exists>a. fst (snd (IsChainClientOk G c w)) = c\<lparr>cc_api := a\<rparr>)"
  by (cases "healthchek G (cc_api c) w"; cases "fst (healthchek G (cc_api c) w)";
      cases "reconnectChainClient G (cc_rpcAddr c) (snd (healthchek G (cc_api c) w))";
      cases "fst (reconnectChainClient G (cc_rpcAddr c) (snd (healthchek G (cc_api c) w)))")
     (auto simp: IsChainClientOk_def Let_def)

lemma IsChainClientOk_fields [simp]:
  "cc_rpcAddr (fst (snd (IsChainClientOk G c w))) = cc_rpcAddr c"
  "cc_publicKey (fst (snd (IsChainClientOk G c w))) = cc_publicKey c"
  "cc_chainState (fst (snd (IsChainClientOk G c w))) = cc_chainState c"
  using IsChainClientOk_result [of G c w] by auto

lemma IsChainClientOk_nil [simp]: "cc_api c = None \<Longrightarrow> IsChainClientOk G c w = (True, c, w)"
  by (simp add: IsChainClientOk_def healthchek_def)

lemma IsChainClientOk_False:
  "IsChainClientOk G c w = (False, c', w') \<Longrightarrow> c' = c\<lparr>cc_api := None\<rparr>"
  by (cases "healthchek G (cc_api c) w"; cases "fst (healthchek G (cc_api c) w)";
      cases "reconnectChainClient G (cc_rpcAddr c) (snd (healthchek G (cc_api c) w))";
      cases "fst (reconnectChainClient G (cc_rpcAddr c) (snd (healthchek G (cc_api c) w)))")
     (auto simp: IsChainClientOk_def Let_def)

lemma with_connection_nil:
  "cc_api c = None \<Longrightarrow> with_connection G fl body c w = body (SetChainState True c) w"
  by (simp add: with_connection_def)

lemma query_latest_nil:
  "cc_api c = None \<Longrightarrow> query_latest G p it arg dec c w =
     (case CreateStorageKey G p it arg of
        Inl err \<Rightarrow> (Ret (Inl (wrap_error ''[CreateStorageKey]'' err)), c, w)
      | Inr key \<Rightarrow> (Panic, c, w))"
  by (simp add: query_latest_def split: sum.splits)

lemma query_latest_client [simp]: "fst (snd (query_latest G p it arg dec c w)) = c"
  by (simp add: query_latest_def split: sum.splits option.splits prod.splits)

end
