(* ===== verification/ChainTx.thy ===== *)
theory ChainTx
  imports ChainClient
begin

text \<open>
  Transactions (pkg/chain/transaction.go).  The five operations share one skeleton, modelled
  once: the call and the extrinsic, the account's nonce, signing, submission with or without
  retries, and the wait for the block.  \<open>tx_texts\<close> holds what differs between them: the
  wrapping messages, how the block hash is printed, and whether the submission is retried.
\<close>

section \<open>The skeleton\<close>

record tx_texts =
  t_NewCall :: string
  t_Key :: string
  t_Storage :: string
  t_Sign :: string
  t_SubmitFirst :: string
  t_Submit :: string
  t_Raw :: string
  t_Sub :: string
  t_Hex :: "bytes \<Rightarrow> string"
  t_Retry :: bool

definition priority_msg :: string where "priority_msg = ''Priority is too low''"

text \<open>
  \<open>types.NewExtrinsic\<close> returns no error, so the check after it is never taken.

  The retry loop: every attempt signs with the account's nonce plus one.  The result is the
  subscription, or the wrapping message and the error the function returns.
\<close>

fun retry_submit ::
  "('api, 'w) gsrpc \<Rightarrow> tx_texts \<Rightarrow> 'api \<Rightarrow> tx_call \<Rightarrow> u32 \<Rightarrow> nat \<Rightarrow> go_error \<Rightarrow> 'w
   \<Rightarrow> ((string \<times> go_error) + sub_event list) \<times> 'w" where
  "retry_submit G T api call nonce 0 err w = (Inl (t_Submit T, err), w)"
| "retry_submit G T api call nonce (Suc left) err w =
     (case Sign G call (nonce + 1) of
        Some e \<Rightarrow> (Inl (''[Sign]'', e), w)
      | None \<Rightarrow>
          (case rpc_Submit G api (call, nonce + 1) w of
             (Inr sub, w1) \<Rightarrow> (Inr sub, w1)
           | (Inl e, w1) \<Rightarrow> retry_submit G T api call nonce left e w1))"

text \<open>
  The loop over the subscription.  \<open>expected\<close> is the test on the decoded events; \<open>txhash\<close>
  is still empty when the loop starts.
\<close>

fun watch_sub ::
  "('api, 'w) gsrpc \<Rightarrow> tx_texts \<Rightarrow> (EventRecords \<Rightarrow> bool) \<Rightarrow> 'api \<Rightarrow> sub_event list \<Rightarrow> 'w
   \<Rightarrow> (string \<times> go_error option) \<times> 'w" where
  "watch_sub G T expected api [] w = (([], Some ERR_RPC_TIMEOUT), w)"
| "watch_sub G T expected api (OtherStatus # evs) w = watch_sub G T expected api evs w"
| "watch_sub G T expected api (SubErr err # evs) w =
     (([], map_option (wrap_error (t_Sub T)) err), w)"
| "watch_sub G T expected api (InBlock h # evs) w =
     (let txhash = t_Hex T h in
      case rpc_GetStorageRaw G api h w of
        (Inl err, w1) \<Rightarrow> ((txhash, Some (wrap_error (t_Raw T) err)), w1)
      | (Inr raw, w1) \<Rightarrow>
          (if expected (DecodeEvents G raw) then ((txhash, None), w1)
           else ((txhash, Some ERR_Failed), w1)))"

definition submit_tx ::
  "('api, 'w) gsrpc \<Rightarrow> tx_texts \<Rightarrow> string \<Rightarrow> (EventRecords \<Rightarrow> bool) \<Rightarrow> tx_call
   \<Rightarrow> 'api chainClient \<Rightarrow> 'w \<Rightarrow> (string \<times> go_error option) outcome \<times> 'api chainClient \<times> 'w" where
  "submit_tx G T name expected call c w =
     (case NewCall G name call of Some e \<Rightarrow> (Ret ([], Some (wrap_error (t_NewCall T) e)), c, w)
      | None \<Rightarrow>
     (case CreateStorageKey G SYSTEM ACCOUNT (Some (cc_publicKey c)) of
        Inl e \<Rightarrow> (Ret ([], Some (wrap_error (t_Key T) e)), c, w)
      | Inr key \<Rightarrow>
     (case cc_api c of None \<Rightarrow> (Panic, c, w)
      | Some api \<Rightarrow>
     (case rpc_GetStorageLatest G api key w of
        (Inl e, w1) \<Rightarrow> (Ret ([], Some (wrap_error (t_Storage T) e)), c, w1)
      | (Inr None, w1) \<Rightarrow> (Ret ([], Some ERR_RPC_EMPTY_VALUE), c, w1)
      | (Inr (Some raw), w1) \<Rightarrow>
     (case DecAccountInfo G raw of
        Inl e \<Rightarrow> (Ret ([], Some (wrap_error (t_Storage T) e)), c, w1)
      | Inr acc \<Rightarrow>
     (case Sign G call (ai_Nonce acc) of
        Some e \<Rightarrow> (Ret ([], Some (wrap_error (t_Sign T) e)), c, w1)
      | None \<Rightarrow>
     (case (case rpc_Submit G api (call, ai_Nonce acc) w1 of
              (Inr sub, w2) \<Rightarrow> (Inr sub, w2)
            | (Inl e, w2) \<Rightarrow>
                if \<not> t_Retry T \<or> \<not> contains_sub priority_msg e
                then (Inl (t_SubmitFirst T, e), w2)
                else retry_submit G T api call (ai_Nonce acc) 20 e w2) of
        (Inl (msg, e), w2) \<Rightarrow> (Ret ([], Some (wrap_error msg e)), c, w2)
      | (Inr sub, w2) \<Rightarrow>
          (case watch_sub G T expected api sub w2 of (r, w3) \<Rightarrow> (Ret r, c, w3)))))))))"

section \<open>The transactions\<close>

definition EncodeToHex :: "bytes \<Rightarrow> string" where
  "EncodeToHex h = ''0x'' @ hex_EncodeToString h"

definition texts_bracketed :: tx_texts where
  "texts_bracketed = \<lparr>t_NewCall = ''[NewCall]'',
     t_Key = ''[CreateStorageKey]'', t_Storage = ''[GetStorageLatest]'', t_Sign = ''[Sign]'',
     t_SubmitFirst = ''[SubmitAndWatchExtrinsic]'', t_Submit = ''[SubmitAndWatchExtrinsic]'', t_Raw = ''[GetStorageRaw]'', t_Sub = ''sub'',
     t_Hex = EncodeToHex, t_Retry = True\<rparr>"

definition no_connection :: "string \<times> go_error option" where
  "no_connection = ([], Some ERR_RPC_CONNECTION)"

text \<open>
  The octets of an address: \<open>strings.Split(ip, ".")\<close>, the first four parts read by
  \<open>Atoi\<close> with the error dropped and cut to a byte.  Fewer than four parts panic.
\<close>

definition ipv4_octets :: "string \<Rightarrow> u8 list outcome" where
  "ipv4_octets ip =
     (let ips = split_char CHR ''.'' ip in
      if length ips < 4 then Panic
      else Ret (map (\<lambda>i. word_of_int (fst (Atoi (ips ! i)))) [0..<4]))"

definition Register ::
  "('api, 'w) gsrpc \<Rightarrow> (string \<Rightarrow> bytes) \<Rightarrow> (bytes \<Rightarrow> bytes) \<Rightarrow> string \<Rightarrow> string \<Rightarrow> u16
   \<Rightarrow> 'api chainClient \<Rightarrow> 'w \<Rightarrow> (string \<times> go_error option) outcome \<times> 'api chainClient \<times> 'w" where
  "Register G b58dec sum512 stash ip port =
     with_connection G no_connection (\<lambda>c w.
       case DecodePublicKeyOfCessAccount b58dec sum512 stash of
         Inl err \<Rightarrow> (Ret ([], Some (wrap_error ''DecodePublicKeyOfCessAccount'' err)), c, w)
       | Inr stashPuk \<Rightarrow>
           if \<not> IsIPv4 ip then (Ret ([], Some ''unsupported ip format''), c, w)
           else case ipv4_octets ip of Panic \<Rightarrow> (Panic, c, w)
            | Ret octets \<Rightarrow>
                (case NewAccountID stashPuk of Inl _ \<Rightarrow> (Panic, c, w)
                 | Inr acc \<Rightarrow>
                     submit_tx G (texts_bracketed\<lparr>t_Storage := ''GetStorageLatest'',
                          t_Raw := ''GetStorageRaw'', t_Sub := ''[sub]''\<rparr>)
                       TX_TEEWORKER_REGISTER
                       (\<lambda>ev. length (filter is_RegistrationScheduler (ev_TeeWorker ev)) > 0)
                       (Call_Register acc \<lparr>ip_Index = 0, ip_Value = octets, ip_Port = port\<rparr>) c w))"

definition SubmitFileMeta ::
  "('api, 'w) gsrpc \<Rightarrow> string \<Rightarrow> u64 \<Rightarrow> BlockInfo list
   \<Rightarrow> 'api chainClient \<Rightarrow> 'w \<Rightarrow> (string \<times> go_error option) outcome \<times> 'api chainClient \<times> 'w" where
  "SubmitFileMeta G fid fsize block =
     with_connection G no_connection (\<lambda>c w.
       if length fid \<noteq> len_FileHash then (Ret ([], Some ERR_Failed), c, w)
       else submit_tx G \<lparr>t_NewCall = ''NewCall'',
                t_Key = ''CreateStorageKey'', t_Storage = ''GetStorageLatest err'', t_Sign = ''Sign'',
                t_SubmitFirst = ''[SubmitAndWatchExtrinsic]'',
                t_Submit = ''SubmitAndWatchExtrinsic err'', t_Raw = ''GetStorageRaw'', t_Sub = ''sub'',
                t_Hex = hex_EncodeToString, t_Retry = True\<rparr>
              TX_FILEBANK_UPLOAD
              (\<lambda>ev. length (filter is_FileUpload (ev_FileBank ev)) > 0)
              (Call_Upload (bytes_of_string fid) fsize block) c w)"

definition SubmitFillerMeta ::
  "('api, 'w) gsrpc \<Rightarrow> AccountID \<Rightarrow> FillerMetaInfo list
   \<Rightarrow> 'api chainClient \<Rightarrow> 'w \<Rightarrow> (string \<times> go_error option) outcome \<times> 'api chainClient \<times> 'w" where
  "SubmitFillerMeta G miner_acc info =
     with_connection G no_connection
       (submit_tx G (texts_bracketed\<lparr>t_Raw := ''GetStorageRaw''\<rparr>) TX_FILEBANK_UPLOADFILLER
         (\<lambda>ev. length (filter is_FillerUpload (ev_FileBank ev)) > 0)
         (Call_UploadFiller miner_acc info))"

definition SubmitProofResults ::
  "('api, 'w) gsrpc \<Rightarrow> ProofResult list
   \<Rightarrow> 'api chainClient \<Rightarrow> 'w \<Rightarrow> (string \<times> go_error option) outcome \<times> 'api chainClient \<times> 'w" where
  "SubmitProofResults G data =
     with_connection G no_connection
       (submit_tx G (texts_bracketed\<lparr>t_Retry := False\<rparr>) TX_AUDIT_VERIFYPROOF
         (\<lambda>ev. length (filter is_VerifyProofEv (ev_SegmentBook ev)) > 0)
         (Call_VerifyProof data))"

definition Update ::
  "('api, 'w) gsrpc \<Rightarrow> string \<Rightarrow> string
   \<Rightarrow> 'api chainClient \<Rightarrow> 'w \<Rightarrow> (string \<times> go_error option) outcome \<times> 'api chainClient \<times> 'w" where
  "Update G ip port =
     with_connection G no_connection (\<lambda>c w.
       if \<not> IsIPv4 ip then (Ret ([], Some ''unsupported ip format''), c, w)
       else case ipv4_octets ip of Panic \<Rightarrow> (Panic, c, w)
        | Ret octets \<Rightarrow>
            submit_tx G texts_bracketed TX_TEEWORKER_UPDATE
              (\<lambda>ev. length (filter is_UpdateScheduler (ev_TeeWorker ev)) > 0)
              (Call_UpdateScheduler \<lparr>ip_Index = 0, ip_Value = octets,
                 ip_Port = word_of_int (fst (Atoi port))\<rparr>) c w)"

section \<open>Lemmas\<close>

subsection \<open>Addresses\<close>

lemma length_split_char: "length (split_char c s) = count_list s c + 1"
  by (induction s) (auto split: list.splits)

lemma dtoi_no_dot: "dtoi n i s = Some (m, k) \<Longrightarrow> count_list (take (k - i) s) CHR ''.'' = 0 \<and> i \<le> k"
proof (induction n i s arbitrary: m k rule: dtoi.induct)
  case (2 n i c s)
  show ?case
  proof (cases "is_digit c")
    case True
    let ?n' = "n * 10 + digit_val c"
    have lt: "\<not> 16777215 \<le> ?n'" and rec: "dtoi ?n' (i + 1) s = Some (m, k)"
      using "2.prems" True by (auto simp: Let_def split: if_splits)
    have IH: "count_list (take (k - (i + 1)) s) CHR ''.'' = 0 \<and> i + 1 \<le> k"
      using "2.IH" [OF True refl lt rec] .
    then obtain d where "k - i = Suc d" "k - (i + 1) = d"
      by (metis Suc_diff_Suc Suc_eq_plus1 Suc_le_lessD)
    with IH True not_digit_sign [OF True] show ?thesis by simp
  next
    case False
    with "2.prems" show ?thesis by (auto split: if_splits)
  qed
qed (auto split: if_splits)

lemma count_list_take_drop: "count_list s c = count_list (take n s) c + count_list (drop n s) c"
  by (metis append_take_drop_id count_list_append)

lemma parse_octets_dots: "parse_octets k False s = Some r \<Longrightarrow> k \<le> count_list s CHR ''.''"
proof (induction k arbitrary: s r)
  case (Suc k)
  from Suc.prems obtain t n c r' where s: "s = CHR ''.'' # t" and d: "dtoi 0 0 t = Some (n, c)"
    and rec: "parse_octets k False (drop c t) = Some r'"
    by (auto split: list.splits option.splits prod.splits if_splits)
  have "k \<le> count_list (drop c t) CHR ''.''" using Suc.IH [OF rec] .
  also have "\<dots> \<le> count_list t CHR ''.''" using count_list_take_drop [of t _ c] by simp
  finally show ?case using s by simp
qed simp

lemma parseIPv4_dots: "parseIPv4 s \<noteq> None \<Longrightarrow> 3 \<le> count_list s CHR ''.''"
proof -
  assume "parseIPv4 s \<noteq> None"
  then have "parse_octets (Suc 3) True s \<noteq> None" by (simp add: parseIPv4_def eval_nat_numeral)
  then obtain c r' where "parse_octets 3 False (drop c s) = Some r'"
    by (simp only: parse_octets.simps(2) if_True option.case) (auto split: option.splits prod.splits if_splits)
  then have "3 \<le> count_list (drop c s) CHR ''.''" by (rule parse_octets_dots)
  also have "\<dots> \<le> count_list s CHR ''.''" using count_list_take_drop [of s _ c] by simp
  finally show ?thesis .
qed

lemma xtoi_no_dot: "xtoi n i s = Some (m, k) \<Longrightarrow> CHR ''.'' \<notin> set (take (k - i) s) \<and> i \<le> k"
proof (induction n i s arbitrary: m k rule: xtoi.induct)
  case (2 n i c s)
  show ?case
  proof (cases "hex_val c")
    case None
    with "2.prems" show ?thesis by (auto split: if_splits)
  next
    case (Some d)
    let ?n' = "n * 16 + d"
    have lt: "\<not> 16777215 \<le> ?n'" and rec: "xtoi ?n' (i + 1) s = Some (m, k)"
      using "2.prems" Some by (auto simp: Let_def split: if_splits)
    have IH: "CHR ''.'' \<notin> set (take (k - (i + 1)) s) \<and> i + 1 \<le> k"
      using "2.IH" [OF Some refl lt rec] .
    then obtain d' where "k - i = Suc d'" "k - (i + 1) = d'"
      by (metis Suc_diff_Suc Suc_eq_plus1 Suc_le_lessD)
    moreover have "c \<noteq> CHR ''.''" using Some by (auto simp: hex_val_def)
    ultimately show ?thesis using IH by auto
  qed
qed (auto split: if_splits)

lemma parse_groups_dots:
  "parse_groups i ell s \<Longrightarrow> CHR ''.'' \<in> set s \<Longrightarrow> 3 \<le> count_list s CHR ''.''"
proof (induction i ell s rule: parse_groups.induct)
  case (1 i ell s)
  note unf = parse_groups.simps [of i ell s]
  from "1.prems" unf have i: "\<not> 16 \<le> i" by (cases "16 \<le> i") auto
  with "1.prems"(1) unf obtain n c where x: "xtoi 0 0 s = Some (n, c)"
    by (cases "xtoi 0 0 s") auto
  with "1.prems"(1) unf i have n: "\<not> 65535 < n" by (cases "65535 < n") auto
  have nodot: "CHR ''.'' \<notin> set (take c s)" using xtoi_no_dot [OF x] by simp
  show ?case
  proof (cases "c < length s \<and> s ! c = CHR ''.''")
    case True
    with "1.prems"(1) unf i x n have "parseIPv4 s \<noteq> None" by (cases "parseIPv4 s") auto
    then show ?thesis by (rule parseIPv4_dots)
  next
    case False
    show ?thesis
    proof (cases "drop c s")
      case Nil
      with nodot "1.prems"(2) show ?thesis by simp
    next
      case (Cons d t)
      have sd: "s = take c s @ d # t" using Cons by (metis append_take_drop_id)
      have B: "if d \<noteq> CHR '':'' \<or> t = [] then False
           else if hd t = CHR '':''
           then (if ell then False else if tl t = [] then i + 2 < 16 else parse_groups (i + 2) True (tl t))
           else parse_groups (i + 2) ell t"
        using "1.prems"(1) by (simp only: unf i x n False Cons if_False option.case prod.case list.case)
      then have d: "d = CHR '':''" and t: "t \<noteq> []" by (metis, metis)
      have "CHR ''.'' \<in> set (take c s @ d # t)" using "1.prems"(2) sd by metis
      then have inT: "CHR ''.'' \<in> set t" using nodot d by simp
      have "3 \<le> count_list t CHR ''.''"
      proof (cases "hd t = CHR '':''")
        case True
        then obtain t' where t': "t = CHR '':'' # t'" using t by (cases t) auto
        with inT have inT': "CHR ''.'' \<in> set t'" by simp
        then have g: "\<not> ell" "tl t \<noteq> []" "parse_groups (i + 2) True (tl t)"
          using B d t True t' by (auto split: if_splits)
        have "3 \<le> count_list (tl t) CHR ''.''"
          by (rule "1.IH"(1) [OF i x refl n False Cons _ True]) (use g d t inT' t' in auto)
        then show ?thesis using t' by simp
      next
        case hd: False
        then have g: "parse_groups (i + 2) ell t" using B d t by simp
        show ?thesis
          by (rule "1.IH"(2) [OF i x refl n False Cons _ hd]) (use g d t inT in auto)
      qed
      also have "\<dots> \<le> count_list s CHR ''.''" by (subst sd) simp
      finally show ?thesis .
    qed
  qed
qed

lemma ParseIP_scan_cases: "ParseIP_scan s t \<Longrightarrow> parseIPv4 s \<noteq> None \<or> parseIPv6 s"
  by (induction t) (auto split: if_splits)

lemma IsIPv4_dots:
  assumes "IsIPv4 ip"
  shows "3 \<le> count_list ip CHR ''.''"
proof -
  have dot: "CHR ''.'' \<in> set ip" and "ParseIP_scan ip ip"
    using assms by (auto simp: IsIPv4_def ParseIP_ok_def contains_sub_single)
  then consider "parseIPv4 ip \<noteq> None" | "parseIPv6 ip" using ParseIP_scan_cases by blast
  then show ?thesis
  proof cases
    case 1
    then show ?thesis by (rule parseIPv4_dots)
  next
    case 2
    show ?thesis
    proof (cases "take 2 ip = ''::''")
      case True
      then have ip: "ip = ''::'' @ drop 2 ip" by (metis append_take_drop_id)
      then have "CHR ''.'' \<in> set (''::'' @ drop 2 ip)" using dot by metis
      then have d: "CHR ''.'' \<in> set (drop 2 ip)" by simp
      then have "parse_groups 0 True (drop 2 ip)" using 2 True by (auto simp: parseIPv6_def)
      then have "3 \<le> count_list (drop 2 ip) CHR ''.''" using d by (rule parse_groups_dots)
      also have "\<dots> \<le> count_list ip CHR ''.''" using count_list_take_drop [of ip _ 2] by simp
      finally show ?thesis .
    next
      case False
      then have "parse_groups 0 False ip" using 2 by (simp add: parseIPv6_def)
      then show ?thesis using dot by (rule parse_groups_dots)
    qed
  qed
qed

lemma ipv4_octets_show: "ipv4_octets (show_ipv4 a b c d) = Ret [a, b, c, d]"
proof -
  have *: "(word_of_int (fst (Atoi (show_nat (unat x)))) :: u8) = x" for x :: u8
    using Atoi_show_nat [of "unat x"] unat_byte_lt [of x] by simp
  show ?thesis
    by (simp add: ipv4_octets_def split_show_ipv4 upt_rec * Let_def)
qed

subsection \<open>Connections\<close>

lemma with_connection_state:
  "(\<And>c w. cc_chainState (fst (snd (body c w))) = cc_chainState c) \<Longrightarrow>
   cc_chainState (fst (snd (with_connection G fl body c w))) = fst (IsChainClientOk G c w)"
  by (cases "IsChainClientOk G c w") (auto simp: with_connection_def SetChainState_def)

lemma with_connection_keeps_nil:
  "(\<And>c w. cc_api c = None \<Longrightarrow> cc_api (fst (snd (body c w))) = None) \<Longrightarrow> cc_api c = None \<Longrightarrow>
   cc_api (fst (snd (with_connection G fl body c w))) = None"
  by (simp add: with_connection_nil SetChainState_def)

lemma submit_tx_client [simp]: "fst (snd (submit_tx G T name ex call c w)) = c"
  by (simp add: submit_tx_def split: option.split sum.split prod.split)

lemma submit_tx_nil:
  "cc_api c = None \<Longrightarrow> NewCall G name call = None \<Longrightarrow>
   CreateStorageKey G SYSTEM ACCOUNT (Some (cc_publicKey c)) = Inr key \<Longrightarrow>
   submit_tx G T name ex call c w = (Panic, c, w)"
  by (simp add: submit_tx_def)

subsection \<open>Confirmation\<close>

lemma watch_sub_None:
  "watch_sub G T ex api evs w = ((h, None), w') \<Longrightarrow>
   h = [] \<or> (\<exists>hash raw w2. h = t_Hex T hash \<and> rpc_GetStorageRaw G api hash w2 = (Inr raw, w')
     \<and> ex (DecodeEvents G raw))"
proof (induction evs)
  case (Cons ev evs)
  then show ?case
    by (cases ev) (auto simp: Let_def split: sum.splits prod.splits if_splits)
qed simp

lemma submit_tx_None:
  assumes "submit_tx G T name ex call c w = (Ret (h, None), c', w')" "h \<noteq> []"
  shows "\<exists>api hash raw w2. h = t_Hex T hash \<and> rpc_GetStorageRaw G api hash w2 = (Inr raw, w')
     \<and> ex (DecodeEvents G raw)"
proof -
  obtain api sub w2 where "watch_sub G T ex api sub w2 = ((h, None), w')"
    using assms(1) unfolding submit_tx_def
    by (auto split: option.splits sum.splits prod.splits if_splits)
  with assms(2) show ?thesis by (metis watch_sub_None)
qed

subsection \<open>Counting submissions\<close>

text \<open>The same library over a world that also records every submitted call and nonce.\<close>

definition logged :: "('api, 'w) gsrpc \<Rightarrow> ('api, 'w \<times> (tx_call \<times> u32) list) gsrpc" where
  "logged G = \<lparr>
     rpc_connect = (\<lambda>s (w, l). case rpc_connect G s w of (r, w') \<Rightarrow> (r, (w', l))),
     rpc_Health = (\<lambda>a (w, l). case rpc_Health G a w of (r, w') \<Rightarrow> (r, (w', l))),
     rpc_GetStorageLatest = (\<lambda>a k (w, l). case rpc_GetStorageLatest G a k w of (r, w') \<Rightarrow> (r, (w', l))),
     rpc_GetStorageRaw = (\<lambda>a k (w, l). case rpc_GetStorageRaw G a k w of (r, w') \<Rightarrow> (r, (w', l))),
     rpc_Submit = (\<lambda>a x (w, l). case rpc_Submit G a x w of (r, w') \<Rightarrow> (r, (w', l @ [x]))),
     CreateStorageKey = CreateStorageKey G, NewCall = NewCall G,
     Sign = Sign G, Encode = Encode G, DecodeEvents = DecodeEvents G, DecMiner = DecMiner G,
     DecAccounts = DecAccounts G, DecFileMeta = DecFileMeta G, DecSchedulers = DecSchedulers G,
     DecProofs = DecProofs G, DecAccountInfo = DecAccountInfo G\<rparr>"

lemma logged_simps [simp]:
  "rpc_Health (logged G) a (w, l) = (case rpc_Health G a w of (r, w') \<Rightarrow> (r, (w', l)))"
  "rpc_connect (logged G) s (w, l) = (case rpc_connect G s w of (r, w') \<Rightarrow> (r, (w', l)))"
  "rpc_GetStorageLatest (logged G) a k (w, l)
     = (case rpc_GetStorageLatest G a k w of (r, w') \<Rightarrow> (r, (w', l)))"
  "rpc_GetStorageRaw (logged G) a k (w, l)
     = (case rpc_GetStorageRaw G a k w of (r, w') \<Rightarrow> (r, (w', l)))"
  "rpc_Submit (logged G) a x (w, l) = (case rpc_Submit G a x w of (r, w') \<Rightarrow> (r, (w', l @ [x])))"
  by (simp_all add: logged_def)

lemma retry_submit_log:
  "\<exists>k \<le> left. snd (snd (retry_submit (logged G) T api call n left e (w, l)))
     = l @ replicate k (call, n + 1)"
proof (induction left arbitrary: e w l)
  case (Suc left)
  show ?case
  proof (cases "Sign (logged G) call (n + 1)")
    case None
    obtain r w1 where s: "rpc_Submit G api (call, n + 1) w = (r, w1)" by (cases "rpc_Submit G api (call, n + 1) w")
    show ?thesis
    proof (cases r)
      case (Inl e')
      obtain k where "k \<le> left" "snd (snd (retry_submit (logged G) T api call n left e'
          (w1, l @ [(call, n + 1)]))) = (l @ [(call, n + 1)]) @ replicate k (call, n + 1)"
        using Suc.IH by blast
      with None s Inl show ?thesis by (intro exI [of _ "Suc k"]) simp
    next
      case (Inr sub)
      with None s show ?thesis by (intro exI [of _ 1]) simp
    qed
  qed (auto intro: exI [of _ 0])
qed simp

lemma watch_sub_log: "snd (snd (watch_sub (logged G) T ex api evs (w, l))) = l"
proof (induction evs)
  case (Cons ev evs)
  then show ?case
    by (cases ev) (auto simp: Let_def split: sum.split prod.split)
qed simp

lemma watch_sub_logD:
  "watch_sub (logged G) T ex api evs (w, l) = (q, (w', l')) \<Longrightarrow> l' = l"
  using watch_sub_log [of G T ex api evs w l] by simp

lemma submit_tx_log:
  "snd (snd (snd (submit_tx (logged G) T name ex call c (w, l)))) = l
   \<or> (\<exists>n k. snd (snd (snd (submit_tx (logged G) T name ex call c (w, l))))
        = l @ (call, n) # replicate k (call, n + 1) \<and> k \<le> (if t_Retry T then 20 else 0))"
  (is "?log (submit_tx (logged G) T name ex call c (w, l)) = l \<or> ?R")
proof (cases "NewCall (logged G) name call = None")
  case pre: True
  show ?thesis
  proof (cases "CreateStorageKey (logged G) SYSTEM ACCOUNT (Some (cc_publicKey c))")
    case key: (Inr key)
    show ?thesis
    proof (cases "cc_api c")
      case api: (Some api)
      obtain r w1 where st: "rpc_GetStorageLatest G api key w = (r, w1)"
        by (cases "rpc_GetStorageLatest G api key w")
      show ?thesis
      proof (cases "\<exists>raw acc. r = Inr (Some raw) \<and> DecAccountInfo (logged G) raw = Inr acc
          \<and> Sign (logged G) call (ai_Nonce acc) = None")
        case True
        then obtain raw acc where r: "r = Inr (Some raw)" "DecAccountInfo (logged G) raw = Inr acc"
          "Sign (logged G) call (ai_Nonce acc) = None" by blast
        let ?n = "ai_Nonce acc"
        let ?tail = "\<lambda>x. case x of (Inl (msg, e), w2) \<Rightarrow> (Ret ([], Some (wrap_error msg e)), c, w2)
           | (Inr sub, w2) \<Rightarrow>
               (case watch_sub (logged G) T ex api sub w2 of (q, w3) \<Rightarrow> (Ret q, c, w3))"
        let ?first = "case rpc_Submit (logged G) api (call, ?n) (w1, l) of
              (Inr sub, w2) \<Rightarrow> (Inr sub, w2)
            | (Inl e, w2) \<Rightarrow>
                if \<not> t_Retry T \<or> \<not> contains_sub priority_msg e
                then (Inl (t_SubmitFirst T, e), w2)
                else retry_submit (logged G) T api call ?n 20 e w2"
        have eq: "submit_tx (logged G) T name ex call c (w, l) = ?tail ?first"
          using pre key api st r by (simp add: submit_tx_def)
        have tail: "?log (?tail x) = snd (snd x)" for x
          by (cases x; cases "fst x")
             (auto split: prod.split dest: watch_sub_logD)
        obtain q w2 where sub: "rpc_Submit G api (call, ?n) w1 = (q, w2)"
          by (cases "rpc_Submit G api (call, ?n) w1")
        have "\<exists>k \<le> (if t_Retry T then 20 else 0). snd (snd ?first) = l @ (call, ?n) # replicate k (call, ?n + 1)"
          using retry_submit_log [of 20 G T api call ?n _ w2 "l @ [(call, ?n)]"] sub
          by (cases q) auto
        then show ?thesis unfolding eq tail by blast
      next
        case False
        then have "submit_tx (logged G) T name ex call c (w, l)
            = (fst (submit_tx (logged G) T name ex call c (w, l)), c, (w1, l))"
          using pre key api st unfolding submit_tx_def
          by (cases r; auto split: option.splits sum.splits)
        then show ?thesis by (metis snd_conv)
      qed
    qed (use pre key in \<open>simp add: submit_tx_def\<close>)
  qed (use pre in \<open>simp add: submit_tx_def\<close>)
qed (auto simp: submit_tx_def split: option.splits)

lemma submit_tx_log_once:
  assumes "\<not> t_Retry T"
  shows "snd (snd (snd (submit_tx (logged G) T name ex call c (w, l)))) = l
   \<or> (\<exists>n. snd (snd (snd (submit_tx (logged G) T name ex call c (w, l)))) = l @ [(call, n)])"
  using submit_tx_log [of G T name ex call c w l] assms by (auto simp del: append_eq_append_conv2)

lemma submit_tx_log_retry:
  "snd (snd (snd (submit_tx (logged G) T name ex call c (w, l)))) = l
   \<or> (\<exists>n k. snd (snd (snd (submit_tx (logged G) T name ex call c (w, l))))
        = l @ (call, n) # replicate k (call, n + 1) \<and> k \<le> 20)"
proof -
  have "k \<le> (if t_Retry T then 20 else 0) \<Longrightarrow> k \<le> 20" for k :: nat by (simp split: if_splits)
  then show ?thesis using submit_tx_log [of G T name ex call c w l] by blast
qed

lemma IsChainClientOk_log: "snd (snd (snd (IsChainClientOk (logged G) c (w, l)))) = l"
  by (cases "cc_api c"; cases "rpc_Health G (the (cc_api c)) w";
      cases "fst (rpc_Health G (the (cc_api c)) w)";
      cases "rpc_connect G (cc_rpcAddr c) (snd (rpc_Health G (the (cc_api c)) w))";
      cases "fst (rpc_connect G (cc_rpcAddr c) (snd (rpc_Health G (the (cc_api c)) w)))")
     (auto simp: IsChainClientOk_def healthchek_def reconnectChainClient_def)

lemma with_connection_log:
  assumes "\<And>c w l. P l (snd (snd (snd (body c (w, l)))))" "P l l"
  shows "P l (snd (snd (snd (with_connection (logged G) fl body c (w, l)))))"
proof -
  obtain ok c1 w1 l1 where ok: "IsChainClientOk (logged G) c (w, l) = (ok, c1, (w1, l1))"
    by (cases "IsChainClientOk (logged G) c (w, l)") auto
  then have "l1 = l" using IsChainClientOk_log [of G c w l] by simp
  with ok assms show ?thesis by (simp add: with_connection_def)
qed

section \<open>A sample node\<close>

text \<open>
  A concrete library, for evaluation: the world is whether the node is up.  It answers every
  query, and puts every transaction in a block with every event the client waits for.
\<close>

definition sample_events :: EventRecords where
  "sample_events = no_events\<lparr>ev_SegmentBook := [VerifyProofEv [] []],
     ev_FileBank := [FileUpload [], FillerUpload [] 0],
     ev_TeeWorker := [RegistrationScheduler [] zero_Ipv4, UpdateSchedulerEv [] zero_Ipv4]\<rparr>"

definition sample_node :: "(unit, bool) gsrpc" where
  "sample_node = \<lparr>
     rpc_connect = (\<lambda>s up. (if up then Inr () else Inl ''refused'', up)),
     rpc_Health = (\<lambda>a up. (if up then Inr False else Inl ''down'', up)),
     rpc_GetStorageLatest = (\<lambda>a k up. (Inr (Some []), up)),
     rpc_GetStorageRaw = (\<lambda>a h up. (Inr [], up)),
     rpc_Submit = (\<lambda>a x up. (Inr [OtherStatus, InBlock [171]], up)),
     CreateStorageKey = (\<lambda>p i a. Inr []), NewCall = (\<lambda>n c. None),
     Sign = (\<lambda>c n. None), Encode = Inr, DecodeEvents = (\<lambda>b. sample_events),
     DecMiner = (\<lambda>b. Inl ''no miner''), DecAccounts = (\<lambda>b. Inr [[1]]),
     DecFileMeta = (\<lambda>b. Inl ''no file''), DecSchedulers = (\<lambda>b. Inr []), DecProofs = (\<lambda>b. Inr []),
     DecAccountInfo = (\<lambda>b. Inr \<lparr>ai_Nonce = 7, ai_Free = 0\<rparr>)\<rparr>"

definition sample_client :: "unit chainClient" where
  "sample_client = \<lparr>cc_api = Some (), cc_chainState = True, cc_publicKey = replicate 32 1,
     cc_URI = [], cc_rpcAddr = [], cc_stash = []\<rparr>"

lemmas sample_defs = sample_node_def sample_client_def sample_events_def

lemma sample_client_ok [simp]:
  "IsChainClientOk sample_node sample_client True = (True, sample_client, True)"
  "IsChainClientOk sample_node sample_client False
     = (False, sample_client\<lparr>cc_api := None\<rparr>, False)"
  by (simp_all add: sample_defs IsChainClientOk_def healthchek_def reconnectChainClient_def)

section \<open>Properties\<close>

text \<open>
  A lost connection is reported as healthy.  When the reconnection fails, the client is left
  without an api; from then on the health check of a nil api panics and recovers to a nil error,
  so \<open>IsChainClientOk\<close> answers true without reconnecting, the chain state becomes available,
  and the next query for the miners panics.
\<close>

theorem lost_connection_reported_healthy:
  assumes "IsChainClientOk G c w = (False, c1, w1)"
    and "CreateStorageKey G SMINER ALLMINER None = Inr key"
  shows "IsChainClientOk G c1 w2 = (True, c1, w2)
    \<and> GetAllStorageMiner G c1 w2 = (Panic, SetChainState True c1, w2)"
proof -
  have nil: "cc_api c1 = None" using IsChainClientOk_False [OF assms(1)] by simp
  then show ?thesis using assms(2)
    by (simp add: GetAllStorageMiner_def with_connection_nil query_latest_nil SetChainState_def)
qed

theorem lost_connection_reported_healthy_witness:
  "IsChainClientOk sample_node (sample_client\<lparr>cc_api := None\<rparr>) True
     = (True, sample_client\<lparr>cc_api := None\<rparr>, True)
   \<and> GetAllStorageMiner sample_node (sample_client\<lparr>cc_api := None\<rparr>) True
     = (Panic, SetChainState True (sample_client\<lparr>cc_api := None\<rparr>), True)"
  by (rule lost_connection_reported_healthy [OF sample_client_ok(2), of "[]"])
     (simp add: sample_node_def)

text \<open>
  The loss is permanent: with a nil api, every query and every transaction leaves the api
  nil, whatever the network does.
\<close>

theorem nil_api_is_permanent:
  assumes "cc_api c = None"
  shows "cc_api (fst (snd (GetStorageMinerInfo G pk c w))) = None
    \<and> cc_api (fst (snd (GetAllStorageMiner G c w))) = None
    \<and> cc_api (fst (snd (GetFileMetaInfo G fid c w))) = None
    \<and> cc_api (fst (snd (GetAllSchedulerInfo G c w))) = None
    \<and> cc_api (fst (snd (GetProofs G c w))) = None
    \<and> cc_api (fst (snd (GetAccountInfo G pk c w))) = None
    \<and> cc_api (fst (snd (SubmitFileMeta G fid fs bs c w))) = None
    \<and> cc_api (fst (snd (SubmitFillerMeta G acc fm c w))) = None
    \<and> cc_api (fst (snd (SubmitProofResults G prs c w))) = None
    \<and> cc_api (fst (snd (Update G ip port c w))) = None
    \<and> cc_api (fst (snd (Register G b58dec blake stash ip p c w))) = None"
  unfolding GetStorageMinerInfo_def GetAllStorageMiner_def GetFileMetaInfo_def
    GetAllSchedulerInfo_def GetProofs_def GetAccountInfo_def SubmitFileMeta_def
    SubmitFillerMeta_def SubmitProofResults_def Update_def Register_def
  by (intro conjI; rule with_connection_keeps_nil [OF _ assms]; simp split: sum.split outcome.split)

theorem nil_api_is_permanent_witness:
  "cc_api (fst (snd (GetProofs sample_node (sample_client\<lparr>cc_api := None\<rparr>) True))) = None"
  using nil_api_is_permanent [of "sample_client\<lparr>cc_api := None\<rparr>" sample_node] by simp

text \<open>
  A transaction is reported successful only with its event.  If submitting file metadata
  returns a hash and no error, the hash prints a block whose decoded events contain a file
  upload.
\<close>

theorem confirmed_upload_has_event:
  assumes "SubmitFileMeta G fid fs bs c w = (Ret (h, None), c', w')" "h \<noteq> []"
  shows "length fid = len_FileHash \<and> (\<exists>api hash raw w2 a. h = hex_EncodeToString hash
    \<and> rpc_GetStorageRaw G api hash w2 = (Inr raw, w')
    \<and> FileUpload a \<in> set (ev_FileBank (DecodeEvents G raw)))"
proof -
  obtain ok c1 w1 where ok: "IsChainClientOk G c w = (ok, c1, w1)" by (cases "IsChainClientOk G c w")
  have ev: "\<exists>a. FileUpload a \<in> set evs" if "length (filter is_FileUpload evs) > 0" for evs
    using that by (induction evs) (auto elim!: is_FileUpload.elims(2) split: if_splits)
  have okT: ok
    using assms ok by (cases ok) (auto simp: SubmitFileMeta_def with_connection_def no_connection_def)
  show ?thesis
  proof (cases "length fid = len_FileHash")
    case True
    then obtain T name where tx: "submit_tx G T name
        (\<lambda>ev. length (filter is_FileUpload (ev_FileBank ev)) > 0)
        (Call_Upload (bytes_of_string fid) fs bs) (SetChainState True c1) w1 = (Ret (h, None), c', w')"
      and hex: "t_Hex T = hex_EncodeToString"
      using assms(1) ok okT by (simp add: SubmitFileMeta_def with_connection_def)
    from submit_tx_None [OF tx assms(2)] hex ev True show ?thesis by metis
  next
    case False
    with assms ok okT show ?thesis by (simp add: SubmitFileMeta_def with_connection_def)
  qed
qed

lemma hex_171: "hex_EncodeToString [171] = ''ab''"
  by code_simp

theorem confirmed_upload_has_event_witness:
  "\<exists>api hash raw w2 a. ''ab'' = hex_EncodeToString hash
    \<and> rpc_GetStorageRaw sample_node api hash w2 = (Inr raw, True)
    \<and> FileUpload a \<in> set (ev_FileBank (DecodeEvents sample_node raw))"
proof -
  have "SubmitFileMeta sample_node (replicate 64 CHR ''0'') 5 [] sample_client True
      = (Ret (''ab'', None), SetChainState True sample_client, True)"
    by (simp add: SubmitFileMeta_def with_connection_def len_FileHash_def)
       (simp add: submit_tx_def sample_defs SetChainState_def hex_171 no_events_def)
  from confirmed_upload_has_event [OF this] show ?thesis by simp
qed

text \<open>
  Submissions are bounded.  Proof results are submitted at most once per call; file and
  filler metadata at most 21 times, first with the account's nonce and then, in every retry,
  with the same successor nonce, and always with the same call.
\<close>

theorem submissions_are_bounded:
  "(\<exists>n. snd (snd (snd (SubmitProofResults (logged G) prs c (w, [])))) \<in> {[], [(Call_VerifyProof prs, n)]})
    \<and> (snd (snd (snd (SubmitFillerMeta (logged G) acc fm c (w, [])))) = []
      \<or> (\<exists>n k. snd (snd (snd (SubmitFillerMeta (logged G) acc fm c (w, []))))
            = (Call_UploadFiller acc fm, n) # replicate k (Call_UploadFiller acc fm, n + 1) \<and> k \<le> 20))
    \<and> (snd (snd (snd (SubmitFileMeta (logged G) fid fs bs c (w, [])))) = []
      \<or> (\<exists>n k. snd (snd (snd (SubmitFileMeta (logged G) fid fs bs c (w, []))))
            = (Call_Upload (bytes_of_string fid) fs bs, n)
              # replicate k (Call_Upload (bytes_of_string fid) fs bs, n + 1) \<and> k \<le> 20))"
proof (intro conjI)
  let ?P = "\<lambda>call m l l'. l' = l \<or> (\<exists>n k. l' = l @ (call, n) # replicate k (call, n + (1::u32)) \<and> k \<le> m)"
  have "(\<lambda>l l'. l' = l \<or> (\<exists>n. l' = l @ [(Call_VerifyProof prs, n)])) []
      (snd (snd (snd (SubmitProofResults (logged G) prs c (w, [])))))"
    unfolding SubmitProofResults_def
    by (rule with_connection_log [where P = "\<lambda>l l'. l' = l \<or> (\<exists>n. l' = l @ [(Call_VerifyProof prs, n)])"])
       (rule submit_tx_log_once, simp, simp)
  then show "\<exists>n. snd (snd (snd (SubmitProofResults (logged G) prs c (w, []))))
      \<in> {[], [(Call_VerifyProof prs, n)]}" by auto
  have "?P (Call_UploadFiller acc fm) 20 [] (snd (snd (snd (SubmitFillerMeta (logged G) acc fm c (w, [])))))"
    unfolding SubmitFillerMeta_def
    by (rule with_connection_log [where P = "?P (Call_UploadFiller acc fm) 20"])
       (rule submit_tx_log_retry, simp)
  then show "snd (snd (snd (SubmitFillerMeta (logged G) acc fm c (w, [])))) = []
      \<or> (\<exists>n k. snd (snd (snd (SubmitFillerMeta (logged G) acc fm c (w, []))))
            = (Call_UploadFiller acc fm, n) # replicate k (Call_UploadFiller acc fm, n + 1) \<and> k \<le> 20)"
    by auto
  have "?P (Call_Upload (bytes_of_string fid) fs bs) 20 []
      (snd (snd (snd (SubmitFileMeta (logged G) fid fs bs c (w, [])))))"
    unfolding SubmitFileMeta_def
    by (rule with_connection_log [where P = "?P (Call_Upload (bytes_of_string fid) fs bs) 20"])
       (split if_split, intro conjI impI, simp, rule submit_tx_log_retry, simp)
  then show "snd (snd (snd (SubmitFileMeta (logged G) fid fs bs c (w, [])))) = []
      \<or> (\<exists>n k. snd (snd (snd (SubmitFileMeta (logged G) fid fs bs c (w, []))))
            = (Call_Upload (bytes_of_string fid) fs bs, n)
              # replicate k (Call_Upload (bytes_of_string fid) fs bs, n + 1) \<and> k \<le> 20)"
    by auto
qed

text \<open>
  Every address \<open>IsIPv4\<close> accepts, the mixed IPv6 forms included, has the four parts that
  \<open>Register\<close> and \<open>Update\<close> index without a check: reading the octets never panics.
\<close>

theorem accepted_address_has_octets:
  assumes "IsIPv4 ip"
  shows "\<exists>vs. ipv4_octets ip = Ret vs \<and> length vs = 4"
  using IsIPv4_dots [OF assms] by (simp add: ipv4_octets_def length_split_char Let_def)

theorem accepted_address_has_octets_witness:
  "\<exists>vs. ipv4_octets (show_ipv4 10 0 255 1) = Ret vs \<and> length vs = 4"
  by (rule accepted_address_has_octets) simp

text \<open>
  Updating with a printed IPv4 address and port sends exactly those octets and that port to
  the chain.
\<close>

theorem update_sends_address:
  "Update G (show_ipv4 a b c d) (show_nat (unat port)) =
     with_connection G no_connection (submit_tx G texts_bracketed TX_TEEWORKER_UPDATE
       (\<lambda>ev. length (filter is_UpdateScheduler (ev_TeeWorker ev)) > 0)
       (Call_UpdateScheduler \<lparr>ip_Index = 0, ip_Value = [a, b, c, d], ip_Port = port\<rparr>))"
proof -
  have "unat port < 2 ^ 63" using unsigned_less [of port, where 'a = nat] by simp
  then have "(word_of_int (fst (Atoi (show_nat (unat port)))) :: u16) = port"
    by (simp add: Atoi_show_nat)
  then show ?thesis by (simp add: Update_def ipv4_octets_show)
qed

lemma mapped_group: "parse_groups (Suc (Suc 0)) True ''1.2.3.4''"
proof -
  have "show_ipv4 1 2 3 4 = ''1.2.3.4''" by code_simp
  then have v4: "parseIPv4 ''1.2.3.4'' = Some [1, 2, 3, 4]"
    using parseIPv4_show_ipv4 [of 1 2 3 4] by simp
  have "xtoi 0 0 ''1.2.3.4'' = Some (1, 1)" by (simp add: hex_val_def Let_def)
  with v4 show ?thesis by (subst parse_groups.simps) (simp del: xtoi.simps)
qed

text \<open>
  \<open>IsIPv4\<close> also accepts an IPv6 address with an embedded IPv4 one, whose first octet
  then reads as 0: the address sent to the chain is not the one given.
\<close>

theorem mapped_address_is_misread:
  "IsIPv4 ''::ffff:1.2.3.4'' \<and> ipv4_octets ''::ffff:1.2.3.4'' = Ret [0, 2, 3, 4]"
proof -
  have x: "xtoi 0 0 ''ffff:1.2.3.4'' = Some (65535, 4)" by (simp add: hex_val_def Let_def)
  have "parse_groups 0 True ''ffff:1.2.3.4''"
    by (subst parse_groups.simps) (simp add: x mapped_group del: xtoi.simps)
  then have "ParseIP_ok ''::ffff:1.2.3.4''"
    by (simp add: ParseIP_ok_def parseIPv6_def)
  moreover have "ipv4_octets ''::ffff:1.2.3.4'' = Ret [0, 2, 3, 4]"
    by (simp add: ipv4_octets_def upt_rec Atoi_def is_digit_def digit_val_def Let_def)
  ultimately show ?thesis by (simp add: IsIPv4_def)
qed

end
