(* ===== verification/GoJson.thy ===== *)
theory GoJson
  imports GoStrings
begin

text \<open>
  The part of encoding/json the program relies on: the compact text \<open>Marshal\<close> prints, the
  parser behind \<open>Unmarshal\<close>, and the decoding of the scalar fields of a struct.  Numbers are kept
  as their literal, as the package does until it knows the field's type.  Text is taken byte by
  byte; bytes from 0x80 on are passed through, as the package does for valid UTF-8.
\<close>

datatype json =
    JNull
  | JBool bool
  | JNum string
  | JStr string
  | JArr "json list"
  | JObj "(string \<times> json) list"

section \<open>Printing\<close>

definition hex4 :: "char \<Rightarrow> string" where
  "hex4 c = [CHR 0x5C, CHR ''u'', CHR ''0'', CHR ''0'', hex_char (of_char c div 16), hex_char (of_char c mod 16)]"

definition needs_hex :: "char \<Rightarrow> bool" where
  "needs_hex c = ((of_char c :: nat) < 32 \<or> c = CHR ''<'' \<or> c = CHR ''>'' \<or> c = CHR ''&'')"

definition escape_char :: "char \<Rightarrow> string" where
  "escape_char c =
     (if c = CHR 0x22 \<or> c = CHR 0x5C then [CHR 0x5C, c]
      else if c = CHR 0x0A then [CHR 0x5C, CHR ''n'']
      else if c = CHR 0x0D then [CHR 0x5C, CHR ''r'']
      else if c = CHR 0x09 then [CHR 0x5C, CHR ''t'']
      else if needs_hex c then hex4 c
      else [c])"

definition print_str :: "string \<Rightarrow> string" where
  "print_str s = CHR 0x22 # concat (map escape_char s) @ [CHR 0x22]"

fun print_json :: "json \<Rightarrow> string"
  and print_elems :: "json list \<Rightarrow> string"
  and print_members :: "(string \<times> json) list \<Rightarrow> string" where
  "print_json JNull = ''null''"
| "print_json (JBool b) = (if b then ''true'' else ''false'')"
| "print_json (JNum l) = l"
| "print_json (JStr s) = print_str s"
| "print_json (JArr xs) = CHR ''['' # print_elems xs @ '']''"
| "print_json (JObj ms) = CHR ''{'' # print_members ms @ ''}''"
| "print_elems [] = []"
| "print_elems (x # xs) = print_json x @ (if xs = [] then [] else CHR '','' # print_elems xs)"
| "print_members [] = []"
| "print_members ((k, v) # ms) =
     print_str k @ CHR '':'' # print_json v @ (if ms = [] then [] else CHR '','' # print_members ms)"

section \<open>Parsing\<close>

definition is_ws :: "char \<Rightarrow> bool" where
  "is_ws c = (c = CHR '' '' \<or> c = CHR 0x09 \<or> c = CHR 0x0A \<or> c = CHR 0x0D)"

definition skip_ws :: "string \<Rightarrow> string" where
  "skip_ws s = dropWhile is_ws s"

text \<open>The UTF-8 bytes of a code point of the basic plane.\<close>

definition utf8 :: "nat \<Rightarrow> string" where
  "utf8 r =
     (if r < 0x80 then [char_of r]
      else if r < 0x800 then [char_of (0xC0 + r div 64), char_of (0x80 + r mod 64)]
      else if 0xD800 \<le> r \<and> r \<le> 0xDFFF then [CHR 0xEF, CHR 0xBF, CHR 0xBD]
      else [char_of (0xE0 + r div 4096), char_of (0x80 + (r div 64) mod 64), char_of (0x80 + r mod 64)])"

definition parse_hex4 :: "string \<Rightarrow> nat option" where
  "parse_hex4 s =
     (case s of
        a # b # c # d # _ \<Rightarrow>
          (case (hex_val a, hex_val b, hex_val c, hex_val d) of
             (Some w, Some x, Some y, Some z) \<Rightarrow> Some (((w * 16 + x) * 16 + y) * 16 + z)
           | _ \<Rightarrow> None)
      | _ \<Rightarrow> None)"

definition unescape :: "char \<Rightarrow> char option" where
  "unescape c =
     (if c = CHR 0x22 \<or> c = CHR 0x5C \<or> c = CHR ''/'' then Some c
      else if c = CHR ''n'' then Some CHR 0x0A
      else if c = CHR ''r'' then Some CHR 0x0D
      else if c = CHR ''t'' then Some CHR 0x09
      else if c = CHR ''b'' then Some CHR 0x08
      else if c = CHR ''f'' then Some CHR 0x0C
      else None)"

text \<open>The text after an opening quote: its value and what follows the closing one.\<close>

function parse_str :: "string \<Rightarrow> (string \<times> string) option" where
  "parse_str s =
     (case s of
        [] \<Rightarrow> None
      | c # r \<Rightarrow>
          if c = CHR 0x22 then Some ([], r)
          else if c = CHR 0x5C then
            (case r of
               [] \<Rightarrow> None
             | e # r1 \<Rightarrow>
                 if e = CHR ''u'' then
                   (case parse_hex4 r1 of
                      None \<Rightarrow> None
                    | Some n \<Rightarrow> map_option (\<lambda>(t, r'). (utf8 n @ t, r')) (parse_str (drop 4 r1)))
                 else
                   (case unescape e of
                      None \<Rightarrow> None
                    | Some x \<Rightarrow> map_option (\<lambda>(t, r'). (x # t, r')) (parse_str r1)))
          else if (of_char c :: nat) < 32 then None
          else map_option (\<lambda>(t, r'). (c # t, r')) (parse_str r))"
  by pat_completeness auto
termination
  by (relation "measure length") auto

declare parse_str.simps [simp del]

definition num_char :: "char \<Rightarrow> bool" where
  "num_char c = (is_digit c \<or> c = CHR ''-'' \<or> c = CHR ''+'' \<or> c = CHR ''.'' \<or> c = CHR ''e'' \<or> c = CHR ''E'')"

definition valid_exp :: "string \<Rightarrow> bool" where
  "valid_exp s =
     (case s of
        [] \<Rightarrow> True
      | c # r \<Rightarrow> (c = CHR ''e'' \<or> c = CHR ''E'')
          \<and> (let d = (if r \<noteq> [] \<and> (hd r = CHR ''+'' \<or> hd r = CHR ''-'') then tl r else r) in
             d \<noteq> [] \<and> list_all is_digit d))"

definition valid_frac :: "string \<Rightarrow> bool" where
  "valid_frac s =
     (case s of
        c # r \<Rightarrow>
          if c = CHR ''.''
          then takeWhile is_digit r \<noteq> [] \<and> valid_exp (dropWhile is_digit r)
          else valid_exp s
      | [] \<Rightarrow> True)"

definition valid_number :: "string \<Rightarrow> bool" where
  "valid_number s =
     (let d = (if s \<noteq> [] \<and> hd s = CHR ''-'' then tl s else s) in
      case d of
        [] \<Rightarrow> False
      | c # r \<Rightarrow>
          is_digit c
          \<and> (if c = CHR ''0'' then valid_frac r else valid_frac (dropWhile is_digit r))
          \<and> list_all num_char s)"

text \<open>
  Recursive descent.  The first argument bounds the recursion; two per character are enough, because
  a value and the list it stands in share its first character.
\<close>

fun parse_value :: "nat \<Rightarrow> string \<Rightarrow> (json \<times> string) option"
  and parse_elems :: "nat \<Rightarrow> string \<Rightarrow> (json list \<times> string) option"
  and parse_members :: "nat \<Rightarrow> string \<Rightarrow> ((string \<times> json) list \<times> string) option" where
  "parse_value 0 s = None"
| "parse_value (Suc n) s =
     (case skip_ws s of
        [] \<Rightarrow> None
      | c # r \<Rightarrow>
          if c = CHR 0x22 then map_option (\<lambda>(t, r'). (JStr t, r')) (parse_str r)
          else if c = CHR ''{'' then
            (case skip_ws r of
               [] \<Rightarrow> None
             | d # r' \<Rightarrow> if d = CHR ''}'' then Some (JObj [], r')
                         else map_option (\<lambda>(ms, r''). (JObj ms, r'')) (parse_members n (d # r')))
          else if c = CHR ''['' then
            (case skip_ws r of
               [] \<Rightarrow> None
             | d # r' \<Rightarrow> if d = CHR '']'' then Some (JArr [], r')
                         else map_option (\<lambda>(xs, r''). (JArr xs, r'')) (parse_elems n (d # r')))
          else if c = CHR ''t'' then
            (if take 3 r = ''rue'' then Some (JBool True, drop 3 r) else None)
          else if c = CHR ''f'' then
            (if take 4 r = ''alse'' then Some (JBool False, drop 4 r) else None)
          else if c = CHR ''n'' then
            (if take 3 r = ''ull'' then Some (JNull, drop 3 r) else None)
          else
            (let l = takeWhile num_char (c # r) in
             if valid_number l then Some (JNum l, drop (length l) (c # r)) else None))"
| "parse_elems 0 s = None"
| "parse_elems (Suc n) s =
     (case parse_value n s of
        None \<Rightarrow> None
      | Some (v, r) \<Rightarrow>
          (case skip_ws r of
             [] \<Rightarrow> None
           | e # r' \<Rightarrow>
               if e = CHR '']'' then Some ([v], r')
               else if e = CHR '','' then map_option (\<lambda>(vs, r''). (v # vs, r'')) (parse_elems n r')
               else None))"
| "parse_members 0 s = None"
| "parse_members (Suc n) s =
     (case skip_ws s of
        [] \<Rightarrow> None
      | c # r \<Rightarrow>
          if c \<noteq> CHR 0x22 then None
          else (case parse_str r of
            None \<Rightarrow> None
          | Some (k, r1) \<Rightarrow>
              (case skip_ws r1 of
                 [] \<Rightarrow> None
               | d # r2 \<Rightarrow>
                   if d \<noteq> CHR '':'' then None
                   else (case parse_value n r2 of
                     None \<Rightarrow> None
                   | Some (v, r3) \<Rightarrow>
                       (case skip_ws r3 of
                          [] \<Rightarrow> None
                        | e # r4 \<Rightarrow>
                            if e = CHR ''}'' then Some ([(k, v)], r4)
                            else if e = CHR '','' then
                              map_option (\<lambda>(ms, r5). ((k, v) # ms, r5)) (parse_members n r4)
                            else None)))))"

text \<open>A document: one value, with nothing but white space around it.\<close>

definition parse_json :: "string \<Rightarrow> json option" where
  "parse_json s =
     (case parse_value (2 * length s + 2) s of
        Some (v, r) \<Rightarrow> if skip_ws r = [] then Some v else None
      | None \<Rightarrow> None)"

section \<open>Scalar fields\<close>

text \<open>
  \<open>Unmarshal\<close> goes through the members in order; a key names a field when they are equal up to
  ASCII case; \<open>null\<close> leaves the field; a value of the wrong type is remembered as the error and
  leaves the field, and the decoding goes on.
\<close>

definition lower :: "char \<Rightarrow> char" where
  "lower c = (if 65 \<le> (of_char c :: nat) \<and> (of_char c :: nat) \<le> 90 then char_of ((of_char c :: nat) + 32) else c)"

definition same_key :: "string \<Rightarrow> string \<Rightarrow> bool" where
  "same_key k name = (map lower k = map lower name)"

definition type_error :: go_error where "type_error = ''json: cannot unmarshal''"

definition get_string :: "json \<Rightarrow> go_error + string option" where
  "get_string v = (case v of JStr s \<Rightarrow> Inr (Some s) | JNull \<Rightarrow> Inr None | _ \<Rightarrow> Inl type_error)"

definition get_bool :: "json \<Rightarrow> go_error + bool option" where
  "get_bool v = (case v of JBool b \<Rightarrow> Inr (Some b) | JNull \<Rightarrow> Inr None | _ \<Rightarrow> Inl type_error)"

text \<open>\<open>ParseUint(lit, 10, bits)\<close>.\<close>

definition get_uint :: "nat \<Rightarrow> json \<Rightarrow> go_error + nat option" where
  "get_uint bits v =
     (case v of
        JNum l \<Rightarrow> if list_all is_digit l \<and> dec_val 0 l < 2 ^ bits then Inr (Some (dec_val 0 l)) else Inl type_error
      | JNull \<Rightarrow> Inr None
      | _ \<Rightarrow> Inl type_error)"

definition json_uint :: "nat \<Rightarrow> json" where
  "json_uint n = JNum (show_nat n)"

definition json_int :: "int \<Rightarrow> json" where
  "json_int i = JNum (if i < 0 then CHR ''-'' # show_nat (nat (- i)) else show_nat (nat i))"

text \<open>
  One decoded member of an object: the record is updated, or the error kept if it is the first.
\<close>

definition set_field :: "(go_error + 'a option) \<Rightarrow> ('a \<Rightarrow> 'r \<Rightarrow> 'r) \<Rightarrow> 'r \<times> go_error option \<Rightarrow> 'r \<times> go_error option" where
  "set_field v upd st =
     (case st of (m, err) \<Rightarrow>
       (case v of
          Inl e \<Rightarrow> (m, (case err of None \<Rightarrow> Some e | Some e0 \<Rightarrow> Some e0))
        | Inr None \<Rightarrow> (m, err)
        | Inr (Some x) \<Rightarrow> (upd x m, err)))"

section \<open>Round trip\<close>

lemma char_cases_256: "(of_char c :: nat) < 256"
  by (rule nat_of_char_less_256)

lemma parse_str_hex4:
  assumes "(of_char c :: nat) < 128"
  shows "parse_str (hex4 c @ t) = map_option (\<lambda>(u, r). (c # u, r)) (parse_str t)"
proof -
  have "of_char c div 16 < (16 :: nat)" using assms by simp
  then have h: "parse_hex4 (CHR ''0'' # CHR ''0'' # hex_char (of_char c div 16) # hex_char (of_char c mod 16) # t)
      = Some (of_char c)"
    by (simp add: parse_hex4_def hex_val_def [of "CHR ''0''"])
  have "utf8 (of_char c) = [c]" using assms by (simp add: utf8_def)
  with h show ?thesis
    by (subst parse_str.simps) (simp add: hex4_def)
qed

lemma parse_str_escape:
  "parse_str (escape_char c @ t) = map_option (\<lambda>(u, r). (c # u, r)) (parse_str t)"
proof -
  have plain: "(of_char c :: nat) < 128" if "needs_hex c" using that by (auto simp: needs_hex_def)
  have eq: "parse_str (CHR 0x5C # e # t) = map_option (\<lambda>(u, r). (x # u, r)) (parse_str t)"
    if "e \<noteq> CHR ''u''" "unescape e = Some x" for e x
    using that by (subst parse_str.simps) simp
  have raw: "parse_str (c # t) = map_option (\<lambda>(u, r). (c # u, r)) (parse_str t)"
    if "c \<noteq> CHR 0x22" "c \<noteq> CHR 0x5C" "\<not> needs_hex c"
    using that by (subst parse_str.simps) (simp add: needs_hex_def)
  show ?thesis
    using parse_str_hex4 [OF plain, of t] eq raw
    by (auto simp: escape_char_def unescape_def)
qed

lemma parse_str_print:
  "parse_str (concat (map escape_char s) @ CHR 0x22 # r) = Some (s, r)"
proof (induction s)
  case Nil
  show ?case by (subst parse_str.simps) simp
next
  case (Cons c s)
  then show ?case by (simp add: parse_str_escape)
qed

text \<open>Values whose numbers are literals of the grammar, and what may follow a value.\<close>

fun json_ok :: "json \<Rightarrow> bool" where
  "json_ok (JNum l) = valid_number l"
| "json_ok (JArr xs) = (\<forall>x \<in> set xs. json_ok x)"
| "json_ok (JObj ms) = (\<forall>m \<in> set ms. json_ok (snd m))"
| "json_ok j = True"

definition stops :: "string \<Rightarrow> bool" where
  "stops r = (r = [] \<or> hd r = CHR '','' \<or> hd r = CHR ''}'' \<or> hd r = CHR '']'')"

lemma valid_number_chars:
  assumes "valid_number l"
  shows "list_all num_char l" "l \<noteq> []" "is_digit (hd l) \<or> hd l = CHR ''-''"
  using assms by (auto simp: valid_number_def Let_def split: list.splits if_splits)

lemma takeWhile_number:
  assumes "list_all num_char l" "stops r"
  shows "takeWhile num_char (l @ r) = l"
proof -
  have "takeWhile num_char r = []"
    using assms(2) by (cases r) (auto simp: stops_def num_char_def is_digit_def)
  then show ?thesis using assms(1) by (simp add: takeWhile_append list_all_iff)
qed

lemma not_ws_digit: "is_digit c \<Longrightarrow> \<not> is_ws c \<and> c \<noteq> CHR 0x22 \<and> c \<noteq> CHR ''{'' \<and> c \<noteq> CHR ''[''
    \<and> c \<noteq> CHR ''t'' \<and> c \<noteq> CHR ''f'' \<and> c \<noteq> CHR ''n'' \<and> c \<noteq> CHR '']'' \<and> c \<noteq> CHR ''}''"
  by (auto simp: is_digit_def is_ws_def)

lemma print_json_head:
  assumes "json_ok j"
  shows "\<exists>c r. print_json j = c # r \<and> \<not> is_ws c \<and> c \<noteq> CHR '']'' \<and> c \<noteq> CHR ''}''"
proof (cases j)
  case (JNum l)
  with assms have v: "valid_number l" by simp
  from valid_number_chars(2) [OF v] obtain c r where l: "l = c # r" by (cases l) simp
  have "is_digit c \<or> c = CHR ''-''" using valid_number_chars(3) [OF v] l by simp
  then have "\<not> is_ws c \<and> c \<noteq> CHR '']'' \<and> c \<noteq> CHR ''}''"
    using not_ws_digit by (elim disjE) (simp_all add: is_ws_def)
  with JNum l show ?thesis by simp
next
  case (JBool b)
  then show ?thesis by (cases b) (simp_all add: is_ws_def)
qed (simp_all add: is_ws_def print_str_def)

lemma skip_ws_cons [simp]: "\<not> is_ws c \<Longrightarrow> skip_ws (c # r) = c # r"
  by (simp add: skip_ws_def)

lemma skip_ws_stops: "stops r \<Longrightarrow> skip_ws r = r"
  by (cases r) (auto simp: stops_def is_ws_def skip_ws_def)

lemma skip_ws_print: "json_ok j \<Longrightarrow> skip_ws (print_json j @ r) = print_json j @ r"
  using print_json_head [of j] by auto

lemma parse_number:
  assumes "valid_number l" "stops r"
  shows "parse_value (Suc n) (l @ r) = Some (JNum l, r)"
proof -
  obtain c s where l: "l = c # s" using valid_number_chars(2) [OF assms(1)] by (cases l) auto
  have c: "is_digit c \<or> c = CHR ''-''" using valid_number_chars(3) [OF assms(1)] l by simp
  have ws: "\<not> is_ws c" using c not_ws_digit by (auto simp: is_ws_def)
  have tw: "takeWhile num_char (c # s @ r) = l"
    using takeWhile_number [OF valid_number_chars(1) [OF assms(1)] assms(2)] l by simp
  have dr: "drop (length l) (c # s @ r) = r" using l by simp
  have ne: "c \<noteq> CHR 0x22" "c \<noteq> CHR ''{''" "c \<noteq> CHR ''[''" "c \<noteq> CHR ''t''" "c \<noteq> CHR ''f''" "c \<noteq> CHR ''n''"
    using c not_ws_digit by auto
  have "parse_value (Suc n) (c # s @ r) =
      (let l = takeWhile num_char (c # s @ r) in
        if valid_number l then Some (JNum l, drop (length l) (c # s @ r)) else None)"
    using ws ne by (simp del: takeWhile.simps)
  then show ?thesis using tw dr assms(1) l by (simp del: takeWhile.simps)
qed

lemma stops_simps [simp]:
  "stops (CHR '','' # r)" "stops (CHR ''}'' # r)" "stops (CHR '']'' # r)" "stops []"
  by (simp_all add: stops_def)

lemma not_ws_simps [simp]:
  "\<not> is_ws CHR '',''" "\<not> is_ws CHR ''}''" "\<not> is_ws CHR '']''" "\<not> is_ws CHR '':''" "\<not> is_ws CHR 0x22"
  "\<not> is_ws CHR ''{''" "\<not> is_ws CHR ''[''"
  by (simp_all add: is_ws_def)

lemma parse_print_str:
  "stops r \<Longrightarrow> parse_value (Suc n) (print_str s @ r) = Some (JStr s, r)"
  by (simp add: print_str_def parse_str_print)

lemma parse_elems_step:
  assumes "parse_value m (print_json x @ t) = Some (x, t)"
  shows "t = CHR '']'' # r \<Longrightarrow> parse_elems (Suc m) (print_json x @ t) = Some ([x], r)"
    and "t = CHR '','' # t' \<Longrightarrow> parse_elems m t' = Some (xs, r) \<Longrightarrow>
      parse_elems (Suc m) (print_json x @ t) = Some (x # xs, r)"
  using assms by simp_all

lemma parse_members_step:
  assumes "parse_value m (print_json v @ t) = Some (v, t)"
  shows "t = CHR ''}'' # r \<Longrightarrow>
      parse_members (Suc m) (print_str k @ CHR '':'' # print_json v @ t) = Some ([(k, v)], r)"
    and "t = CHR '','' # t' \<Longrightarrow> parse_members m t' = Some (ms, r) \<Longrightarrow>
      parse_members (Suc m) (print_str k @ CHR '':'' # print_json v @ t) = Some ((k, v) # ms, r)"
  using assms by (simp_all add: print_str_def parse_str_print)

lemma parse_print:
  shows "json_ok j \<Longrightarrow> stops r \<Longrightarrow> 2 * length (print_json j) \<le> n \<Longrightarrow>
      parse_value n (print_json j @ r) = Some (j, r)"
    and "xs \<noteq> [] \<Longrightarrow> \<forall>x \<in> set xs. json_ok x \<Longrightarrow> 2 * length (print_elems xs) + 1 \<le> n \<Longrightarrow>
      parse_elems n (print_elems xs @ CHR '']'' # r) = Some (xs, r)"
    and "ms \<noteq> [] \<Longrightarrow> \<forall>m \<in> set ms. json_ok (snd m) \<Longrightarrow> 2 * length (print_members ms) + 1 \<le> n \<Longrightarrow>
      parse_members n (print_members ms @ CHR ''}'' # r) = Some (ms, r)"
proof (induction j and xs and ms arbitrary: n r and n r and n r
    rule: print_json_print_elems_print_members.induct)
  case 1
  then obtain m where "n = Suc m" by (cases n) auto
  then show ?case by (simp add: is_ws_def)
next
  case (2 b)
  then obtain m where "n = Suc m" by (cases b; cases n) auto
  then show ?case by (cases b) (simp_all add: is_ws_def)
next
  case (3 l)
  then obtain m where "n = Suc m" using valid_number_chars(2) [of l] by (cases n) auto
  with 3 parse_number [of l r m] show ?case by simp
next
  case (4 s)
  then obtain m where "n = Suc m" by (cases n) (auto simp: print_str_def)
  with 4 parse_print_str [of r m s] show ?case by simp
next
  case (5 xs)
  then obtain m where m: "n = Suc m" by (cases n) auto
  show ?case
  proof (cases xs)
    case Nil
    then show ?thesis using m by simp
  next
    case (Cons x ys)
    then obtain c s where c: "print_elems xs = c # s" "\<not> is_ws c" "c \<noteq> CHR '']''"
      using print_json_head [of x] "5.prems"(1) by auto
    have "parse_elems m (print_elems xs @ CHR '']'' # r) = Some (xs, r)"
      using "5.IH" [of m r] "5.prems" m Cons by simp
    then show ?thesis using m c by simp
  qed
next
  case (6 ms)
  then obtain m where m: "n = Suc m" by (cases n) auto
  show ?case
  proof (cases ms)
    case Nil
    then show ?thesis using m by simp
  next
    case (Cons p ps)
    then obtain s where c: "print_members ms = CHR 0x22 # s"
      by (cases p) (simp add: print_str_def)
    have "parse_members m (print_members ms @ CHR ''}'' # r) = Some (ms, r)"
      using "6.IH" [of m r] "6.prems" m Cons by simp
    then show ?thesis using m c by simp
  qed
next
  case 7
  then show ?case by simp
next
  case (8 x xs)
  then obtain m where m: "n = Suc m" by (cases n) auto
  have x: "json_ok x" and xs: "\<forall>x \<in> set xs. json_ok x" using "8.prems"(2) by auto
  show ?case
  proof (cases "xs = []")
    case True
    have "parse_value m (print_json x @ CHR '']'' # r) = Some (x, CHR '']'' # r)"
      by (rule "8.IH"(1)) (use x m "8.prems"(3) True in simp_all)
    from parse_elems_step(1) [OF this refl] m True show ?thesis by simp
  next
    case False
    let ?t = "print_elems xs @ CHR '']'' # r"
    have "parse_value m (print_json x @ CHR '','' # ?t) = Some (x, CHR '','' # ?t)"
      by (rule "8.IH"(1)) (use x m "8.prems"(3) False in simp_all)
    moreover have "parse_elems m ?t = Some (xs, r)"
      by (rule "8.IH"(2)) (use xs m "8.prems"(3) False in simp_all)
    ultimately have "parse_elems (Suc m) (print_json x @ CHR '','' # ?t) = Some (x # xs, r)"
      by (rule parse_elems_step(2) [OF _ refl])
    with m False show ?thesis by simp
  qed
next
  case 9
  then show ?case by simp
next
  case (10 k v ms)
  then obtain m where m: "n = Suc m" by (cases n) auto
  have v: "json_ok v" and ms: "\<forall>m \<in> set ms. json_ok (snd m)" using "10.prems"(2) by auto
  show ?case
  proof (cases "ms = []")
    case True
    have "parse_value m (print_json v @ CHR ''}'' # r) = Some (v, CHR ''}'' # r)"
      by (rule "10.IH"(1)) (use v m "10.prems"(3) True in simp_all)
    from parse_members_step(1) [OF this refl, of k] m True show ?thesis by simp
  next
    case False
    let ?t = "print_members ms @ CHR ''}'' # r"
    have "parse_value m (print_json v @ CHR '','' # ?t) = Some (v, CHR '','' # ?t)"
      by (rule "10.IH"(1)) (use v m "10.prems"(3) False in simp_all)
    moreover have "parse_members m ?t = Some (ms, r)"
      by (rule "10.IH"(2)) (use ms m "10.prems"(3) False in simp_all)
    ultimately have "parse_members (Suc m) (print_str k @ CHR '':'' # print_json v @ CHR '','' # ?t)
        = Some ((k, v) # ms, r)"
      by (rule parse_members_step(2) [OF _ refl])
    with m False show ?thesis by simp
  qed
qed

lemma parse_json_print [go_std, simp]: "json_ok j \<Longrightarrow> parse_json (print_json j) = Some j"
  using parse_print(1) [of j "[]" "2 * length (print_json j) + 2"]
  by (simp add: parse_json_def skip_ws_def)

lemma valid_number_show_nat [go_std, simp]: "valid_number (show_nat n)"
proof -
  obtain c s where cs: "show_nat n = c # s" using show_nat_nonempty [of n] by (cases "show_nat n") auto
  have d: "is_digit c" "list_all is_digit s" using list_all_is_digit_show_nat [of n] cs by auto
  have dw: "dropWhile is_digit s = []" using d(2) by (simp add: list_all_iff)
  have z: "c = CHR ''0'' \<Longrightarrow> s = []" using show_nat_leading_zero [of n] cs by simp
  have nc: "list_all num_char (c # s)" using d by (auto simp: list_all_iff num_char_def)
  have "c \<noteq> CHR ''-''" using d(1) not_digit_sign by blast
  then show ?thesis using d z nc unfolding cs by (cases "c = CHR ''0''") (simp_all add: valid_number_def valid_frac_def dw del: dropWhile_eq_Nil_conv)
qed

lemma json_ok_uint [simp]: "json_ok (json_uint n)"
  by (simp add: json_uint_def)

lemma get_uint_json_uint [simp]: "n < 2 ^ bits \<Longrightarrow> get_uint bits (json_uint n) = Inr (Some n)"
  by (simp add: get_uint_def json_uint_def)

lemma same_key_refl [simp]: "same_key k k"
  by (simp add: same_key_def)

lemma set_field_ok [simp]: "set_field (Inr (Some x)) upd (m, err) = (upd x m, err)"
  by (simp add: set_field_def)

lemma u64_lt [simp]: "unat (x :: u64) < 2 ^ 64"
  using unsigned_less [of x, where 'a = nat] by simp

lemma get_uint_u64 [simp]: "get_uint 64 (json_uint (unat (x :: u64))) = Inr (Some (unat x))"
  by (rule get_uint_json_uint) (rule u64_lt)

end
