(* ===== verification/GoBase64.thy ===== *)
theory GoBase64
  imports GoBytes
begin

text \<open>
  The standard encoding of encoding/base64: groups of three bytes as four characters, with
  padding.  The decoder skips line breaks and refuses anything after the padding.
\<close>

definition b64_char :: "nat \<Rightarrow> char" where
  "b64_char k =
     (if k < 26 then char_of (65 + k)
      else if k < 52 then char_of (71 + k)
      else if k < 62 then char_of (k - 4)
      else if k = 62 then CHR ''+''
      else CHR ''/'')"

definition b64_val :: "char \<Rightarrow> nat option" where
  "b64_val c =
     (let n = of_char c :: nat in
      if 65 \<le> n \<and> n \<le> 90 then Some (n - 65)
      else if 97 \<le> n \<and> n \<le> 122 then Some (n - 71)
      else if 48 \<le> n \<and> n \<le> 57 then Some (n + 4)
      else if c = CHR ''+'' then Some 62
      else if c = CHR ''/'' then Some 63
      else None)"

fun b64_encode :: "bytes \<Rightarrow> string" where
  "b64_encode [] = []"
| "b64_encode [a] =
     (let n = unat a * 16 in [b64_char (n div 64), b64_char (n mod 64), CHR ''='', CHR ''=''])"
| "b64_encode [a, b] =
     (let n = (unat a * 256 + unat b) * 4 in
      [b64_char (n div 4096), b64_char (n div 64 mod 64), b64_char (n mod 64), CHR ''=''])"
| "b64_encode (a # b # c # r) =
     (let n = (unat a * 256 + unat b) * 256 + unat c in
      b64_char (n div 262144) # b64_char (n div 4096 mod 64) # b64_char (n div 64 mod 64)
        # b64_char (n mod 64) # b64_encode r)"

fun b64_groups :: "string \<Rightarrow> bytes option" where
  "b64_groups [] = Some []"
| "b64_groups (p # q # r # s # t) =
     (case (b64_val p, b64_val q) of
        (Some w, Some x) \<Rightarrow>
          if r = CHR ''='' then
            (if s = CHR ''='' \<and> t = [] then Some [word_of_nat ((w * 64 + x) div 16)] else None)
          else (case b64_val r of
            None \<Rightarrow> None
          | Some y \<Rightarrow>
              if s = CHR ''='' then
                (if t = [] then
                   (let n = ((w * 64 + x) * 64 + y) div 4 in
                    Some [word_of_nat (n div 256), word_of_nat (n mod 256)])
                 else None)
              else (case b64_val s of
                None \<Rightarrow> None
              | Some z \<Rightarrow>
                  (let n = ((w * 64 + x) * 64 + y) * 64 + z in
                   map_option (\<lambda>u. word_of_nat (n div 65536) # word_of_nat (n div 256 mod 256)
                     # word_of_nat (n mod 256) # u) (b64_groups t))))
      | _ \<Rightarrow> None)"
| "b64_groups _ = None"

definition b64_decode :: "string \<Rightarrow> bytes option" where
  "b64_decode s = b64_groups (filter (\<lambda>c. c \<noteq> CHR 0x0A \<and> c \<noteq> CHR 0x0D) s)"

definition b64_DecodedLen :: "nat \<Rightarrow> nat" where
  "b64_DecodedLen n = n div 4 * 3"

section \<open>Round trip\<close>

lemma b64_index_cases:
  fixes k :: nat
  assumes "k < 64"
  obtains "k < 26" | "26 \<le> k" and "k < 52" | j where "k = 52 + j" and "j < 10" | "k = 62" | "k = 63"
proof -
  consider "k < 26" | "26 \<le> k" and "k < 52" | "52 \<le> k" and "k < 62" | "k = 62" | "k = 63"
    using assms by linarith
  then show thesis
  proof cases
    case 3
    then have "k = 52 + (k - 52)" "k - 52 < 10" by linarith+
    then show thesis by (rule that(3))
  qed (use that in blast)+
qed

lemma b64_val_char [simp]:
  assumes "k < 64"
  shows "b64_val (b64_char k) = Some k" "b64_char k \<noteq> CHR ''=''"
    "b64_char k \<noteq> CHR 0x0A" "b64_char k \<noteq> CHR 0x0D"
proof -
  consider (up) "k < 26" | (low) "26 \<le> k" and "k < 52" | (dig) j where "k = 52 + j" and "j < 10"
    | (plus) "k = 62" | (sl) "k = 63" by (rule b64_index_cases [OF assms])
  then have "b64_val (b64_char k) = Some k"
    by cases (simp_all add: b64_char_def b64_val_def of_char_of Let_def)
  then show "b64_val (b64_char k) = Some k" "b64_char k \<noteq> CHR ''=''"
    "b64_char k \<noteq> CHR 0x0A" "b64_char k \<noteq> CHR 0x0D"
    by (auto simp: b64_val_def)
qed

text \<open>The digits of a group, and the bytes of a group.\<close>

lemma digits3:
  fixes n :: nat
  shows "(n div 4096 * 64 + n div 64 mod 64) * 64 + n mod 64 = n"
proof -
  have "n div 4096 = n div 64 div 64" by (simp add: div_mult2_eq [symmetric])
  then show ?thesis by (metis div_mult_mod_eq)
qed

lemma digits4:
  fixes n :: nat
  shows "((n div 262144 * 64 + n div 4096 mod 64) * 64 + n div 64 mod 64) * 64 + n mod 64 = n"
proof -
  have "n div 262144 = n div 4096 div 64" "n div 4096 = n div 64 div 64"
    by (simp_all add: div_mult2_eq [symmetric])
  then show ?thesis by (metis div_mult_mod_eq)
qed

lemma bytes2:
  assumes "b < (256 :: nat)"
  shows "(a * 256 + b) div 256 = a" "(a * 256 + b) mod 256 = b"
  using assms by auto

lemma bytes3:
  fixes a b c :: nat
  assumes "b < 256" "c < 256"
  shows "((a * 256 + b) * 256 + c) div 65536 = a" "((a * 256 + b) * 256 + c) div 256 mod 256 = b"
    "((a * 256 + b) * 256 + c) mod 256 = c"
proof -
  define m where "m = a * 256 + b"
  have m: "(m * 256 + c) div 256 = m" "(m * 256 + c) mod 256 = c" by (rule bytes2 [OF assms(2)])+
  have "(m * 256 + c) div 65536 = (m * 256 + c) div 256 div 256"
    by (simp add: div_mult2_eq [symmetric])
  then show "((a * 256 + b) * 256 + c) div 65536 = a"
    using m bytes2 [OF assms(1)] by (simp only: m_def)
  show "((a * 256 + b) * 256 + c) div 256 mod 256 = b"
    using m bytes2 [OF assms(1)] by (simp only: m_def)
  show "((a * 256 + b) * 256 + c) mod 256 = c" using m by (simp only: m_def)
qed

lemma group_bounds:
  fixes a b c :: byte
  shows "unat a * 16 div 64 < 64" "(unat a * 256 + unat b) * 4 div 4096 < 64"
    "((unat a * 256 + unat b) * 256 + unat c) div 262144 < 64"
proof -
  have lt: "x < 256 \<Longrightarrow> y < 256 \<Longrightarrow> z < 256 \<Longrightarrow> x * 16 < 64 * 64 \<and> (x * 256 + y) * 4 < 64 * 4096
      \<and> (x * 256 + y) * 256 + z < 64 * 262144" for x y z :: nat by auto
  have "unat a * 16 < 64 * 64 \<and> (unat a * 256 + unat b) * 4 < 64 * 4096
      \<and> (unat a * 256 + unat b) * 256 + unat c < 64 * 262144"
    by (rule lt) (rule unat_byte_lt)+
  then show "unat a * 16 div 64 < 64" "(unat a * 256 + unat b) * 4 div 4096 < 64"
    "((unat a * 256 + unat b) * 256 + unat c) div 262144 < 64"
    by (blast intro: less_mult_imp_div_less)+
qed

lemma b64_groups_encode: "b64_groups (b64_encode bs) = Some bs"
proof (induction bs rule: b64_encode.induct)
  case (2 a)
  have "(unat a * 16 div 64 * 64 + unat a * 16 mod 64) div 16 = unat a"
    by (simp only: div_mult_mod_eq)
  then show ?case using group_bounds(1) [of a] by (simp add: Let_def)
next
  case (3 a b)
  define n where "n = (unat a * 256 + unat b) * 4"
  have "n div 4 = unat a * 256 + unat b" by (simp add: n_def)
  moreover have "n div 4096 < 64" unfolding n_def by (rule group_bounds)
  ultimately show ?case
    by (simp only: b64_encode.simps n_def [symmetric] Let_def)
      (simp add: digits3 bytes2 Let_def del: distrib_right_numeral)
next
  case (4 a b c r)
  define n where "n = (unat a * 256 + unat b) * 256 + unat c"
  have "n div 262144 < 64" unfolding n_def by (rule group_bounds)
  moreover have "n div 65536 = unat a" "n div 256 mod 256 = unat b" "n mod 256 = unat c"
    unfolding n_def by (rule bytes3, simp, simp)+
  ultimately show ?case using "4.IH"
    by (simp only: b64_encode.simps n_def [symmetric] Let_def)
      (simp add: digits4 Let_def del: distrib_right_numeral)
qed simp

lemma b64_encode_no_breaks:
  "filter (\<lambda>c. c \<noteq> CHR 0x0A \<and> c \<noteq> CHR 0x0D) (b64_encode bs) = b64_encode bs"
proof (induction bs rule: b64_encode.induct)
  case (2 a)
  then show ?case using group_bounds(1) [of a] by (simp add: Let_def)
next
  case (3 a b)
  define n where "n = (unat a * 256 + unat b) * 4"
  have "n div 4096 < 64" unfolding n_def by (rule group_bounds)
  then show ?case by (simp only: b64_encode.simps n_def [symmetric] Let_def) simp
next
  case (4 a b c r)
  define n where "n = (unat a * 256 + unat b) * 256 + unat c"
  have "n div 262144 < 64" unfolding n_def by (rule group_bounds)
  then show ?case using "4.IH" by (simp only: b64_encode.simps n_def [symmetric] Let_def) simp
qed simp

lemma b64_decode_encode [go_std, simp]: "b64_decode (b64_encode bs) = Some bs"
  by (simp add: b64_decode_def b64_encode_no_breaks b64_groups_encode)

lemma length_b64_encode: "length (b64_encode bs) = (length bs + 2) div 3 * 4"
proof (induction bs rule: b64_encode.induct)
  case (4 a b c r)
  have "(length r + 5) div 3 = (length r + 2) div 3 + 1" by linarith
  then show ?case using "4.IH" by (simp add: Let_def add.commute del: add_2_eq_Suc')
qed (simp_all add: Let_def)

lemma round_up_3:
  fixes n :: nat
  shows "(n + 2) div 3 * 3 = n + (3 - n mod 3) mod 3"
proof -
  obtain q r where n: "n = 3 * q + r" and "r < 3"
    by (metis mod_less_divisor mult_div_mod_eq zero_less_numeral)
  then consider "r = 0" | "r = 1" | "r = 2" by linarith
  then show ?thesis
  proof cases
    case 1
    then show ?thesis using n by simp
  next
    case 2
    have "(3 * q + 1 + 2) div 3 = q + 1" "(3 * q + 1) mod 3 = 1" by presburger+
    then show ?thesis using n 2 by (simp only:) simp
  next
    case 3
    have "(3 * q + 2 + 2) div 3 = q + 1" "(3 * q + 2) mod 3 = 2" by presburger+
    then show ?thesis using n 3 by (simp only:) simp
  qed
qed

lemma b64_DecodedLen_encode:
  "b64_DecodedLen (length (b64_encode bs)) = length bs + (3 - length bs mod 3) mod 3"
  by (simp add: b64_DecodedLen_def length_b64_encode round_up_3 del: add_2_eq_Suc')

end
