(* ===== verification/NodeMsg.thy ===== *)
theory NodeMsg
  imports GoStrings Configs Ss58 ChainTypes
begin

text \<open>
  The messages of the transport (node/msg.go) and the two checks the server makes on them
  (node/utils.go).  A byte slice that is cut by length and capacity is \<open>gobuf\<close>: the array
  up to its capacity, and its length.  The buffers of the pools come back with the bytes of their
  last use, which is the argument \<open>stale\<close>.
\<close>

section \<open>Slices with a capacity\<close>

record gobuf =
  buf_arr :: bytes
  buf_len :: nat

definition nil_buf :: gobuf where "nil_buf = \<lparr>buf_arr = [], buf_len = 0\<rparr>"

definition buf_of :: "bytes \<Rightarrow> gobuf" where "buf_of bs = \<lparr>buf_arr = bs, buf_len = length bs\<rparr>"

definition buf_cap :: "gobuf \<Rightarrow> nat" where "buf_cap b = length (buf_arr b)"

definition visible :: "gobuf \<Rightarrow> bytes" where "visible b = take (buf_len b) (buf_arr b)"

text \<open>\<open>b[:n]\<close> may extend up to the capacity; beyond it, it panics.\<close>

definition slice_to :: "gobuf \<Rightarrow> nat \<Rightarrow> bytes outcome" where
  "slice_to b n = (if n \<le> buf_cap b then Ret (take n (buf_arr b)) else Panic)"

text \<open>\<open>copy(dst, src)\<close> overwrites the first bytes of \<open>dst\<close>.\<close>

definition go_copy :: "gobuf \<Rightarrow> bytes \<Rightarrow> gobuf" where
  "go_copy dst src =
     (let n = min (buf_len dst) (length src) in
      dst\<lparr>buf_arr := take n src @ drop n (buf_arr dst)\<rparr>)"

definition pool_get :: "bytes \<Rightarrow> nat \<Rightarrow> gobuf" where
  "pool_get stale n = \<lparr>buf_arr = take n (stale @ replicate n 0), buf_len = n\<rparr>"

section \<open>Messages\<close>

definition MsgInvalid :: u8 where "MsgInvalid = 0"
definition MsgHead :: u8 where "MsgHead = 1"
definition MsgFile :: u8 where "MsgFile = 2"
definition MsgEnd :: u8 where "MsgEnd = 3"
definition MsgNotify :: u8 where "MsgNotify = 4"
definition MsgClose :: u8 where "MsgClose = 5"
definition MsgRecvHead :: u8 where "MsgRecvHead = 6"
definition MsgRecvFile :: u8 where "MsgRecvFile = 7"
definition MsgFileSt :: u8 where "MsgFileSt = 8"
definition MsgVersion :: u8 where "MsgVersion = 9"

definition FileType_Invalid :: u8 where "FileType_Invalid = 0"
definition FileType_file :: u8 where "FileType_file = 1"
definition FileType_filler :: u8 where "FileType_filler = 2"

definition Status_Ok :: u8 where "Status_Ok = 0"
definition Status_Err :: u8 where "Status_Err = 1"

lemmas msg_defs [go_code] = MsgInvalid_def MsgHead_def MsgFile_def MsgEnd_def MsgNotify_def
  MsgClose_def MsgRecvHead_def MsgRecvFile_def MsgFileSt_def MsgVersion_def

lemmas status_defs [go_code] = Status_Ok_def Status_Err_def FileType_file_def FileType_filler_def
  FileType_Invalid_def

record Message =
  m_Pubkey :: bytes
  m_SignMsg :: bytes
  m_Sign :: bytes
  m_Bytes :: gobuf
  m_FileName :: string
  m_FileHash :: string
  m_FileSize :: u64
  m_MsgType :: u8
  m_LastMark :: bool
  m_FileType :: u8

definition empty_Message :: Message where
  "empty_Message = \<lparr>m_Pubkey = [], m_SignMsg = [], m_Sign = [], m_Bytes = nil_buf,
     m_FileName = [], m_FileHash = [], m_FileSize = 0, m_MsgType = MsgInvalid,
     m_LastMark = False, m_FileType = FileType_Invalid\<rparr>"

definition buildNotifyMsg :: "string \<Rightarrow> u8 \<Rightarrow> string \<Rightarrow> Message" where
  "buildNotifyMsg fileName status ver = empty_Message\<lparr>
     m_MsgType := MsgNotify,
     m_FileName := (if fileName \<noteq> [] then fileName else ver),
     m_FileHash := [], m_FileSize := 0, m_LastMark := False,
     m_Pubkey := [], m_SignMsg := [], m_Sign := [],
     m_Bytes := buf_of [status]\<rparr>"

definition buildHeadMsg ::
  "string \<Rightarrow> string \<Rightarrow> u8 \<Rightarrow> bool \<Rightarrow> bytes \<Rightarrow> bytes \<Rightarrow> bytes \<Rightarrow> Message" where
  "buildHeadMsg filename fid filetype lastmark pkey signmsg sign = empty_Message\<lparr>
     m_MsgType := MsgHead, m_FileType := filetype,
     m_FileName := filename, m_FileHash := fid, m_FileSize := 0, m_LastMark := lastmark,
     m_Pubkey := pkey, m_SignMsg := signmsg, m_Sign := sign,
     m_Bytes := nil_buf\<rparr>"

definition buildFileMsg :: "bytes \<Rightarrow> string \<Rightarrow> u8 \<Rightarrow> nat \<Rightarrow> bytes \<Rightarrow> Message" where
  "buildFileMsg stale fileName filetype buflen buf =
     (let b = (if filetype = FileType_filler \<and> buflen = TCP_TagBuffer
               then pool_get stale TCP_TagBuffer else pool_get stale TCP_SendBuffer) in
      empty_Message\<lparr>
       m_MsgType := MsgFile, m_FileType := filetype,
       m_FileName := fileName, m_FileHash := [], m_FileSize := word_of_nat buflen,
       m_LastMark := False, m_Pubkey := [], m_SignMsg := [], m_Sign := [],
       m_Bytes := go_copy b buf\<rparr>)"

definition buildEndMsg :: "u8 \<Rightarrow> string \<Rightarrow> string \<Rightarrow> u64 \<Rightarrow> bool \<Rightarrow> Message" where
  "buildEndMsg filetype fileName fileHash sz lastmark = empty_Message\<lparr>
     m_MsgType := MsgEnd, m_FileType := filetype,
     m_FileName := fileName, m_FileHash := fileHash, m_FileSize := sz, m_LastMark := lastmark,
     m_Pubkey := [], m_SignMsg := [], m_Sign := [],
     m_Bytes := nil_buf\<rparr>"

definition buildCloseMsg :: "u8 \<Rightarrow> Message" where
  "buildCloseMsg status = empty_Message\<lparr>
     m_MsgType := MsgClose, m_FileType := 0,
     m_FileName := [], m_FileHash := [], m_FileSize := 0, m_LastMark := False,
     m_Pubkey := [], m_SignMsg := [], m_Sign := [],
     m_Bytes := buf_of [status]\<rparr>"

definition buildFileStMsg :: "string \<Rightarrow> bytes \<Rightarrow> Message" where
  "buildFileStMsg fid val = empty_Message\<lparr>
     m_MsgType := MsgFileSt, m_FileType := 0,
     m_FileName := [], m_FileHash := fid, m_FileSize := word_of_nat (length val),
     m_LastMark := False, m_Pubkey := [], m_SignMsg := [], m_Sign := [],
     m_Bytes := buf_of val\<rparr>"

definition buildVersionMsg :: "string \<Rightarrow> Message" where
  "buildVersionMsg ver = empty_Message\<lparr>
     m_MsgType := MsgVersion,
     m_FileName := ver, m_FileHash := [], m_FileSize := 0, m_LastMark := False,
     m_Pubkey := [], m_SignMsg := [], m_Sign := [],
     m_Bytes := buf_of [Status_Ok]\<rparr>"

lemmas build_defs = buildNotifyMsg_def buildHeadMsg_def buildFileMsg_def buildEndMsg_def
  buildCloseMsg_def buildFileStMsg_def buildVersionMsg_def empty_Message_def

text \<open>
  What the other end decodes from the JSON of a message: base64 gives the visible bytes, in a
  slice whose capacity is the decoder's bound, a multiple of three.
\<close>

definition decoded_buf :: "bytes \<Rightarrow> gobuf" where
  "decoded_buf bs = \<lparr>buf_arr = bs @ replicate ((3 - length bs mod 3) mod 3) 0, buf_len = length bs\<rparr>"

definition delivered :: "Message \<Rightarrow> Message" where
  "delivered m = m\<lparr>m_Bytes := decoded_buf (visible (m_Bytes m))\<rparr>"

section \<open>The server's checks (utils.go)\<close>

text \<open>
  \<open>attempt i\<close> is what the i-th call of \<open>GetFileMetaInfo\<close> yields: an error, or the state
  of the file.
\<close>

function GetFileState_loop :: "(nat \<Rightarrow> go_error + string) \<Rightarrow> nat \<Rightarrow> go_error + string" where
  "GetFileState_loop attempt try_count =
     (if try_count \<le> 3 then
        (case attempt try_count of
           Inl err \<Rightarrow>
             if try_count + 1 \<ge> 3 then Inl err else GetFileState_loop attempt (try_count + 1)
         | Inr state \<Rightarrow> Inr state)
      else Inl ''GetFileMetaInfo failed'')"
  by pat_completeness auto
termination
  by (relation "measure (\<lambda>(attempt, t). 4 - t)") auto

declare GetFileState_loop.simps [simp del]

definition GetFileState :: "(nat \<Rightarrow> go_error + string) \<Rightarrow> go_error + string" where
  "GetFileState attempt = GetFileState_loop attempt 0"

text \<open>
  \<open>kr_verify ss58 msg sig\<close> is the third-party keyring: \<open>FromURI\<close> and \<open>Verify\<close>, which
  panics when the pair is nil because \<open>FromURI\<close> failed.
\<close>

definition VerifySign ::
  "(bytes \<Rightarrow> string) \<Rightarrow> (bytes \<Rightarrow> bytes) \<Rightarrow> (string \<Rightarrow> bytes \<Rightarrow> bytes \<Rightarrow> bool outcome)
   \<Rightarrow> bytes \<Rightarrow> bytes \<Rightarrow> bytes \<Rightarrow> (go_error + bool) outcome" where
  "VerifySign b58enc sum512 kr_verify pkey signmsg sign =
     (if length signmsg = 0 \<or> length sign < 64 then Ret (Inl ''Wrong signature'')
      else case EncodePublicKeyAsSubstrateAccount b58enc sum512 pkey of
             Inl err \<Rightarrow> Ret (Inl err)
           | Inr ss58 \<Rightarrow>
               (case kr_verify ss58 signmsg (take 64 sign) of
                  Panic \<Rightarrow> Panic | Ret ok \<Rightarrow> Ret (Inr ok)))"

section \<open>Lemmas\<close>

lemma slice_to_buf_of [simp]: "n \<le> length bs \<Longrightarrow> slice_to (buf_of bs) n = Ret (take n bs)"
  by (simp add: slice_to_def buf_of_def buf_cap_def)

lemma buf_cap_pool_get [simp]: "buf_cap (pool_get stale n) = n"
  by (simp add: buf_cap_def pool_get_def)

lemma go_copy_prefix:
  "length src \<le> buf_len dst \<Longrightarrow> buf_len dst \<le> buf_cap dst \<Longrightarrow>
   slice_to (go_copy dst src) (length src) = Ret src"
  by (simp add: go_copy_def slice_to_def buf_cap_def Let_def)

lemma go_copy_visible:
  assumes "length src \<le> buf_len dst" and "buf_len dst \<le> buf_cap dst"
  shows "take (length src) (visible (go_copy dst src)) = src"
    and "length (visible (go_copy dst src)) = buf_len dst"
  using assms by (auto simp: go_copy_def visible_def buf_cap_def Let_def min_def)

lemma pool_get_len [simp]: "buf_len (pool_get stale n) = n"
  by (simp add: pool_get_def)

lemma length_go_copy [simp]:
  "buf_len (go_copy dst src) = buf_len dst"
  by (simp add: go_copy_def Let_def)

lemma buf_cap_go_copy [simp]: "buf_len dst \<le> buf_cap dst \<Longrightarrow> buf_cap (go_copy dst src) = buf_cap dst"
  by (simp add: go_copy_def buf_cap_def Let_def)

lemma pool_copy:
  assumes "length buf \<le> n"
  shows "take (length buf) (visible (go_copy (pool_get stale n) buf)) = buf"
    and "length (visible (go_copy (pool_get stale n) buf)) = n"
    and "buf_cap (go_copy (pool_get stale n) buf) = n"
  using assms go_copy_visible [of buf "pool_get stale n"] by simp_all

lemma FileMsg_payload:
  assumes "length buf \<le> TCP_SendBuffer"
  shows "take (length buf) (visible (m_Bytes (buildFileMsg stale name ft (length buf) buf))) = buf"
    and "length buf \<le> length (visible (m_Bytes (buildFileMsg stale name ft (length buf) buf)))"
proof -
  let ?n = "if ft = FileType_filler \<and> length buf = TCP_TagBuffer then TCP_TagBuffer else TCP_SendBuffer"
  have n: "length buf \<le> ?n" using assms by simp
  have m: "m_Bytes (buildFileMsg stale name ft (length buf) buf) = go_copy (pool_get stale ?n) buf"
    by (simp add: buildFileMsg_def Let_def)
  show "take (length buf) (visible (m_Bytes (buildFileMsg stale name ft (length buf) buf))) = buf"
    unfolding m by (rule pool_copy(1) [OF n])
  show "length buf \<le> length (visible (m_Bytes (buildFileMsg stale name ft (length buf) buf)))"
    unfolding m using pool_copy(2) [OF n] n by simp
qed

lemma build_types [simp]:
  "m_MsgType (buildNotifyMsg f st v) = MsgNotify" "m_MsgType (buildHeadMsg f i ft l p sm sg) = MsgHead"
  "m_MsgType (buildFileMsg stale f ft n b) = MsgFile" "m_MsgType (buildEndMsg ft f i sz l) = MsgEnd"
  "m_MsgType (buildCloseMsg st) = MsgClose" "m_MsgType (buildFileStMsg i bs) = MsgFileSt"
  "m_MsgType (buildVersionMsg v) = MsgVersion"
  by (simp_all add: build_defs Let_def)

lemma GetFileState_eq:
  "GetFileState attempt =
     (case attempt 0 of Inr st \<Rightarrow> Inr st | Inl _ \<Rightarrow>
       (case attempt 1 of Inr st \<Rightarrow> Inr st | Inl _ \<Rightarrow> attempt 2))"
  unfolding GetFileState_def
  by (subst GetFileState_loop.simps, simp split: sum.split)
     (subst GetFileState_loop.simps, simp split: sum.split add: GetFileState_loop.simps eval_nat_numeral)

lemma VerifySign_true:
  "VerifySign b58enc sum512 kv pkey signmsg sign = Ret (Inr True) \<Longrightarrow>
   length pkey = 32 \<and> signmsg \<noteq> [] \<and> 64 \<le> length sign \<and>
   (\<exists>ss58. EncodePublicKeyAsSubstrateAccount b58enc sum512 pkey = Inr ss58
     \<and> kv ss58 signmsg (take 64 sign) = Ret True)"
  by (auto simp: VerifySign_def EncodePublicKeyAsSubstrateAccount_def EncodePublicKey_def
    split: if_splits sum.splits outcome.splits)

lemma visible_decoded_buf [simp]: "visible (decoded_buf bs) = bs"
  by (simp add: decoded_buf_def visible_def)

lemma slice_to_decoded: "n \<le> length bs \<Longrightarrow> slice_to (decoded_buf bs) n = Ret (take n bs)"
  by (simp add: decoded_buf_def slice_to_def buf_cap_def)

lemma delivered_simps [simp]:
  "m_Pubkey (delivered m) = m_Pubkey m" "m_SignMsg (delivered m) = m_SignMsg m"
  "m_Sign (delivered m) = m_Sign m" "m_FileName (delivered m) = m_FileName m"
  "m_FileHash (delivered m) = m_FileHash m" "m_FileSize (delivered m) = m_FileSize m"
  "m_MsgType (delivered m) = m_MsgType m" "m_LastMark (delivered m) = m_LastMark m"
  "m_FileType (delivered m) = m_FileType m" "m_Bytes (delivered m) = decoded_buf (visible (m_Bytes m))"
  by (simp_all add: delivered_def)

lemma slice_delivered_FileMsg:
  assumes "length buf \<le> TCP_SendBuffer"
  shows "slice_to (m_Bytes (delivered (buildFileMsg stale name ft (length buf) buf)))
      (unat (m_FileSize (buildFileMsg stale name ft (length buf) buf))) = Ret buf"
proof -
  let ?m = "buildFileMsg stale name ft (length buf) buf"
  have sz: "unat (m_FileSize ?m) = length buf"
    using assms by (simp add: buildFileMsg_def Let_def TCP_SendBuffer_def unat_of_nat take_bit_nat_eq_self_iff)
  show ?thesis
    unfolding sz using slice_to_decoded [OF FileMsg_payload(2) [OF assms], of stale name ft]
    by (simp add: FileMsg_payload(1) [OF assms])
qed

section \<open>Properties\<close>

text \<open>
  The state of a file is asked at most three times: the answer is the first state obtained,
  and otherwise the error of the third attempt.  The final error of the source is never reached.
\<close>

theorem file_state_three_attempts:
  "GetFileState attempt =
     (case attempt 0 of Inr st \<Rightarrow> Inr st | Inl _ \<Rightarrow>
       (case attempt 1 of Inr st \<Rightarrow> Inr st | Inl _ \<Rightarrow> attempt 2))"
  by (rule GetFileState_eq)

end
