(* ===== verification/TcpTransfer.thy ===== *)
theory TcpTransfer
  imports GoJson GoBase64 NodeMsg
begin

text \<open>
  The transport under the messages (node/transfer.go): the JSON text of a message, the frame
  around it, the goroutine that writes frames and the goroutine that reads them, and the filter on
  the first bytes of a connection (node/node.go).
\<close>

section \<open>A message as JSON\<close>

text \<open>
  A nil slice prints as null.  The model does not tell a nil slice from an empty one, and neither
  does the other end: both decode to a slice of length and capacity 0.
\<close>

definition json_bytes :: "bytes \<Rightarrow> json" where
  "json_bytes bs = (if bs = [] then JNull else JStr (b64_encode bs))"

definition json_of_msg :: "Message \<Rightarrow> json" where
  "json_of_msg m = JObj
     [(''pubkey'', json_bytes (m_Pubkey m)), (''signmsg'', json_bytes (m_SignMsg m)),
      (''sign'', json_bytes (m_Sign m)), (''bytes'', json_bytes (visible (m_Bytes m))),
      (''filename'', JStr (m_FileName m)), (''filehash'', JStr (m_FileHash m)),
      (''filesize'', json_uint (unat (m_FileSize m))), (''msgtype'', json_uint (unat (m_MsgType m))),
      (''lastmark'', JBool (m_LastMark m)), (''filetype'', json_uint (unat (m_FileType m)))]"

definition marshal_msg :: "Message \<Rightarrow> bytes" where
  "marshal_msg m = bytes_of_string (print_json (json_of_msg m))"

text \<open>
  A byte slice decodes from base64 text, whose array is the decoder's bound, from null, which makes
  it nil, and from an array of numbers, which is written over the slice it finds: null elements
  keep what is there, and the array grows by half when it is full.
\<close>

definition grow_buf :: "gobuf \<Rightarrow> gobuf" where
  "grow_buf b =
     (let newcap = max 4 (buf_cap b + buf_cap b div 2) in
      b\<lparr>buf_arr := visible b @ replicate (newcap - buf_len b) 0\<rparr>)"

fun decode_elems :: "json list \<Rightarrow> nat \<Rightarrow> gobuf \<times> go_error option \<Rightarrow> gobuf \<times> go_error option" where
  "decode_elems [] i (b, err) = (if i = 0 then (nil_buf, err) else (b\<lparr>buf_len := min i (buf_len b)\<rparr>, err))"
| "decode_elems (x # xs) i (b, err) =
     (let b1 = (if buf_cap b \<le> i then grow_buf b else b);
          b2 = (if buf_len b1 \<le> i then b1\<lparr>buf_len := i + 1\<rparr> else b1) in
      decode_elems xs (i + 1)
        (set_field (get_uint 8 x) (\<lambda>n c. c\<lparr>buf_arr := (buf_arr c)[i := word_of_nat n]\<rparr>) (b2, err)))"

definition keep_first :: "go_error option \<Rightarrow> go_error option \<Rightarrow> go_error option" where
  "keep_first err e = (case err of None \<Rightarrow> e | Some _ \<Rightarrow> err)"

definition decode_bytes :: "json \<Rightarrow> gobuf \<Rightarrow> gobuf \<times> go_error option" where
  "decode_bytes v old =
     (case v of
        JNull \<Rightarrow> (nil_buf, None)
      | JStr s \<Rightarrow>
          (case b64_decode s of
             None \<Rightarrow> (old, Some ''illegal base64 data'')
           | Some bs \<Rightarrow> (\<lparr>buf_arr = bs @ replicate (b64_DecodedLen (length s) - length bs) 0,
                            buf_len = length bs\<rparr>, None))
      | JArr xs \<Rightarrow> decode_elems xs 0 (old, None)
      | _ \<Rightarrow> (old, Some type_error))"

text \<open>Of the three other slices only the visible bytes are kept from one member to the next.\<close>

definition set_bytes ::
  "json \<Rightarrow> (Message \<Rightarrow> gobuf) \<Rightarrow> (gobuf \<Rightarrow> Message \<Rightarrow> Message) \<Rightarrow> Message \<times> go_error option
   \<Rightarrow> Message \<times> go_error option" where
  "set_bytes v sel upd st =
     (case st of (m, err) \<Rightarrow>
       (case decode_bytes v (sel m) of (b, e) \<Rightarrow> (upd b m, keep_first err e)))"

fun msg_member :: "string \<times> json \<Rightarrow> Message \<times> go_error option \<Rightarrow> Message \<times> go_error option" where
  "msg_member (k, v) st =
     (if same_key k ''pubkey'' then
        set_bytes v (\<lambda>m. buf_of (m_Pubkey m)) (\<lambda>b m. m\<lparr>m_Pubkey := visible b\<rparr>) st
      else if same_key k ''signmsg'' then
        set_bytes v (\<lambda>m. buf_of (m_SignMsg m)) (\<lambda>b m. m\<lparr>m_SignMsg := visible b\<rparr>) st
      else if same_key k ''sign'' then
        set_bytes v (\<lambda>m. buf_of (m_Sign m)) (\<lambda>b m. m\<lparr>m_Sign := visible b\<rparr>) st
      else if same_key k ''bytes'' then
        set_bytes v m_Bytes (\<lambda>b m. m\<lparr>m_Bytes := b\<rparr>) st
      else if same_key k ''filename'' then set_field (get_string v) (\<lambda>s m. m\<lparr>m_FileName := s\<rparr>) st
      else if same_key k ''filehash'' then set_field (get_string v) (\<lambda>s m. m\<lparr>m_FileHash := s\<rparr>) st
      else if same_key k ''filesize'' then
        set_field (get_uint 64 v) (\<lambda>n m. m\<lparr>m_FileSize := word_of_nat n\<rparr>) st
      else if same_key k ''msgtype'' then
        set_field (get_uint 8 v) (\<lambda>n m. m\<lparr>m_MsgType := word_of_nat n\<rparr>) st
      else if same_key k ''lastmark'' then set_field (get_bool v) (\<lambda>b m. m\<lparr>m_LastMark := b\<rparr>) st
      else if same_key k ''filetype'' then
        set_field (get_uint 8 v) (\<lambda>n m. m\<lparr>m_FileType := word_of_nat n\<rparr>) st
      else st)"

text \<open>
  \<open>json.Unmarshal(data, &m)\<close> with \<open>m\<close> a pointer to the message: the document null makes the
  pointer nil.  A message or nil, or the error.
\<close>

definition unmarshal_msg :: "bytes \<Rightarrow> Message \<Rightarrow> go_error + Message option" where
  "unmarshal_msg bs m =
     (case parse_json (string_of_bytes bs) of
        None \<Rightarrow> Inl ''json: syntax error''
      | Some JNull \<Rightarrow> Inr None
      | Some (JObj ms) \<Rightarrow>
          (case fold msg_member ms (m, None) of
             (m', None) \<Rightarrow> Inr (Some m')
           | (_, Some err) \<Rightarrow> Inl err)
      | Some _ \<Rightarrow> Inl type_error)"

section \<open>Sending\<close>

definition HEAD_FILE :: bytes where "HEAD_FILE = bytes_of_string ''c100''"
definition HEAD_FILLER :: bytes where "HEAD_FILLER = bytes_of_string ''c101''"

text \<open>\<open>copy(b[n:], src)\<close> for \<open>n\<close> within the length.\<close>

definition put_at :: "nat \<Rightarrow> bytes \<Rightarrow> gobuf \<Rightarrow> gobuf" where
  "put_at n src b =
     (let k = min (buf_len b - n) (length src) in
      b\<lparr>buf_arr := take n (buf_arr b) @ take k src @ drop (n + k) (buf_arr b)\<rparr>)"

text \<open>
  One message in the buffer of the sender, and the slice that is written: beyond the buffer's
  capacity it panics.
\<close>

definition fill_frame :: "bytes \<Rightarrow> gobuf \<Rightarrow> gobuf" where
  "fill_frame data sendBuf =
     put_at (length HEAD_FILLER + 4) data
       (put_at (length HEAD_FILLER) (PutUint32 (word_of_nat (length data))) sendBuf)"

definition frame_slice :: "bytes \<Rightarrow> gobuf \<Rightarrow> bytes outcome" where
  "frame_slice data sendBuf = slice_to (fill_frame data sendBuf) (length HEAD_FILLER + 4 + length data)"

text \<open>
  The pool that a sent buffer goes back to, found by its capacity.
\<close>

datatype pool = TagPool | SendPool

definition pool_put :: "gobuf \<Rightarrow> pool option" where
  "pool_put b =
     (if buf_cap b = TCP_TagBuffer then Some TagPool
      else if buf_cap b = TCP_SendBuffer then Some SendPool
      else None)"

text \<open>
  The passes of the loop of \<open>sendMsg\<close>: nothing queued, or a message and whether \<open>Write\<close>
  succeeds.  The list ends when the connection is found closed.  The state is the buffer, the bytes
  written and the buffers returned; the deferred recover ends the goroutine on a panic.
\<close>

datatype send_pass = Idle | Take Message bool

record sender =
  snd_buf :: gobuf
  snd_wire :: bytes
  snd_puts :: "(pool \<times> bytes) list"

fun send_passes :: "send_pass list \<Rightarrow> sender \<Rightarrow> sender" where
  "send_passes [] st = st"
| "send_passes (Idle # ps) st = send_passes ps st"
| "send_passes (Take m ok # ps) st =
     (let data = marshal_msg m;
          puts = (case pool_put (m_Bytes m) of None \<Rightarrow> snd_puts st
                  | Some p \<Rightarrow> (p, buf_arr (m_Bytes m)) # snd_puts st);
          st1 = st\<lparr>snd_puts := puts, snd_buf := fill_frame data (snd_buf st)\<rparr> in
      (case frame_slice data (snd_buf st) of
         Panic \<Rightarrow> st1
       | Ret frame \<Rightarrow>
           if ok then send_passes ps (st1\<lparr>snd_wire := snd_wire st1 @ frame\<rparr>) else st1))"

definition sendMsg :: "bytes \<Rightarrow> send_pass list \<Rightarrow> sender" where
  "sendMsg stale ps =
     send_passes ps \<lparr>snd_buf = put_at 0 HEAD_FILLER (pool_get stale TCP_ReadBuffer), snd_wire = [],
       snd_puts = []\<rparr>"

section \<open>Receiving\<close>

text \<open>
  The bytes of the connection are a list whose end is the end of the stream.  \<open>read_body\<close> is the
  length and the text of a frame, \<open>read_frame\<close> has the magic before them.  No value means that
  the reader gives up.
\<close>

definition read_body :: "bytes \<Rightarrow> (bytes \<times> bytes) option" where
  "read_body bs =
     (if length bs < 4 then None
      else case Uint32 (take 4 bs) of
             Panic \<Rightarrow> None
           | Ret msgSize \<Rightarrow>
               if unat msgSize > TCP_ReadBuffer then None
               else if length (drop 4 bs) < unat msgSize then None
               else Some (take (unat msgSize) (drop 4 bs), drop (unat msgSize) (drop 4 bs)))"

definition read_frame :: "bytes \<Rightarrow> (bytes \<times> bytes) option" where
  "read_frame bs =
     (if length bs < 4 then None
      else if take 4 bs \<noteq> HEAD_FILLER \<and> take 4 bs \<noteq> HEAD_FILE then None
      else read_body (drop 4 bs))"

text \<open>
  \<open>readMsg pool alive flag waittime bs\<close> is the rest of the loop: \<open>alive\<close> counts the checks that
  find the connection open, \<open>flag\<close> says that the magic was read before, \<open>pool\<close> gives the stale
  bytes of the buffer a new message starts with.  At the end of the stream it asks ten times.  The
  result is what is put on the channel.
\<close>

fun readMsg :: "(nat \<Rightarrow> bytes) \<Rightarrow> nat \<Rightarrow> bool \<Rightarrow> nat \<Rightarrow> bytes \<Rightarrow> Message option list" where
  "readMsg pool 0 flag waittime bs = []"
| "readMsg pool (Suc alive) flag waittime bs =
     (if \<not> flag \<and> bs = [] then
        (if waittime + 1 \<ge> 10 then [] else readMsg pool alive flag (waittime + 1) bs)
      else case (if flag then read_body bs else read_frame bs) of
             None \<Rightarrow> []
           | Some (data, rest) \<Rightarrow>
               (case unmarshal_msg data
                       (empty_Message\<lparr>m_Bytes := pool_get (pool alive) TCP_ReadBuffer\<rparr>) of
                  Inl err \<Rightarrow> []
                | Inr m \<Rightarrow> m # readMsg pool alive False waittime rest))"

text \<open>What the server does with the first bytes of a connection, and the bytes that remain.\<close>

definition ConnectionFiltering :: "bytes \<Rightarrow> bool \<times> bytes" where
  "ConnectionFiltering bs =
     (if length bs < length HEAD_FILE then (False, [])
      else (take (length HEAD_FILE) bs = HEAD_FILE, drop (length HEAD_FILE) bs))"

section \<open>Lemmas\<close>

lemma json_ok_bytes [simp]: "json_ok (json_bytes bs)"
  by (simp add: json_bytes_def)

lemma parse_marshal:
  "parse_json (string_of_bytes (marshal_msg m)) = Some (json_of_msg m)"
proof -
  have "json_ok (json_of_msg m)" by (simp add: json_of_msg_def)
  then show ?thesis by (simp add: marshal_msg_def)
qed

lemma decode_json_bytes [simp]: "decode_bytes (json_bytes bs) old = (decoded_buf bs, None)"
  by (simp add: decode_bytes_def json_bytes_def decoded_buf_def nil_buf_def b64_DecodedLen_encode)

lemma unat_u8_json [simp]: "get_uint 8 (json_uint (unat (x :: u8))) = Inr (Some (unat x))"
  by (rule get_uint_json_uint) simp

lemma get_string_JStr [simp]: "get_string (JStr s) = Inr (Some s)"
  by (simp add: get_string_def)

lemma get_bool_JBool [simp]: "get_bool (JBool b) = Inr (Some b)"
  by (simp add: get_bool_def)

lemma members_bytes [simp]:
  "msg_member (''pubkey'', json_bytes bs) (m, err) = (m\<lparr>m_Pubkey := bs\<rparr>, err)"
  "msg_member (''signmsg'', json_bytes bs) (m, err) = (m\<lparr>m_SignMsg := bs\<rparr>, err)"
  "msg_member (''sign'', json_bytes bs) (m, err) = (m\<lparr>m_Sign := bs\<rparr>, err)"
  "msg_member (''bytes'', json_bytes bs) (m, err) = (m\<lparr>m_Bytes := decoded_buf bs\<rparr>, err)"
  by (simp_all add: set_bytes_def keep_first_def same_key_def lower_def split: option.split)

lemma members_scalars [simp]:
  "msg_member (''filename'', JStr s) (m, err) = (m\<lparr>m_FileName := s\<rparr>, err)"
  "msg_member (''filehash'', JStr s) (m, err) = (m\<lparr>m_FileHash := s\<rparr>, err)"
  "msg_member (''filesize'', json_uint (unat x)) (m, err) = (m\<lparr>m_FileSize := x\<rparr>, err)"
  "msg_member (''msgtype'', json_uint (unat y)) (m, err) = (m\<lparr>m_MsgType := y\<rparr>, err)"
  "msg_member (''lastmark'', JBool b) (m, err) = (m\<lparr>m_LastMark := b\<rparr>, err)"
  "msg_member (''filetype'', json_uint (unat y)) (m, err) = (m\<lparr>m_FileType := y\<rparr>, err)"
  by (simp_all add: same_key_def lower_def)

lemma unmarshal_marshal_msg:
  "unmarshal_msg (marshal_msg m) old = Inr (Some (delivered m))"
  by (simp add: unmarshal_msg_def parse_marshal json_of_msg_def delivered_def del: msg_member.simps)

text \<open>What is written for a message that fits: magic, length, text.\<close>

definition frame_of :: "bytes \<Rightarrow> bytes" where
  "frame_of data = HEAD_FILLER @ PutUint32 (word_of_nat (length data)) @ data"

definition fits :: "bytes \<Rightarrow> bool" where
  "fits data = (length HEAD_FILLER + 4 + length data \<le> TCP_ReadBuffer)"

lemma length_heads [simp]: "length HEAD_FILLER = 4" "length HEAD_FILE = 4"
  by (simp_all add: HEAD_FILLER_def HEAD_FILE_def)

definition send_ready :: "gobuf \<Rightarrow> bool" where
  "send_ready b = (buf_cap b = TCP_ReadBuffer \<and> buf_len b = TCP_ReadBuffer \<and> take 4 (buf_arr b) = HEAD_FILLER)"

lemma put_at_cap [simp]: "n \<le> buf_len b \<Longrightarrow> buf_len b = buf_cap b \<Longrightarrow> buf_cap (put_at n src b) = buf_cap b"
  by (simp add: put_at_def buf_cap_def Let_def)

lemma put_at_len [simp]: "buf_len (put_at n src b) = buf_len b"
  by (simp add: put_at_def Let_def)

lemma put_at_prefix:
  assumes "n + length src \<le> buf_len b" "buf_len b = buf_cap b"
  shows "take (n + length src) (buf_arr (put_at n src b)) = take n (buf_arr b) @ src"
  using assms by (cases src) (auto simp: put_at_def buf_cap_def Let_def min_def)

lemma put_at_low:
  assumes "n \<le> buf_len b" "buf_len b = buf_cap b"
  shows "take n (buf_arr (put_at n src b)) = take n (buf_arr b)"
  using assms by (simp add: put_at_def buf_cap_def Let_def)

lemma send_ready_start: "send_ready (put_at 0 HEAD_FILLER (pool_get stale TCP_ReadBuffer))"
  using put_at_prefix [of 0 HEAD_FILLER "pool_get stale TCP_ReadBuffer"]
  by (simp add: send_ready_def TCP_ReadBuffer_def)

lemma send_ready_fill: "send_ready b \<Longrightarrow> send_ready (fill_frame data b)"
proof -
  assume b: "send_ready b"
  have four: "take 4 (take 8 xs) = take 4 xs" for xs :: bytes by simp
  show ?thesis
    using b put_at_low [of 4 b "PutUint32 (word_of_nat (length data))"]
      arg_cong [OF put_at_low [of 8 "put_at 4 (PutUint32 (word_of_nat (length data))) b" data], of "take 4"]
    by (simp add: send_ready_def fill_frame_def TCP_ReadBuffer_def)
qed

lemma frame_slice_eq:
  assumes "send_ready b"
  shows "frame_slice data b = (if fits data then Ret (frame_of data) else Panic)"
proof (cases "fits data")
  case True
  let ?b1 = "put_at 4 (PutUint32 (word_of_nat (length data))) b"
  have c: "buf_cap ?b1 = TCP_ReadBuffer" "buf_len ?b1 = TCP_ReadBuffer"
    using assms by (simp_all add: send_ready_def TCP_ReadBuffer_def)
  have "take 8 (buf_arr ?b1) = HEAD_FILLER @ PutUint32 (word_of_nat (length data))"
    using assms put_at_prefix [of 4 "PutUint32 (word_of_nat (length data))" b]
    by (simp add: send_ready_def TCP_ReadBuffer_def)
  then have "take (8 + length data) (buf_arr (put_at 8 data ?b1)) = frame_of data"
    using put_at_prefix [of 8 data ?b1] c True by (simp add: frame_of_def fits_def)
  moreover have "buf_cap (put_at 8 data ?b1) = TCP_ReadBuffer"
    using c by (simp add: TCP_ReadBuffer_def)
  ultimately show ?thesis
    using True by (simp add: frame_slice_def fill_frame_def slice_to_def fits_def)
next
  case False
  then show ?thesis
    using send_ready_fill [OF assms, of data]
    by (simp add: frame_slice_def slice_to_def fits_def send_ready_def)
qed

fun queued :: "send_pass list \<Rightarrow> Message list" where
  "queued [] = []"
| "queued (Idle # ps) = queued ps"
| "queued (Take m ok # ps) = m # queued ps"

definition no_write_fails :: "send_pass list \<Rightarrow> bool" where
  "no_write_fails ps = list_all (\<lambda>p. case p of Idle \<Rightarrow> True | Take m ok \<Rightarrow> ok) ps"

lemma send_passes_wire:
  assumes "send_ready (snd_buf st)" "no_write_fails ps"
  shows "snd_wire (send_passes ps st)
    = snd_wire st @ concat (map (frame_of \<circ> marshal_msg) (takeWhile (fits \<circ> marshal_msg) (queued ps)))"
  using assms
  by (induction ps st rule: send_passes.induct)
    (auto simp: Let_def frame_slice_eq send_ready_fill no_write_fails_def)

lemma sendMsg_wire:
  "no_write_fails ps \<Longrightarrow> snd_wire (sendMsg stale ps)
     = concat (map (frame_of \<circ> marshal_msg) (takeWhile (fits \<circ> marshal_msg) (queued ps)))"
  by (simp add: sendMsg_def send_passes_wire send_ready_start)

section \<open>Frames are a prefix code\<close>

definition readable :: "bytes \<Rightarrow> bool" where
  "readable data = (length data \<le> TCP_ReadBuffer)"

lemma fits_readable: "fits data \<Longrightarrow> readable data"
  by (simp add: fits_def readable_def)

lemma read_body_frame:
  assumes "readable data"
  shows "read_body (PutUint32 (word_of_nat (length data)) @ data @ r) = Some (data, r)"
proof -
  have "length data < 2 ^ 32" using assms by (simp add: readable_def TCP_ReadBuffer_def)
  then have "unat (word_of_nat (length data) :: u32) = length data"
    by (simp add: unat_of_nat take_bit_nat_eq_self_iff)
  moreover have "Uint32 (PutUint32 v) = Ret v" for v
    using Uint32_PutUint32 [of v "[]"] by simp
  ultimately show ?thesis using assms by (simp add: read_body_def readable_def)
qed

interpretation frames: prefix_codec frame_of read_frame readable
  by unfold_locales (simp add: read_frame_def frame_of_def read_body_frame)

lemma readMsg_stream:
  assumes "decode_n read_frame n bs = Some (datas, r)"
    and "\<And>d old. d \<in> set datas \<Longrightarrow> unmarshal_msg d old = Inr (f d)"
  shows "readMsg pool (n + alive) False w bs = map f datas @ readMsg pool alive False w r"
  using assms
proof (induction n arbitrary: bs datas)
  case (Suc n)
  then obtain d bs1 ds where d: "read_frame bs = Some (d, bs1)" "decode_n read_frame n bs1 = Some (ds, r)"
    "datas = d # ds" by (auto split: option.splits)
  have "bs \<noteq> []" using d(1) by (auto simp: read_frame_def)
  then show ?case using d Suc.IH [OF d(2)] Suc.prems(2) by simp
qed simp

lemma readMsg_end: "readMsg pool alive False w [] = []"
  by (induction alive arbitrary: w) simp_all

lemma readMsg_frames:
  assumes "\<forall>m \<in> set ms. fits (marshal_msg m)"
  shows "readMsg pool (length ms + alive) False w (concat (map (frame_of \<circ> marshal_msg) ms))
    = map (Some \<circ> delivered) ms"
proof -
  have dec: "decode_n read_frame (length ms) (concat (map (frame_of \<circ> marshal_msg) ms)) = Some (map marshal_msg ms, [])"
    using frames.decode_stream [of "map marshal_msg ms" "[]"] assms by (simp add: fits_readable o_def)
  define f where "f d = (case unmarshal_msg d empty_Message of Inr m \<Rightarrow> m | Inl e \<Rightarrow> None)" for d
  have f: "f (marshal_msg m) = Some (delivered m)" for m
    by (simp add: f_def unmarshal_marshal_msg)
  have "unmarshal_msg d old = Inr (f d)" if "d \<in> set (map marshal_msg ms)" for d old
    using that f by (auto simp: unmarshal_marshal_msg)
  with dec have "readMsg pool (length ms + alive) False w (concat (map (frame_of \<circ> marshal_msg) ms))
      = map f (map marshal_msg ms) @ readMsg pool alive False w []"
    by (rule readMsg_stream)
  then show ?thesis by (simp add: f readMsg_end)
qed

section \<open>Sizes\<close>

lemma length_escape_char: "length (escape_char c) \<le> 6"
  by (simp add: escape_char_def hex4_def)

lemma length_print_str: "length (print_str s) \<le> 6 * length s + 2"
proof -
  have "length (concat (map escape_char s)) \<le> 6 * length s"
  proof (induction s)
    case (Cons c s)
    then show ?case using length_escape_char [of c] by simp
  qed simp
  then show ?thesis by (simp add: print_str_def)
qed

lemma escape_b64_char: "k < 64 \<Longrightarrow> escape_char (b64_char k) = [b64_char k]"
proof -
  assume "k < 64"
  then show ?thesis
    by (cases rule: b64_index_cases)
      (simp_all add: escape_char_def needs_hex_def b64_char_def of_char_of
        char_of_eq_iff take_bit_nat_def)
qed

lemma escape_b64_encode: "\<forall>c \<in> set (b64_encode bs). escape_char c = [c]"
proof (induction bs rule: b64_encode.induct)
  case (2 a)
  show ?case using group_bounds(1) [of a] by (simp add: Let_def escape_b64_char) (simp add: escape_char_def needs_hex_def)
next
  case (3 a b)
  define n where "n = (unat a * 256 + unat b) * 4"
  have "n div 4096 < 64" unfolding n_def by (rule group_bounds)
  then show ?case
    by (simp only: b64_encode.simps n_def [symmetric] Let_def) (simp add: escape_b64_char, simp add: escape_char_def needs_hex_def)
next
  case (4 a b c r)
  define n where "n = (unat a * 256 + unat b) * 256 + unat c"
  have "n div 262144 < 64" unfolding n_def by (rule group_bounds)
  then show ?case using "4.IH"
    by (simp only: b64_encode.simps n_def [symmetric] Let_def) (simp add: escape_b64_char)
qed simp

end
