(* ===== verification/GoFiles.thy ===== *)
theory GoFiles
  imports GoStrings "HOL-Library.AList" "HOL-Library.List_Lexorder" "HOL-Library.Char_ord"
begin

text \<open>
  The parts of \<open>os\<close> and \<open>path/filepath\<close> that touch files: a disk is an association list
  from cleaned paths to contents; an open file is its path and its offset.  Directories and
  permissions are not in the model: whether a call fails is decided by its caller's environment.
\<close>

section \<open>The disk\<close>

type_synonym disk = "(string \<times> bytes) list"

definition content :: "disk \<Rightarrow> string \<Rightarrow> bytes option" where
  "content d p = map_of d p"

definition put_file :: "string \<Rightarrow> bytes \<Rightarrow> disk \<Rightarrow> disk" where
  "put_file p bs d = AList.update p bs d"

definition remove_file :: "string \<Rightarrow> disk \<Rightarrow> disk" where
  "remove_file p d = AList.delete p d"

lemma content_put_file [simp]:
  "content (put_file p bs d) q = (if q = p then Some bs else content d q)"
  by (simp add: content_def put_file_def update_conv)

lemma content_remove_file [simp]:
  "content (remove_file p d) q = (if q = p then None else content d q)"
  by (simp add: content_def remove_file_def delete_conv)

record open_file =
  of_path :: string
  of_off :: nat

definition write_at :: "nat \<Rightarrow> bytes \<Rightarrow> bytes \<Rightarrow> bytes" where
  "write_at off new_bytes old =
     take off old @ replicate (off - length old) 0 @ new_bytes @ drop (off + length new_bytes) old"

text \<open>\<open>Write\<close> puts the bytes at the file's offset and moves the offset.\<close>

definition file_write :: "open_file \<Rightarrow> bytes \<Rightarrow> disk \<Rightarrow> open_file \<times> disk" where
  "file_write f bs d =
     (f\<lparr>of_off := of_off f + length bs\<rparr>,
      put_file (of_path f)
        (write_at (of_off f) bs (case content d (of_path f) of None \<Rightarrow> [] | Some old \<Rightarrow> old)) d)"

definition file_length :: "open_file \<Rightarrow> disk \<Rightarrow> nat" where
  "file_length f d = (case content d (of_path f) of None \<Rightarrow> 0 | Some bs \<Rightarrow> length bs)"

text \<open>\<open>OpenFile\<close> with \<open>O_RDWR|O_CREATE|O_TRUNC\<close>.\<close>

definition open_trunc :: "string \<Rightarrow> disk \<Rightarrow> open_file \<times> disk" where
  "open_trunc p d = (\<lparr>of_path = p, of_off = 0\<rparr>, put_file p [] d)"

lemma write_at_end [simp]: "write_at (length old) bs old = old @ bs"
  by (simp add: write_at_def)

section \<open>filepath.Glob\<close>

text \<open>\<open>getEsc\<close>: a possibly escaped character of a class; nothing may end there.\<close>

definition get_esc :: "string \<Rightarrow> (char \<times> string) option" where
  "get_esc p =
     (case p of
        [] \<Rightarrow> None
      | c # r \<Rightarrow>
          if c = CHR ''-'' \<or> c = CHR '']'' then None
          else if c = CHR 0x5C then (case r of [] \<Rightarrow> None | d # r' \<Rightarrow> if r' = [] then None else Some (d, r'))
          else if r = [] then None else Some (c, r))"

lemma get_esc_shorter: "get_esc p = Some (c, r) \<Longrightarrow> length r < length p \<and> r \<noteq> []"
  by (auto simp: get_esc_def split: list.splits if_splits)

function class_match :: "char \<Rightarrow> bool \<Rightarrow> bool \<Rightarrow> string \<Rightarrow> (bool \<times> string) option" where
  "class_match x first m p =
     (if p \<noteq> [] \<and> hd p = CHR '']'' \<and> \<not> first then Some (m, tl p)
      else (case get_esc p of
        None \<Rightarrow> None
      | Some (lo, p1) \<Rightarrow>
          if hd p1 = CHR ''-'' then
            (case get_esc (tl p1) of
               None \<Rightarrow> None
             | Some (hi, p2) \<Rightarrow> class_match x False (m \<or> (lo \<le> x \<and> x \<le> hi)) p2)
          else class_match x False (m \<or> x = lo) p1))"
  by pat_completeness auto
termination
  by (relation "measure (\<lambda>(x, f, m, p). length p)") (auto dest!: get_esc_shorter simp: less_diff_conv)

declare class_match.simps [simp del]

lemma class_match_shorter: "class_match x f m p = Some (b, r) \<Longrightarrow> length r \<le> length p"
proof (induction x f m p rule: class_match.induct)
  case (1 x f m p)
  from "1.prems" [unfolded class_match.simps [of x f m p]] show ?case
    using "1.IH" by (fastforce split: if_splits option.splits prod.splits dest: get_esc_shorter)
qed

text \<open>
  \<open>filepath.Match\<close>: a star stands for any characters but the separator; a malformed pattern
  matches nothing.
\<close>

function path_match :: "string \<Rightarrow> string \<Rightarrow> bool" where
  "path_match p s =
     (case p of
        [] \<Rightarrow> s = []
      | c # r \<Rightarrow>
          if c = CHR ''*'' then
            path_match r s \<or> (case s of [] \<Rightarrow> False | x # s' \<Rightarrow> x \<noteq> CHR ''/'' \<and> path_match p s')
          else (case s of
            [] \<Rightarrow> False
          | x # s' \<Rightarrow>
              if c = CHR ''?'' then x \<noteq> CHR ''/'' \<and> path_match r s'
              else if c = CHR ''['' then
                (let neg = (r \<noteq> [] \<and> hd r = CHR ''^'') in
                 case class_match x True False (if neg then tl r else r) of
                   None \<Rightarrow> False
                 | Some (m, r') \<Rightarrow> x \<noteq> CHR ''/'' \<and> m \<noteq> neg \<and> path_match r' s')
              else if c = CHR 0x5C then
                (case r of [] \<Rightarrow> False | e # r' \<Rightarrow> x = e \<and> path_match r' s')
              else x = c \<and> path_match r s'))"
  by pat_completeness auto
termination
  by (relation "measure (\<lambda>(p, s). length p + length s)")
     (auto dest!: class_match_shorter split: if_splits)

declare path_match.simps [simp del]

definition plain_name :: "string \<Rightarrow> bool" where
  "plain_name s = (\<forall>c \<in> set s. c \<noteq> CHR ''*'' \<and> c \<noteq> CHR ''?'' \<and> c \<noteq> CHR ''['' \<and> c \<noteq> CHR 0x5C)"

text \<open>\<open>filepath.Split\<close> and \<open>cleanGlobPath\<close>, which drops the separator at the end.\<close>

definition split_path :: "string \<Rightarrow> string \<times> string" where
  "split_path p = (take (length p - length (last_elem p)) p, last_elem p)"

definition cleanGlobPath :: "string \<Rightarrow> string" where
  "cleanGlobPath p = (if p = [] then ''.'' else if p = ''/'' then p else butlast p)"

text \<open>
  The names in a directory, sorted: the elements that follow it in the paths of the disk, so that a
  directory is listed when a file is below it.  The system finds the directory under any path that
  cleans to it.
\<close>

definition dir_prefix :: "string \<Rightarrow> string" where
  "dir_prefix dir = (let c = filepath_Clean dir in if c = ''.'' then [] else if c = ''/'' then c else c @ ''/'')"

definition Readdirnames :: "string \<Rightarrow> disk \<Rightarrow> string list" where
  "Readdirnames dir d =
     (let pre = dir_prefix dir in
      sort (remdups (map (\<lambda>p. takeWhile (\<lambda>c. c \<noteq> CHR ''/'') (drop (length pre) p))
        (filter (\<lambda>p. take (length pre) p = pre) (map fst d)))))"

definition glob_dir :: "string \<Rightarrow> string \<Rightarrow> disk \<Rightarrow> string list" where
  "glob_dir dir pat d = map (\<lambda>n. filepath_Join [dir, n]) (filter (path_match pat) (Readdirnames dir d))"

text \<open>
  \<open>filepath.Glob\<close>: a pattern without special characters is a path, one without them in its directory is
  matched in that directory, and otherwise the directories are found first.
\<close>

lemma last_elem_le: "length (last_elem p) \<le> length p"
  using length_takeWhile_le [of _ "rev p"] by (simp add: last_elem_def)

lemma cleanGlobPath_shorter: "\<not> plain_name (cleanGlobPath (fst (split_path p))) \<Longrightarrow> length (cleanGlobPath (fst (split_path p))) < length p"
  using last_elem_le [of p] by (auto simp: cleanGlobPath_def split_path_def plain_name_def split: if_splits)

function glob :: "string \<Rightarrow> disk \<Rightarrow> string list" where
  "glob pat d =
     (let dir = cleanGlobPath (fst (split_path pat)); name = snd (split_path pat) in
      if plain_name pat then (if content d pat \<noteq> None then [pat] else [])
      else if plain_name dir then glob_dir dir name d
      else concat (map (\<lambda>x. glob_dir x name d) (glob dir d)))"
  by pat_completeness auto
termination
  by (relation "measure (\<lambda>(pat, d). length pat)") (auto dest: cleanGlobPath_shorter)

declare glob.simps [simp del]

lemma path_match_plain:
  "plain_name p \<Longrightarrow> path_match (p @ q) s \<longleftrightarrow> (\<exists>t. s = p @ t \<and> path_match q t)"
proof (induction p arbitrary: s)
  case (Cons c p)
  then have p: "plain_name p" and c: "c \<noteq> CHR ''*''" "c \<noteq> CHR ''?''" "c \<noteq> CHR ''[''" "c \<noteq> CHR 0x5C"
    by (auto simp: plain_name_def)
  show ?case
  proof (cases s)
    case Nil
    then show ?thesis by (subst path_match.simps) (simp add: c)
  next
    case (Cons x s')
    then show ?thesis
      by (subst path_match.simps) (auto simp: c Cons.IH [OF p])
  qed
qed simp

lemma path_match_star: "path_match ''*'' s \<longleftrightarrow> CHR ''/'' \<notin> set s"
proof (induction s)
  case Nil
  show ?case by (subst path_match.simps, simp, subst path_match.simps, simp)
next
  case (Cons x s)
  have "path_match ''*'' (x # s) \<longleftrightarrow> path_match [] (x # s) \<or> (x \<noteq> CHR ''/'' \<and> path_match ''*'' s)"
    by (subst path_match.simps) simp
  moreover have "\<not> path_match [] (x # s)" by (subst path_match.simps) simp
  ultimately show ?case using Cons.IH by auto
qed

section \<open>Joining a directory and a name\<close>

definition simple_name :: "string \<Rightarrow> bool" where
  "simple_name n = (n \<noteq> [] \<and> n \<noteq> ''.'' \<and> n \<noteq> ''..'' \<and> CHR ''/'' \<notin> set n)"

text \<open>A clean absolute directory: \<open>/\<close> and named elements.\<close>

definition clean_dir :: "string \<Rightarrow> bool" where
  "clean_dir d = (\<exists>es. es \<noteq> [] \<and> (\<forall>e \<in> set es. simple_name e) \<and> d = CHR ''/'' # join_slash es)"

lemma split_join_slash:
  "es \<noteq> [] \<Longrightarrow> \<forall>e \<in> set es. CHR ''/'' \<notin> set e \<Longrightarrow> split_char CHR ''/'' (join_slash es) = es"
  by (induction es rule: join_slash.induct) (auto simp: split_char_no_sep split_char_append)

lemma clean_elems_simple:
  "\<forall>e \<in> set es. simple_name e \<Longrightarrow> clean_elems r st es = rev st @ es"
  by (induction es arbitrary: st) (auto simp: simple_name_def)

lemma join_slash_snoc: "es \<noteq> [] \<Longrightarrow> join_slash (es @ [e]) = join_slash es @ CHR ''/'' # e"
  by (induction es rule: join_slash.induct) auto

lemma clean_elems_append:
  "clean_elems r st (as @ bs) = clean_elems r (rev (clean_elems r st as)) bs"
  by (induction r st as rule: clean_elems.induct) (auto split: list.splits)

lemma Join_clean_dir:
  assumes "\<forall>e \<in> set es. simple_name e" "es \<noteq> []" "d = CHR ''/'' # join_slash es" "n \<noteq> []"
  shows "filepath_Join [d, n] = CHR ''/'' # join_slash (clean_elems True (rev es) (split_char CHR ''/'' n))"
proof -
  have ns: "\<forall>e \<in> set es. CHR ''/'' \<notin> set e" using assms by (auto simp: simple_name_def)
  have sa: "split_char CHR ''/'' (a @ CHR ''/'' # b) = split_char CHR ''/'' a @ split_char CHR ''/'' b" for a b
    by (induction a) (auto split: list.splits)
  have "split_char CHR ''/'' (d @ CHR ''/'' # n) = ([] # es) @ split_char CHR ''/'' n"
    unfolding sa by (simp add: assms(3) split_join_slash [OF assms(2) ns])
  moreover have "clean_elems True [] (([] # es) @ xs) = clean_elems True (rev es) xs" for xs
    using clean_elems_append [of True "[]" "es" xs] clean_elems_simple [OF assms(1), of True "[]"]
    by simp
  moreover have "filepath_Join [d, n] = filepath_Clean (d @ CHR ''/'' # n)"
    using assms(3,4) by (simp add: filepath_Join_def)
  ultimately show ?thesis
    by (simp add: filepath_Clean_def assms(3) Let_def)
qed

lemma Join_simple:
  assumes "clean_dir d" "simple_name n"
  shows "filepath_Join [d, n] = d @ CHR ''/'' # n"
proof -
  obtain es where es: "es \<noteq> []" "\<forall>e \<in> set es. simple_name e" "d = CHR ''/'' # join_slash es"
    using assms(1) by (auto simp: clean_dir_def)
  have n: "n \<noteq> []" "CHR ''/'' \<notin> set n" using assms(2) by (auto simp: simple_name_def)
  have "clean_elems True (rev es) [n] = es @ [n]"
    using assms(2) by (simp add: simple_name_def)
  then show ?thesis
    using Join_clean_dir [OF es(2,1,3) n(1)] n(2) es join_slash_snoc [of es n]
    by (simp add: split_char_no_sep)
qed

section \<open>The files that begin with a text\<close>

text \<open>The pattern of the code: a directory, a name and a star.\<close>

lemma glob_in_directory:
  assumes "plain_name dir" "plain_name f" "CHR ''/'' \<notin> set f" "dir \<noteq> []"
  shows "glob (dir @ CHR ''/'' # f @ ''*'') d =
     map (\<lambda>n. filepath_Join [dir, n]) (filter (\<lambda>n. \<exists>t. n = f @ t \<and> CHR ''/'' \<notin> set t) (Readdirnames dir d))"
proof -
  have s: "split_path (dir @ CHR ''/'' # f @ ''*'') = (dir @ ''/'', f @ ''*'')"
    using last_elem_append [of "f @ ''*''" dir] assms(3) by (simp add: split_path_def)
  have c: "cleanGlobPath (dir @ ''/'') = dir" using assms(4) by (cases dir) (simp_all add: cleanGlobPath_def)
  have "\<not> plain_name (dir @ CHR ''/'' # f @ ''*'')" by (simp add: plain_name_def)
  moreover have "path_match (f @ ''*'') = (\<lambda>n. \<exists>t. n = f @ t \<and> CHR ''/'' \<notin> set t)"
    using path_match_plain [OF assms(2), of "''*''"] by (simp add: fun_eq_iff path_match_star)
  ultimately show ?thesis
    by (subst glob.simps) (simp add: s c assms(1) glob_dir_def Let_def)
qed

lemma dom_content: "dom (content d) = fst ` set d"
  using dom_map_of_conv_image_fst [of d] by (simp add: content_def [abs_def])

lemma Readdirnames_set:
  assumes "clean_dir c" "filepath_Clean dir = c"
  shows "set (Readdirnames dir d) = {takeWhile (\<lambda>x. x \<noteq> CHR ''/'') r | r. c @ CHR ''/'' # r \<in> dom (content d)}"
proof -
  obtain es where es: "es \<noteq> []" "\<forall>e \<in> set es. simple_name e" "c = CHR ''/'' # join_slash es"
    using assms(1) by (auto simp: clean_dir_def)
  have "join_slash es \<noteq> []" using es(1,2) by (cases es rule: join_slash.cases) (auto simp: simple_name_def)
  then have pre: "dir_prefix dir = c @ ''/''" using es(3) assms(2) by (simp add: dir_prefix_def)
  define sep where "sep = c @ ''/''"
  let ?first = "takeWhile (\<lambda>x. x \<noteq> CHR ''/'')"
  have "set (Readdirnames dir d) = {?first (drop (length sep) p) | p. p \<in> dom (content d) \<and> take (length sep) p = sep}"
    unfolding Readdirnames_def pre dom_content sep_def by (simp add: Let_def setcompr_eq_image del: length_append)
  also have "\<dots> = {?first r | r. sep @ r \<in> dom (content d)}"
  proof (intro Collect_cong iffI)
    fix x
    assume "\<exists>p. x = ?first (drop (length sep) p) \<and> p \<in> dom (content d) \<and> take (length sep) p = sep"
    then obtain p where p: "x = ?first (drop (length sep) p)" "p \<in> dom (content d)" "take (length sep) p = sep" by blast
    have "p = sep @ drop (length sep) p" using append_take_drop_id [of "length sep" p] p(3) by simp
    then show "\<exists>r. x = ?first r \<and> sep @ r \<in> dom (content d)" using p(1,2) by metis
  next
    fix x
    assume "\<exists>r. x = ?first r \<and> sep @ r \<in> dom (content d)"
    then obtain r where "x = ?first r" "sep @ r \<in> dom (content d)" by blast
    then show "\<exists>p. x = ?first (drop (length sep) p) \<and> p \<in> dom (content d) \<and> take (length sep) p = sep"
      by (intro exI [of _ "sep @ r"]) simp
  qed
  finally show ?thesis by (simp add: sep_def)
qed

text \<open>A file directly in the directory is found, whatever path names the directory.\<close>

lemma glob_finds:
  assumes "plain_name dir" "plain_name f" "CHR ''/'' \<notin> set f" "dir \<noteq> []" "clean_dir c" "filepath_Clean dir = c"
    and "\<And>n. simple_name n \<Longrightarrow> filepath_Join [dir, n] = c @ CHR ''/'' # n"
    and "simple_name (f @ t)" "content d (c @ CHR ''/'' # f @ t) \<noteq> None"
  shows "c @ CHR ''/'' # f @ t \<in> set (glob (dir @ CHR ''/'' # f @ ''*'') d)"
proof -
  have no: "CHR ''/'' \<notin> set (f @ t)" using assms(8) by (simp add: simple_name_def)
  have "takeWhile (\<lambda>x. x \<noteq> CHR ''/'') (f @ t) = f @ t" using no by (subst takeWhile_eq_all_conv) auto
  moreover have "c @ CHR ''/'' # f @ t \<in> dom (content d)" using assms(9) by (simp add: domIff)
  ultimately have "f @ t \<in> set (Readdirnames dir d)"
    unfolding Readdirnames_set [OF assms(5,6)] by (intro CollectI exI [of _ "f @ t"] conjI) (simp_all only:)
  then have "f @ t \<in> set (filter (\<lambda>n. \<exists>t. n = f @ t \<and> CHR ''/'' \<notin> set t) (Readdirnames dir d))" using no by simp
  then have "filepath_Join [dir, f @ t] \<in> set (glob (dir @ CHR ''/'' # f @ ''*'') d)"
    unfolding glob_in_directory [OF assms(1-4)] set_map by (rule imageI)
  then show ?thesis by (simp only: assms(7) [OF assms(8)])
qed

lemma Clean_rooted:
  assumes "xs \<noteq> []" "\<forall>x \<in> set xs. CHR ''/'' \<notin> set x"
  shows "filepath_Clean (CHR ''/'' # join_slash xs) = CHR ''/'' # join_slash (clean_elems True [] xs)"
  using split_join_slash [OF assms] by (simp add: filepath_Clean_def Let_def)

lemma Clean_clean_dir: "clean_dir c \<Longrightarrow> filepath_Clean c = c"
  unfolding clean_dir_def by (metis Clean_rooted clean_elems_simple rev.simps(1) append_Nil simple_name_def)

lemma distinct_singleton: "set xs = {a} \<Longrightarrow> distinct xs \<Longrightarrow> xs = [a]"
  by (cases xs; cases "tl xs") auto

text \<open>The only file whose name begins so is the only one found.\<close>

lemma glob_single:
  assumes "clean_dir dir" "plain_name dir" "plain_name f" "CHR ''/'' \<notin> set f" "simple_name (f @ t)"
    and "content d (dir @ CHR ''/'' # f @ t) \<noteq> None"
    and "\<And>r. content d (dir @ CHR ''/'' # f @ r) \<noteq> None \<Longrightarrow> r = t"
  shows "glob (dir @ CHR ''/'' # f @ ''*'') d = [dir @ CHR ''/'' # f @ t]"
proof -
  let ?first = "takeWhile (\<lambda>x. x \<noteq> CHR ''/'')"
  let ?names = "filter (\<lambda>n. \<exists>t. n = f @ t \<and> CHR ''/'' \<notin> set t) (Readdirnames dir d)"
  have no: "CHR ''/'' \<notin> set (f @ t)" using assms(5) by (simp add: simple_name_def)
  have first: "?first (f @ r) = f @ ?first r" for r using assms(4) by (induction f) auto
  have ft: "?first (f @ t) = f @ t" using no by (subst takeWhile_eq_all_conv) auto
  have ne: "dir \<noteq> []" using assms(1) by (auto simp: clean_dir_def)
  have names: "set (Readdirnames dir d) = {?first r | r. dir @ CHR ''/'' # r \<in> dom (content d)}"
    by (rule Readdirnames_set [OF assms(1) Clean_clean_dir [OF assms(1)]])
  have "n = f @ t" if n: "n \<in> set ?names" for n
  proof -
    obtain r where r: "dir @ CHR ''/'' # r \<in> dom (content d)" "n = ?first r" using n names by auto
    obtain u where u: "n = f @ u" using n by auto
    have "r = f @ drop (length f) r"
    proof -
      have "?first r = f @ u" using r(2) u by simp
      then have "take (length f) r = f" using takeWhile_dropWhile_id [of "\<lambda>x. x \<noteq> CHR ''/''" r] by (metis append.assoc append_eq_conv_conj)
      then show ?thesis by (metis append_take_drop_id)
    qed
    then have "drop (length f) r = t" using assms(7) [of "drop (length f) r"] r(1) by (auto simp: domIff)
    with \<open>r = f @ drop (length f) r\<close> have "r = f @ t" by simp
    then show ?thesis using r(2) ft by simp
  qed
  moreover have "f @ t \<in> set ?names"
  proof -
    have "dir @ CHR ''/'' # f @ t \<in> dom (content d)" using assms(6) by (simp add: domIff)
    with ft have "f @ t \<in> set (Readdirnames dir d)"
      unfolding names by (intro CollectI exI [of _ "f @ t"] conjI) (simp_all only:)
    then show ?thesis using no by simp
  qed
  ultimately have "set ?names = {f @ t}" by blast
  moreover have "distinct ?names" by (simp add: Readdirnames_def Let_def)
  ultimately have "?names = [f @ t]" by (rule distinct_singleton)
  then show ?thesis
    unfolding glob_in_directory [OF assms(2-4) ne] by (simp add: Join_simple [OF assms(1,5)])
qed

end
