(* ===== verification/Handler.thy ===== *)
theory Handler
  imports GoFiles NodeMsg Utils
begin

text \<open>
  The connection manager of node/handler.go: the message loop of one connection, and the client
  that sends files over one.  What the operating system, the chain and the cache answer while one
  message is handled is a \<open>msg_io\<close>; the disk is state.
\<close>

section \<open>State\<close>

record handler_env =
  he_dir :: string
  he_b58enc :: "bytes \<Rightarrow> string"
  he_sum512 :: "bytes \<Rightarrow> bytes"
  he_kr :: "string \<Rightarrow> bytes \<Rightarrow> bytes \<Rightarrow> bool outcome"

text \<open>
  \<open>io_write\<close> is a failing \<open>Write\<close> with the number of bytes it wrote.
\<close>

record msg_io =
  io_meta :: "nat \<Rightarrow> go_error + string"
  io_open :: "go_error option"
  io_write :: "(nat \<times> go_error) option"
  io_stat :: "go_error option"
  io_cache :: bytes

record conn_state =
  cs_disk :: disk
  cs_fs :: "open_file option"
  cs_fileName :: string
  cs_sent :: "Message list"
  cs_wait :: "bool list"
  cs_backups :: "(string \<times> int \<times> string list) list"

definition new_conn :: "disk \<Rightarrow> conn_state" where
  "new_conn d = \<lparr>cs_disk = d, cs_fs = None, cs_fileName = [], cs_sent = [], cs_wait = [],
     cs_backups = []\<rparr>"

definition send_msg :: "Message \<Rightarrow> conn_state \<Rightarrow> conn_state" where
  "send_msg m s = s\<lparr>cs_sent := cs_sent s @ [m]\<rparr>"

text \<open>
  One round of the loop ends by going on, by returning an error, by a panic that the deferred
  \<open>recover\<close> stops, or by blocking on the full channel \<open>waitNotify\<close>.
\<close>

datatype round = Go conn_state | Stop conn_state go_error | Fault conn_state | Hang conn_state

fun round_state :: "round \<Rightarrow> conn_state" where
  "round_state (Go s) = s"
| "round_state (Stop s e) = s"
| "round_state (Fault s) = s"
| "round_state (Hang s) = s"

definition reject :: "conn_state \<Rightarrow> go_error \<Rightarrow> round" where
  "reject s e = Stop (send_msg (buildNotifyMsg [] Status_Err []) s) e"

section \<open>The message loop\<close>

definition handle_head :: "handler_env \<Rightarrow> msg_io \<Rightarrow> Message \<Rightarrow> conn_state \<Rightarrow> round" where
  "handle_head env io m s =
     (case VerifySign (he_b58enc env) (he_sum512 env) (he_kr env) (m_Pubkey m) (m_SignMsg m) (m_Sign m) of
        Panic \<Rightarrow> Fault s
      | Ret (Inl e) \<Rightarrow> reject s ''Signature error''
      | Ret (Inr False) \<Rightarrow> reject s ''Signature error''
      | Ret (Inr True) \<Rightarrow>
          (case GetFileState (io_meta io) of
             Inl e \<Rightarrow> reject s ''Get file state error''
           | Inr fileState \<Rightarrow>
               if fileState = FILE_STATE_ACTIVE then reject s ''File uploaded''
               else
                 let s1 = s\<lparr>cs_fileName := m_FileName m\<rparr> in
                 (case io_open io of
                    Some e \<Rightarrow> reject (s1\<lparr>cs_fs := None\<rparr>) e
                  | None \<Rightarrow>
                      let (f, d) = open_trunc (filepath_Join [he_dir env, m_FileName m]) (cs_disk s1);
                          s2 = s1\<lparr>cs_fs := Some f, cs_disk := d\<rparr> in
                      Go (send_msg (buildNotifyMsg (cs_fileName s2) Status_Ok []) s2))))"

definition handle_file_state :: "msg_io \<Rightarrow> Message \<Rightarrow> conn_state \<Rightarrow> round" where
  "handle_file_state io m s =
     Go (send_msg (buildNotifyMsg [] Status_Ok [])
          (send_msg (buildFileStMsg (m_FileHash m) (io_cache io)) s))"

definition handle_file :: "msg_io \<Rightarrow> Message \<Rightarrow> conn_state \<Rightarrow> round" where
  "handle_file io m s =
     (case cs_fs s of
        None \<Rightarrow> Stop (send_msg (buildCloseMsg Status_Err) s) ''File not open''
      | Some f \<Rightarrow>
          (case slice_to (m_Bytes m) (unat (m_FileSize m)) of
             Panic \<Rightarrow> Fault s
           | Ret bs \<Rightarrow>
               (case io_write io of
                  Some (k, e) \<Rightarrow>
                    let (f', d) = file_write f (take k bs) (cs_disk s) in
                    Stop (send_msg (buildCloseMsg Status_Err) (s\<lparr>cs_fs := Some f', cs_disk := d\<rparr>))
                      ''File write failed''
                | None \<Rightarrow>
                    let (f', d) = file_write f bs (cs_disk s) in
                    Go (s\<lparr>cs_fs := Some f', cs_disk := d\<rparr>))))"

text \<open>\<open>Stat\<close> on the nil file is an error, not a panic.\<close>

definition handle_end :: "handler_env \<Rightarrow> msg_io \<Rightarrow> Message \<Rightarrow> conn_state \<Rightarrow> round" where
  "handle_end env io m s =
     (case cs_fs s of
        None \<Rightarrow> reject s ''Invalid file''
      | Some f \<Rightarrow>
          if io_stat io \<noteq> None then reject s ''Invalid file''
          else if int (file_length f (cs_disk s)) \<noteq> sint (m_FileSize m) then
            reject s (''file.size '' @ show_nat (file_length f (cs_disk s)) @ '' rece size ''
                @ show_nat (unat (m_FileSize m)) @ '' '' @ [CHR 0x0A])
          else
            let s1 = (send_msg (buildNotifyMsg (cs_fileName s) Status_Ok []) s)\<lparr>cs_fs := None\<rparr> in
            if m_LastMark m then
              let allChunksPath = glob (he_dir env @ ''/'' @ m_FileHash m @ ''*'') (cs_disk s1) in
              (case Uint64 (m_SignMsg m) of
                 Panic \<Rightarrow> Fault s1
               | Ret filesize \<Rightarrow>
                   Go (s1\<lparr>cs_backups := cs_backups s1 @ [(m_FileHash m, sint filesize, allChunksPath)]\<rparr>))
            else Go s1)"

definition handle_notify :: "Message \<Rightarrow> conn_state \<Rightarrow> round" where
  "handle_notify m s =
     (case visible (m_Bytes m) of
        [] \<Rightarrow> Fault s
      | b # _ \<Rightarrow>
          if length (cs_wait s) < 1 then Go (s\<lparr>cs_wait := cs_wait s @ [b = Status_Ok]\<rparr>) else Hang s)"

definition handle_msg :: "handler_env \<Rightarrow> msg_io \<Rightarrow> Message \<Rightarrow> conn_state \<Rightarrow> round" where
  "handle_msg env io m s =
     (if m_MsgType m = MsgHead then handle_head env io m s
      else if m_MsgType m = MsgFileSt then handle_file_state io m s
      else if m_MsgType m = MsgFile then handle_file io m s
      else if m_MsgType m = MsgEnd then handle_end env io m s
      else if m_MsgType m = MsgNotify then handle_notify m s
      else if m_MsgType m = MsgClose then Stop s ''Close message''
      else if m_MsgType m = MsgVersion then Go (send_msg (buildVersionMsg Version) s)
      else Stop s ''Invalid msgType'')"

text \<open>
  What \<open>GetMsg\<close> yields each time: a message, nothing within the waiting time (\<open>nil, true\<close>),
  or the closed channel.  The end of the list is the connection found closed at the loop's head.
\<close>

datatype arrival = Arrive msg_io Message | Quiet | Lost

fun handler_loop :: "handler_env \<Rightarrow> arrival list \<Rightarrow> conn_state \<Rightarrow> round" where
  "handler_loop env [] s = Go s"
| "handler_loop env (Lost # as) s = Stop s ''Get msg failed and handler exit''"
| "handler_loop env (Quiet # as) s = handler_loop env as s"
| "handler_loop env (Arrive io m # as) s =
     (case handle_msg env io m s of
        Go s' \<Rightarrow> handler_loop env as s'
      | r \<Rightarrow> r)"

section \<open>The client\<close>

text \<open>
  A notification is what the select on \<open>waitNotify\<close> sees: a status (a closed channel reads as
  \<open>False\<close>) or the timer.
\<close>

datatype notification = Notified bool | TimedOut

text \<open>
  The reading loop: \<open>closed i\<close> is \<open>IsClose()\<close> before the i-th read and \<open>fails i\<close>
  the error of that read; a read fills the buffer of \<open>TCP_SendBuffer\<close> bytes or ends the file.
\<close>

function send_chunks ::
  "(nat \<Rightarrow> bool) \<Rightarrow> (nat \<Rightarrow> go_error option) \<Rightarrow> bytes \<Rightarrow> string \<Rightarrow> u8 \<Rightarrow> nat \<Rightarrow> bytes
   \<Rightarrow> Message list \<times> go_error option" where
  "send_chunks closed fails stale name filetype i rest =
     (if closed i then ([], None)
      else case fails i of
             Some e \<Rightarrow> ([], Some e)
           | None \<Rightarrow>
               let buf = take TCP_SendBuffer rest in
               if length buf = 0 then ([], None)
               else
                 let (ms, e) = send_chunks closed fails stale name filetype (i + 1)
                                 (drop TCP_SendBuffer rest) in
                 (buildFileMsg stale name filetype (length buf) buf # ms, e))"
  by pat_completeness auto
termination
  by (relation "measure (\<lambda>(c, f, st, n, t, i, rest). length rest)") (auto simp: TCP_SendBuffer_def)

declare send_chunks.simps [simp del]

text \<open>
  The wait for the last notification, in nanoseconds of \<open>time.Duration\<close>, a signed 64-bit
  integer: one second for each \<open>TCP_Transmission_Slowest\<close> bytes, and six seconds at least.
\<close>

definition int64 :: "int \<Rightarrow> int" where
  "int64 x = signed_take_bit 63 x"

definition end_wait :: "int \<Rightarrow> int" where
  "end_wait sz =
     (let waitTime = sz div int TCP_Transmission_Slowest;
          floor_ns = 1000000 * int TCP_Time_WaitNotification in
      if int64 (1000000000 * waitTime) < floor_ns then floor_ns else int64 (1000000000 * waitTime))"

record send_io =
  si_open :: "go_error option"
  si_head :: notification
  si_closed :: "nat \<Rightarrow> bool"
  si_fails :: "nat \<Rightarrow> go_error option"
  si_end :: notification

definition sendSingleFile ::
  "bytes \<Rightarrow> send_io \<Rightarrow> disk \<Rightarrow> string \<Rightarrow> string \<Rightarrow> u8 \<Rightarrow> bool \<Rightarrow> bytes \<Rightarrow> bytes \<Rightarrow> bytes
   \<Rightarrow> Message list \<times> go_error option" where
  "sendSingleFile stale io d filePath fid filetype lastmark pkey signmsg sign =
     (case (si_open io, content d filePath) of
        (Some e, _) \<Rightarrow> ([], Some e)
      | (None, None) \<Rightarrow> ([], Some ''no such file or directory'')
      | (None, Some bs) \<Rightarrow>
          let name = filepath_Base filePath;
              head_msg = buildHeadMsg name fid filetype lastmark pkey signmsg sign in
          (case si_head io of
             Notified False \<Rightarrow> ([head_msg], Some ''HeadMsg notification failed'')
           | TimedOut \<Rightarrow> ([head_msg], Some ''Timeout waiting for HeadMsg notification'')
           | Notified True \<Rightarrow>
               (case send_chunks (si_closed io) (si_fails io) stale name filetype 0 bs of
                  (ms, Some e) \<Rightarrow> (head_msg # ms, Some e)
                | (ms, None) \<Rightarrow>
                    let out = head_msg # ms
                          @ [buildEndMsg filetype name fid (word_of_nat (length bs)) lastmark] in
                    (case si_end io of
                       Notified False \<Rightarrow> (out, Some ''EndMsg notification failed'')
                     | TimedOut \<Rightarrow> (out, Some ''Timeout waiting for EndMsg notification'')
                     | Notified True \<Rightarrow> (out, None)))))"

text \<open>
  \<open>sendFile\<close> sends the files one after the other, under the name before its suffix as file
  identifier, marks the last, stops at the first error and closes the conversation.
\<close>

fun send_files ::
  "bytes \<Rightarrow> disk \<Rightarrow> u8 \<Rightarrow> bytes \<Rightarrow> bytes \<Rightarrow> bytes \<Rightarrow> (send_io \<times> string) list
   \<Rightarrow> Message list \<times> go_error option" where
  "send_files stale d filetype pkey signmsg sign [] = ([], None)"
| "send_files stale d filetype pkey signmsg sign ((io, f) # fs) =
     (let (ms, e) = sendSingleFile stale io d f (GetFileNameWithoutSuffix f) filetype (fs = [])
                      pkey signmsg sign in
      if e \<noteq> None then (ms, e)
      else let (ms', e') = send_files stale d filetype pkey signmsg sign fs in (ms @ ms', e'))"

definition sendFile ::
  "bytes \<Rightarrow> disk \<Rightarrow> u8 \<Rightarrow> bytes \<Rightarrow> bytes \<Rightarrow> bytes \<Rightarrow> (send_io \<times> string) list
   \<Rightarrow> Message list \<times> go_error option" where
  "sendFile stale d filetype pkey signmsg sign files =
     (let (ms, e) = send_files stale d filetype pkey signmsg sign files in
      (ms @ [buildCloseMsg Status_Ok], e))"

section \<open>What a round may do\<close>

text \<open>
  A head message is granted when its signature verifies and the chain knows the file and has not
  stored it yet.
\<close>

definition granted :: "handler_env \<Rightarrow> msg_io \<Rightarrow> Message \<Rightarrow> bool" where
  "granted env io m =
     (m_MsgType m = MsgHead
      \<and> VerifySign (he_b58enc env) (he_sum512 env) (he_kr env) (m_Pubkey m) (m_SignMsg m) (m_Sign m)
          = Ret (Inr True)
      \<and> (case GetFileState (io_meta io) of Inl e \<Rightarrow> False | Inr st \<Rightarrow> st \<noteq> FILE_STATE_ACTIVE))"

definition upload_path :: "handler_env \<Rightarrow> Message \<Rightarrow> string" where
  "upload_path env m = filepath_Join [he_dir env, m_FileName m]"

lemmas round_defs = handle_msg_def handle_head_def handle_file_state_def handle_file_def
  handle_end_def handle_notify_def reject_def send_msg_def Let_def file_write_def open_trunc_def

lemma handle_head_cases:
  assumes "m_MsgType m = MsgHead" and "\<not> granted env io m"
  shows "cs_disk (round_state (handle_msg env io m s)) = cs_disk s
     \<and> cs_fs (round_state (handle_msg env io m s)) = cs_fs s
     \<and> cs_backups (round_state (handle_msg env io m s)) = cs_backups s"
  using assms
  by (auto simp: handle_msg_def handle_head_def reject_def send_msg_def granted_def Let_def
      split: outcome.splits sum.splits bool.splits if_splits)

lemma handle_head_granted:
  assumes "granted env io m"
  shows "handle_msg env io m s =
     (case io_open io of
        Some e \<Rightarrow> reject (s\<lparr>cs_fileName := m_FileName m, cs_fs := None\<rparr>) e
      | None \<Rightarrow> Go (send_msg (buildNotifyMsg (m_FileName m) Status_Ok [])
          (s\<lparr>cs_fileName := m_FileName m,
             cs_fs := Some \<lparr>of_path = upload_path env m, of_off = 0\<rparr>,
             cs_disk := put_file (upload_path env m) [] (cs_disk s)\<rparr>)))"
  using assms
  by (simp add: handle_msg_def handle_head_def granted_def Let_def open_trunc_def upload_path_def
      split: sum.splits option.splits)

lemma other_not_granted: "m_MsgType m \<noteq> MsgHead \<Longrightarrow> \<not> granted env io m"
  by (simp add: granted_def)

lemma handle_file_round:
  "cs_backups (round_state (handle_file io m s)) = cs_backups s"
  "cs_fs s = None \<Longrightarrow> cs_disk (round_state (handle_file io m s)) = cs_disk s
     \<and> cs_fs (round_state (handle_file io m s)) = None"
  "cs_fs s = Some f \<Longrightarrow> \<exists>f'. cs_fs (round_state (handle_file io m s)) = Some f' \<and> of_path f' = of_path f"
  "cs_fs s = Some f \<Longrightarrow> p \<noteq> of_path f \<Longrightarrow>
     content (cs_disk (round_state (handle_file io m s))) p = content (cs_disk s) p"
  by (auto simp: handle_file_def send_msg_def file_write_def Let_def
      split: outcome.splits option.splits prod.splits)

lemma handle_end_round:
  "cs_disk (round_state (handle_end env io m s)) = cs_disk s"
  "cs_fs (round_state (handle_end env io m s)) = cs_fs s
     \<or> cs_fs (round_state (handle_end env io m s)) = None"
  by (auto simp: handle_end_def reject_def send_msg_def Let_def
      split: outcome.splits option.splits)

lemma handle_other_round:
  assumes "m_MsgType m \<noteq> MsgHead" "m_MsgType m \<noteq> MsgFile" "m_MsgType m \<noteq> MsgEnd"
  shows "cs_disk (round_state (handle_msg env io m s)) = cs_disk s"
    and "cs_fs (round_state (handle_msg env io m s)) = cs_fs s"
    and "cs_backups (round_state (handle_msg env io m s)) = cs_backups s"
  using assms
  by (auto simp: handle_msg_def handle_file_state_def handle_notify_def send_msg_def
      split: list.splits)

lemma round_types [simp]:
  "m_MsgType m = MsgFile \<Longrightarrow> handle_msg env io m s = handle_file io m s"
  "m_MsgType m = MsgEnd \<Longrightarrow> handle_msg env io m s = handle_end env io m s"
  "m_MsgType m = MsgNotify \<Longrightarrow> handle_msg env io m s = handle_notify m s"
  by (simp_all add: handle_msg_def msg_defs)

text \<open>
  The files a connection has been granted are the paths of its granted heads: \<open>ok p\<close> is any
  property of paths that all of those have.
\<close>

lemma round_fs:
  assumes "granted env io m \<Longrightarrow> ok (upload_path env m)"
    and "\<And>f. cs_fs s = Some f \<Longrightarrow> ok (of_path f)"
    and "cs_fs (round_state (handle_msg env io m s)) = Some f"
  shows "ok (of_path f)"
proof -
  consider (hd) "granted env io m" | (nohead) "\<not> granted env io m" and "m_MsgType m = MsgHead"
    | (wr) "m_MsgType m = MsgFile" | (ending) "m_MsgType m = MsgEnd"
    | (other) "m_MsgType m \<noteq> MsgHead" and "m_MsgType m \<noteq> MsgFile" and "m_MsgType m \<noteq> MsgEnd"
    by blast
  then show ?thesis
  proof cases
    case hd
    with assms show ?thesis
      by (auto simp: handle_head_granted reject_def send_msg_def split: option.splits)
  next
    case nohead
    with assms(2,3) handle_head_cases [OF nohead(2,1), of s] show ?thesis by simp
  next
    case wr
    show ?thesis
    proof (cases "cs_fs s")
      case None
      with wr assms(3) handle_file_round(2) [OF None, of io m] show ?thesis by simp
    next
      case (Some f0)
      with wr assms(2,3) handle_file_round(3) [OF Some, of io m] show ?thesis by auto
    qed
  next
    case ending
    with assms(2,3) handle_end_round(2) [of env io m s] show ?thesis by auto
  next
    case other
    with assms(2,3) handle_other_round(2) [OF other, of env io s] show ?thesis by simp
  qed
qed

lemma round_disk:
  assumes "content (cs_disk (round_state (handle_msg env io m s))) p \<noteq> content (cs_disk s) p"
  shows "(granted env io m \<and> p = upload_path env m) \<or> (\<exists>f. cs_fs s = Some f \<and> p = of_path f)"
proof -
  consider (hd) "granted env io m" | (nohead) "\<not> granted env io m" and "m_MsgType m = MsgHead"
    | (wr) "m_MsgType m = MsgFile" | (ending) "m_MsgType m = MsgEnd"
    | (other) "m_MsgType m \<noteq> MsgHead" and "m_MsgType m \<noteq> MsgFile" and "m_MsgType m \<noteq> MsgEnd"
    by blast
  then show ?thesis
  proof cases
    case hd
    with assms show ?thesis
      by (auto simp: handle_head_granted reject_def send_msg_def split: option.splits if_splits)
  next
    case nohead
    with assms handle_head_cases [OF nohead(2,1), of s] show ?thesis by simp
  next
    case wr
    show ?thesis
    proof (cases "cs_fs s")
      case None
      with wr assms handle_file_round(2) [OF None, of io m] show ?thesis by simp
    next
      case (Some f0)
      with wr assms handle_file_round(4) [OF Some, of p io m] show ?thesis by auto
    qed
  next
    case ending
    with assms handle_end_round(1) [of env io m s] show ?thesis by simp
  next
    case other
    with assms handle_other_round(1) [OF other, of env io s] show ?thesis by simp
  qed
qed

lemma loop_disk:
  assumes "\<forall>io m. Arrive io m \<in> set as \<longrightarrow> granted env io m \<longrightarrow> ok (upload_path env m)"
    and "\<And>f. cs_fs s = Some f \<Longrightarrow> ok (of_path f)"
    and "content (cs_disk (round_state (handler_loop env as s))) p \<noteq> content (cs_disk s) p"
  shows "ok p"
  using assms
proof (induction env as s rule: handler_loop.induct)
  case (4 env io m as s)
  note IH = "4.IH" and prems = "4.prems"
  show ?case
  proof (cases "content (cs_disk (round_state (handle_msg env io m s))) p = content (cs_disk s) p")
    case False
    from round_disk [OF this] prems(1,2) show ?thesis by auto
  next
    case True
    with prems(3) obtain s' where s': "handle_msg env io m s = Go s'"
      by (cases "handle_msg env io m s") auto
    have "\<And>f. cs_fs s' = Some f \<Longrightarrow> ok (of_path f)"
      using round_fs [of env io m ok s] prems(1,2) s' by simp
    with IH [OF s'] prems True s' show ?thesis by simp
  qed
qed auto

section \<open>Uploads\<close>

definition quiet_io :: "msg_io \<Rightarrow> bool" where
  "quiet_io io = (io_open io = None \<and> io_write io = None \<and> io_stat io = None)"

lemma handle_file_ok:
  assumes "m_MsgType m = MsgFile" "cs_fs s = Some f" "io_write io = None"
    and "slice_to (m_Bytes m) (unat (m_FileSize m)) = Ret bs"
  shows "handle_msg env io m s =
     Go (s\<lparr>cs_fs := Some (fst (file_write f bs (cs_disk s))),
           cs_disk := snd (file_write f bs (cs_disk s))\<rparr>)"
  using assms by (simp add: handle_file_def split: prod.split)

lemma write_end:
  assumes "content d p = Some old"
  shows "fst (file_write \<lparr>of_path = p, of_off = length old\<rparr> bs d)
           = \<lparr>of_path = p, of_off = length (old @ bs)\<rparr>"
    and "content (snd (file_write \<lparr>of_path = p, of_off = length old\<rparr> bs d))
           = (content d)(p \<mapsto> old @ bs)"
  using assms by (auto simp: file_write_def)

lemma upload_chunks:
  assumes "cs_fs s = Some \<lparr>of_path = p, of_off = length old\<rparr>"
    and "content (cs_disk s) p = Some old" and "io_write io = None"
  shows "\<exists>d. content d = (content (cs_disk s))(p \<mapsto> old @ rest) \<and>
     handler_loop env (map (\<lambda>m. Arrive io (delivered m))
         (fst (send_chunks (\<lambda>_. False) (\<lambda>_. None) stale name ft i rest)) @ later) s
     = handler_loop env later
         (s\<lparr>cs_fs := Some \<lparr>of_path = p, of_off = length (old @ rest)\<rparr>, cs_disk := d\<rparr>)"
  using assms
proof (induction rest arbitrary: i old s rule: length_induct)
  case (1 rest)
  show ?case
  proof (cases "rest = []")
    case True
    have "(content (cs_disk s))(p \<mapsto> old) = content (cs_disk s)"
      using "1.prems"(2) by (simp add: map_upd_triv)
    moreover have "s = s\<lparr>cs_fs := Some \<lparr>of_path = p, of_off = length old\<rparr>, cs_disk := cs_disk s\<rparr>"
      using "1.prems"(1) by simp
    ultimately show ?thesis
      using True by (intro exI [of _ "cs_disk s"]) (simp add: send_chunks.simps)
  next
    case False
    let ?buf = "take TCP_SendBuffer rest" and ?r = "drop TCP_SendBuffer rest"
    let ?m = "buildFileMsg stale name ft (length ?buf) ?buf"
    have ne: "length ?buf \<noteq> 0" using False by (simp add: TCP_SendBuffer_def)
    have unroll: "fst (send_chunks (\<lambda>_. False) (\<lambda>_. None) stale name ft i rest)
        = ?m # fst (send_chunks (\<lambda>_. False) (\<lambda>_. None) stale name ft (i + 1) ?r)"
      using ne by (subst send_chunks.simps) (simp add: Let_def split: prod.split)
    have len: "length ?buf \<le> TCP_SendBuffer" by simp
    define w where "w = file_write \<lparr>of_path = p, of_off = length old\<rparr> ?buf (cs_disk s)"
    define s1 where "s1 = s\<lparr>cs_fs := Some (fst w), cs_disk := snd w\<rparr>"
    have step: "handle_msg env io (delivered ?m) s = Go s1"
      unfolding s1_def w_def
      by (rule handle_file_ok)
         (use "1.prems" slice_delivered_FileMsg [OF len, of stale name ft] in simp_all)
    note w = write_end [OF "1.prems"(2), of ?buf, folded w_def]
    have s1: "cs_fs s1 = Some \<lparr>of_path = p, of_off = length (old @ ?buf)\<rparr>"
      "content (cs_disk s1) = (content (cs_disk s))(p \<mapsto> old @ ?buf)"
      by (simp_all add: s1_def w)
    have lt: "length ?r < length rest" using False by (simp add: TCP_SendBuffer_def)
    obtain d where d: "content d = (content (cs_disk s1))(p \<mapsto> (old @ ?buf) @ ?r)"
      "handler_loop env (map (\<lambda>m. Arrive io (delivered m))
         (fst (send_chunks (\<lambda>_. False) (\<lambda>_. None) stale name ft (i + 1) ?r)) @ later) s1
       = handler_loop env later
         (s1\<lparr>cs_fs := Some \<lparr>of_path = p, of_off = length ((old @ ?buf) @ ?r)\<rparr>, cs_disk := d\<rparr>)"
      using "1.IH" [rule_format, OF lt, of s1 "old @ ?buf" "i + 1"] s1 "1.prems"(3) by auto
    have "old @ ?buf @ ?r = old @ rest" by simp
    then have all: "(old @ ?buf) @ ?r = old @ rest" by simp
    show ?thesis
      using d step unfolding unroll s1(2) all
      by (intro exI [of _ d]) (simp add: s1_def)
  qed
qed

end
