(* ===== verification/HandlerProps.thy ===== *)
theory HandlerProps
  imports Handler
begin

text \<open>
  What one connection may do to the disk and to the node, when its handler panics or blocks, and
  the upload of a file from the client of handler.go to its server.
\<close>

section \<open>Lemmas\<close>

lemma granted_delivered [simp]: "granted env io (delivered m) = granted env io m"
  "upload_path env (delivered m) = upload_path env m"
  by (simp_all add: granted_def upload_path_def)

lemma handle_file_fault_iff:
  "(\<exists>s'. handle_file io m s = Fault s') \<longleftrightarrow>
     cs_fs s \<noteq> None \<and> buf_cap (m_Bytes m) < unat (m_FileSize m)"
  by (auto simp: handle_file_def slice_to_def Let_def split: option.splits prod.splits)

lemma handle_end_fault_iff:
  "(\<exists>s'. handle_end env io m s = Fault s') \<longleftrightarrow>
     (\<exists>f. cs_fs s = Some f \<and> io_stat io = None
        \<and> int (file_length f (cs_disk s)) = sint (m_FileSize m)
        \<and> m_LastMark m \<and> length (m_SignMsg m) < 8)"
  by (auto simp: handle_end_def reject_def Let_def Uint64_panics_iff [symmetric]
      split: option.splits outcome.splits)

lemma handle_notify_fault_iff:
  "(\<exists>s'. handle_notify m s = Fault s') \<longleftrightarrow> visible (m_Bytes m) = []"
  by (auto simp: handle_notify_def split: list.splits)

lemma handle_head_fault_iff:
  "(\<exists>s'. handle_head env io m s = Fault s') \<longleftrightarrow>
     VerifySign (he_b58enc env) (he_sum512 env) (he_kr env) (m_Pubkey m) (m_SignMsg m) (m_Sign m) = Panic"
  by (auto simp: handle_head_def reject_def Let_def split: outcome.splits sum.splits bool.splits
      option.splits prod.splits)

lemma end_backup:
  assumes "x \<in> set (cs_backups (round_state (handle_end env io m s)))" "x \<notin> set (cs_backups s)"
  shows "cs_fs s \<noteq> None \<and> m_LastMark m \<and> fst x = m_FileHash m
     \<and> (\<exists>v. Uint64 (m_SignMsg m) = Ret v \<and> fst (snd x) = sint v)
     \<and> snd (snd x) = glob (he_dir env @ ''/'' @ m_FileHash m @ ''*'') (cs_disk s)"
  using assms
  by (auto simp: handle_end_def reject_def send_msg_def Let_def
      split: option.splits outcome.splits if_splits)

lemma round_backup:
  assumes "x \<in> set (cs_backups (round_state (handle_msg env io m s)))" "x \<notin> set (cs_backups s)"
  shows "m_MsgType m = MsgEnd \<and> cs_fs s \<noteq> None \<and> m_LastMark m \<and> fst x = m_FileHash m
     \<and> (\<exists>v. Uint64 (m_SignMsg m) = Ret v \<and> fst (snd x) = sint v)"
proof -
  consider (hd) "granted env io m" | (nohead) "\<not> granted env io m" and "m_MsgType m = MsgHead"
    | (wr) "m_MsgType m = MsgFile" | (ending) "m_MsgType m = MsgEnd"
    | (other) "m_MsgType m \<noteq> MsgHead" and "m_MsgType m \<noteq> MsgFile" and "m_MsgType m \<noteq> MsgEnd"
    by blast
  then show ?thesis
  proof cases
    case hd
    with assms show ?thesis
      by (auto simp: handle_head_granted reject_def send_msg_def split: option.splits)
  next
    case nohead
    with assms handle_head_cases [OF nohead(2,1), of s] show ?thesis by simp
  next
    case wr
    with assms handle_file_round(1) [of io m s] show ?thesis by simp
  next
    case ending
    with assms end_backup [of x env io m s] show ?thesis by simp
  next
    case other
    with assms handle_other_round(3) [OF other, of env io s] show ?thesis by simp
  qed
qed

lemma round_open:
  assumes "cs_fs (round_state (handle_msg env io m s)) \<noteq> None"
  shows "granted env io m \<or> cs_fs s \<noteq> None"
  using assms round_fs [of env io m "\<lambda>_. granted env io m \<or> cs_fs s \<noteq> None" s] by auto

lemma loop_backup:
  assumes "\<forall>io m. Arrive io m \<in> set as \<longrightarrow> granted env io m \<longrightarrow> H"
    and "cs_fs s \<noteq> None \<Longrightarrow> H"
    and "x \<in> set (cs_backups (round_state (handler_loop env as s)))" "x \<notin> set (cs_backups s)"
  shows "H \<and> (\<exists>io m. Arrive io m \<in> set as \<and> m_MsgType m = MsgEnd \<and> m_LastMark m
     \<and> fst x = m_FileHash m \<and> (\<exists>v. Uint64 (m_SignMsg m) = Ret v \<and> fst (snd x) = sint v))"
  using assms
proof (induction env as s rule: handler_loop.induct)
  case (4 env io m as s)
  note IH = "4.IH" and prems = "4.prems"
  show ?case
  proof (cases "x \<in> set (cs_backups (round_state (handle_msg env io m s)))")
    case True
    from round_backup [OF this prems(4)] prems(2) show ?thesis by auto
  next
    case False
    with prems(3) obtain s' where s': "handle_msg env io m s = Go s'"
      by (cases "handle_msg env io m s") auto
    have "cs_fs s' \<noteq> None \<Longrightarrow> H"
      using round_open [of env io m s] prems(1,2) s' by auto
    moreover have "\<forall>io m. Arrive io m \<in> set as \<longrightarrow> granted env io m \<longrightarrow> H"
      using prems(1) by simp
    ultimately have "H \<and> (\<exists>io m. Arrive io m \<in> set as \<and> m_MsgType m = MsgEnd \<and> m_LastMark m
      \<and> fst x = m_FileHash m \<and> (\<exists>v. Uint64 (m_SignMsg m) = Ret v \<and> fst (snd x) = sint v))"
      using IH [OF s'] prems(3) False s' by simp
    then show ?thesis by auto
  qed
qed auto

section \<open>Properties\<close>

text \<open>Everything a sample run needs: keys that always verify, and a chain that knows a pending file.\<close>

definition sample_env :: handler_env where
  "sample_env = \<lparr>he_dir = ''/data/file'', he_b58enc = string_of_bytes,
     he_sum512 = (\<lambda>_. replicate 64 0), he_kr = (\<lambda>_ _ _. Ret True)\<rparr>"

definition sample_io :: msg_io where
  "sample_io = \<lparr>io_meta = (\<lambda>_. Inr FILE_STATE_PENDING), io_open = None, io_write = None,
     io_stat = None, io_cache = []\<rparr>"

definition sample_head :: "string \<Rightarrow> Message" where
  "sample_head name = buildHeadMsg name ''f'' FileType_file False (replicate 32 1) [1] (replicate 64 2)"

lemma sample_granted_any:
  "granted sample_env sample_io (buildHeadMsg name fid ft lastmark (replicate 32 1) [1] (replicate 64 2))"
  by (simp add: granted_def sample_env_def sample_io_def buildHeadMsg_def
      empty_Message_def VerifySign_def EncodePublicKeyAsSubstrateAccount_def EncodePublicKey_def
      GetFileState_eq chain_text_defs appendBytes_def Let_def SubstratePrefix_def string_of_bytes_def)

lemma sample_granted: "granted sample_env sample_io (sample_head name)"
  unfolding sample_head_def by (rule sample_granted_any)

lemma sample_quiet: "quiet_io sample_io"
  by (simp add: quiet_io_def sample_io_def)

text \<open>
  C6: A connection changes no file but those of its granted heads: if the content of a path after
  the whole conversation differs from the one before, some message of it was a head whose
  signature verified, for a file the chain knows and has not stored yet, and the path is the
  server directory joined with that head's file name.
\<close>

theorem only_granted_files_written:
  assumes "content (cs_disk (round_state (handler_loop env as (new_conn d)))) p \<noteq> content d p"
  shows "\<exists>io m. Arrive io m \<in> set as \<and> granted env io m \<and> p = filepath_Join [he_dir env, m_FileName m]"
  using assms
    loop_disk [of as env "\<lambda>q. \<exists>io m. Arrive io m \<in> set as \<and> granted env io m \<and> q = upload_path env m"
      "new_conn d" p]
  by (auto simp: new_conn_def upload_path_def)

theorem only_granted_files_written_witness:
  "\<exists>io m. Arrive io m \<in> set [Arrive sample_io (sample_head ''x'')] \<and> granted sample_env io m
     \<and> filepath_Join [''/data/file'', ''x''] = filepath_Join [he_dir sample_env, m_FileName m]"
proof (rule only_granted_files_written [where d = "[]"])
  show "content (cs_disk (round_state (handler_loop sample_env [Arrive sample_io (sample_head ''x'')]
      (new_conn [])))) (filepath_Join [''/data/file'', ''x''])
    \<noteq> content [] (filepath_Join [''/data/file'', ''x''])"
    using sample_granted [of "''x''"]
    by (simp add: handle_head_granted sample_io_def send_msg_def new_conn_def upload_path_def
        sample_env_def sample_head_def buildHeadMsg_def empty_Message_def content_def put_file_def)
qed

text \<open>
  When every granted head carries a plain file name (no slash, not empty, not a dot name) and
  the server directory is clean, the connection writes only files directly inside that directory.
\<close>

theorem plain_names_stay_inside:
  assumes "clean_dir (he_dir env)"
    and "\<forall>io m. Arrive io m \<in> set as \<longrightarrow> granted env io m \<longrightarrow> simple_name (m_FileName m)"
    and "content (cs_disk (round_state (handler_loop env as (new_conn d)))) p \<noteq> content d p"
  shows "\<exists>n. simple_name n \<and> p = he_dir env @ CHR ''/'' # n"
  using assms(2,3) Join_simple [OF assms(1)]
    loop_disk [of as env "\<lambda>q. \<exists>n. simple_name n \<and> q = he_dir env @ CHR ''/'' # n"
      "new_conn d" p]
  by (auto simp: new_conn_def upload_path_def)

lemma sample_clean: "clean_dir (he_dir sample_env)"
  unfolding clean_dir_def
  by (rule exI [of _ "[''data'', ''file'']"]) (simp add: simple_name_def sample_env_def)

theorem plain_names_stay_inside_witness:
  "\<exists>n. simple_name n \<and> ''/data/file/x'' = he_dir sample_env @ CHR ''/'' # n"
proof (rule plain_names_stay_inside [where d = "[]" and as = "[Arrive sample_io (sample_head ''x'')]"])
  show "clean_dir (he_dir sample_env)" by (rule sample_clean)
  show "\<forall>io m. Arrive io m \<in> set [Arrive sample_io (sample_head ''x'')] \<longrightarrow>
      granted sample_env io m \<longrightarrow> simple_name (m_FileName m)"
    by (simp add: sample_head_def buildHeadMsg_def empty_Message_def simple_name_def)
  have "filepath_Join [he_dir sample_env, ''x''] = ''/data/file/x''"
    using Join_simple [OF sample_clean, of "''x''"] by (simp add: simple_name_def sample_env_def)
  then show "content (cs_disk (round_state (handler_loop sample_env
      [Arrive sample_io (sample_head ''x'')] (new_conn [])))) ''/data/file/x''
    \<noteq> content [] ''/data/file/x''"
    using sample_granted [of "''x''"]
    by (simp add: handle_head_granted sample_io_def send_msg_def new_conn_def upload_path_def
        sample_head_def buildHeadMsg_def empty_Message_def content_def put_file_def)
qed

text \<open>
  The file name of a granted head is joined with the directory unchecked: with the server
  directory \<open>/data/file\<close> the name \<open>../cache/LOCK\<close> truncates \<open>/data/cache/LOCK\<close>, outside it.
\<close>

theorem dotted_name_escapes:
  assumes "granted env io m" and "io_open io = None"
    and "he_dir env = ''/data/file''" and "m_FileName m = ''../cache/LOCK''"
  shows "content (cs_disk (round_state (handler_loop env [Arrive io m] s))) ''/data/cache/LOCK'' = Some []"
proof -
  have "filepath_Join [''/data/file'', ''../cache/LOCK''] = ''/data/cache/LOCK''" by code_simp
  then show ?thesis
    using assms by (simp add: handle_head_granted send_msg_def upload_path_def)
qed

theorem dotted_name_escapes_witness:
  "content (cs_disk (round_state (handler_loop sample_env
     [Arrive sample_io (sample_head ''../cache/LOCK'')] (new_conn [(''/data/cache/LOCK'', [7])]))))
     ''/data/cache/LOCK'' = Some []"
  by (rule dotted_name_escapes [OF sample_granted])
     (simp_all add: sample_io_def sample_env_def sample_head_def buildHeadMsg_def empty_Message_def)

text \<open>
  The backup of a file to the miners starts only from a conversation in which a head was
  granted, on an end message marked last, for the file it names and with the size read from the
  eight bytes of its \<open>SignMsg\<close>.
\<close>

theorem backups_need_a_granted_head:
  assumes "(fid, fsize, chunks) \<in> set (cs_backups (round_state (handler_loop env as (new_conn d))))"
  shows "(\<exists>io m. Arrive io m \<in> set as \<and> granted env io m)
     \<and> (\<exists>io m. Arrive io m \<in> set as \<and> m_MsgType m = MsgEnd \<and> m_LastMark m \<and> fid = m_FileHash m
          \<and> (\<exists>v. Uint64 (m_SignMsg m) = Ret v \<and> fsize = sint v))"
  using assms
    loop_backup [of as env "\<exists>io m. Arrive io m \<in> set as \<and> granted env io m" "new_conn d"
      "(fid, fsize, chunks)"]
  by (auto simp: new_conn_def)

definition sample_end :: "string \<Rightarrow> u64 \<Rightarrow> bytes \<Rightarrow> Message" where
  "sample_end fid sz len8 = (buildEndMsg FileType_file ''x'' fid sz True)\<lparr>m_SignMsg := len8\<rparr>"

lemma sample_backup:
  "(''f'', 0, glob (''/data/file/f*'') (put_file (filepath_Join [''/data/file'', ''x'']) [] []))
   \<in> set (cs_backups (round_state (handler_loop sample_env
        [Arrive sample_io (sample_head ''x''), Arrive sample_io (sample_end ''f'' 0 (replicate 8 0))]
        (new_conn []))))"
proof -
  have "Uint64 (replicate 8 0) = Ret 0" by (simp add: eval_nat_numeral)
  then show ?thesis
    using sample_granted [of "''x''"]
    by (simp add: handle_head_granted handle_end_def sample_io_def send_msg_def new_conn_def
        upload_path_def sample_env_def sample_head_def sample_end_def buildHeadMsg_def buildEndMsg_def
        empty_Message_def Let_def file_length_def)
qed

theorem backups_need_a_granted_head_witness:
  "\<exists>io m. Arrive io m \<in> set [Arrive sample_io (sample_head ''x''),
       Arrive sample_io (sample_end ''f'' 0 (replicate 8 0))] \<and> granted sample_env io m"
  using backups_need_a_granted_head [OF sample_backup] by blast


text \<open>
  A server never reads \<open>waitNotify\<close>, so the second notification a peer sends on a connection
  blocks its handler for ever, and no later message is looked at.
\<close>

theorem second_notification_blocks:
  assumes "m_MsgType m1 = MsgNotify" "visible (m_Bytes m1) = b1 # r1"
    and "m_MsgType m2 = MsgNotify" "visible (m_Bytes m2) = b2 # r2"
  shows "handler_loop env (Arrive io1 m1 # Arrive io2 m2 # as) (new_conn d)
     = Hang ((new_conn d)\<lparr>cs_wait := [b1 = Status_Ok]\<rparr>)"
  using assms by (simp add: handle_notify_def new_conn_def)

theorem second_notification_blocks_witness:
  "handler_loop sample_env [Arrive sample_io (buildNotifyMsg [] 0 []),
       Arrive sample_io (buildNotifyMsg [] 0 []), Arrive sample_io (sample_head ''x'')] (new_conn [])
     = Hang ((new_conn [])\<lparr>cs_wait := [True]\<rparr>)"
  using second_notification_blocks [of "buildNotifyMsg [] 0 []" 0 "[]" "buildNotifyMsg [] 0 []" 0 "[]"
      sample_env sample_io sample_io "[Arrive sample_io (sample_head ''x'')]" "[]"]
  by (simp add: buildNotifyMsg_def empty_Message_def buf_of_def visible_def msg_defs Status_Ok_def)

text \<open>
  For files below \<open>2 ^ 48\<close> bytes the client waits for the last notification one second for
  every 51200 bytes, and six seconds at least; the product does not overflow.
\<close>

theorem end_wait_bounds:
  assumes "0 \<le> sz" "sz < 2 ^ 48"
  shows "end_wait sz = max 6000000000 (1000000000 * (sz div 51200))"
proof -
  have q: "0 \<le> sz div 51200" "sz div 51200 < 5497558139"
    using assms by (auto simp: div_less_iff_less_mult)
  have "int64 (1000000000 * (sz div 51200)) = 1000000000 * (sz div 51200)"
    unfolding int64_def by (rule signed_take_bit_int_eq_self) (use q in auto)
  then show ?thesis
    by (simp add: end_wait_def Let_def transport_defs size_defs max_def)
qed

theorem end_wait_bounds_witness: "end_wait 1048576000 = 20480000000000"
  using end_wait_bounds [of 1048576000] by simp

section \<open>Upload\<close>

definition smooth_io :: send_io where
  "smooth_io = \<lparr>si_open = None, si_head = Notified True, si_closed = (\<lambda>_. False),
     si_fails = (\<lambda>_. None), si_end = Notified True\<rparr>"

lemma send_chunks_no_error:
  "snd (send_chunks (\<lambda>_. False) (\<lambda>_. None) stale name ft i rest) = None"
proof (induction rest arbitrary: i rule: length_induct)
  case (1 rest)
  show ?case
  proof (cases "rest = []")
    case True
    then show ?thesis by (subst send_chunks.simps) simp
  next
    case False
    then have "length (drop TCP_SendBuffer rest) < length rest" by (simp add: TCP_SendBuffer_def)
    with "1.IH" have "snd (send_chunks (\<lambda>_. False) (\<lambda>_. None) stale name ft (i + 1)
        (drop TCP_SendBuffer rest)) = None" by blast
    then show ?thesis
      by (subst send_chunks.simps) (auto simp: Let_def split: prod.split)
  qed
qed

lemma handle_end_ok:
  assumes "m_MsgType m = MsgEnd" "cs_fs s = Some f" "io_stat io = None"
    and "int (file_length f (cs_disk s)) = sint (m_FileSize m)"
    and "m_LastMark m \<Longrightarrow> length (m_SignMsg m) < 8"
  shows "handle_msg env io m s =
     (if m_LastMark m then Fault else Go)
       (s\<lparr>cs_sent := cs_sent s @ [buildNotifyMsg (cs_fileName s) Status_Ok []], cs_fs := None\<rparr>)"
  using assms Uint64_panics_iff [of "m_SignMsg m"]
  by (cases "m_LastMark m") (simp_all add: handle_end_def send_msg_def Let_def)

lemma sint_length: "n < 2 ^ 63 \<Longrightarrow> sint (word_of_nat n :: u64) = int n"
  by (simp add: signed_of_nat signed_take_bit_int_eq_self)

text \<open>The head and the chunks of an upload, at a server that grants the head and meets no disk error.\<close>

lemma upload_before_end:
  fixes name :: string
  defines "p env \<equiv> filepath_Join [he_dir env, name]"
  assumes "granted env io (buildHeadMsg name fid ft lastmark pkey signmsg sign)" "quiet_io io"
  shows "\<exists>D. content D = (content d0)(p env \<mapsto> bs)
     \<and> handler_loop env (map (\<lambda>m. Arrive io (delivered m)) (buildHeadMsg name fid ft lastmark pkey signmsg sign
           # fst (send_chunks (\<lambda>_. False) (\<lambda>_. None) stale name ft 0 bs)) @ later) (new_conn d0)
       = handler_loop env later ((new_conn d0)\<lparr>cs_disk := D, cs_fileName := name,
           cs_fs := Some \<lparr>of_path = p env, of_off = length bs\<rparr>, cs_sent := [buildNotifyMsg name Status_Ok []]\<rparr>)"
proof -
  let ?head = "buildHeadMsg name fid ft lastmark pkey signmsg sign"
  define s1 where "s1 = (new_conn d0)\<lparr>cs_fileName := name,
      cs_sent := [buildNotifyMsg name Status_Ok []],
      cs_fs := Some \<lparr>of_path = p env, of_off = length []\<rparr>, cs_disk := put_file (p env) [] d0\<rparr>"
  have fn: "m_FileName ?head = name" by (simp add: buildHeadMsg_def empty_Message_def)
  have step1: "handle_msg env io (delivered ?head) (new_conn d0) = Go s1"
    using assms(2,3) fn
    by (simp add: handle_head_granted quiet_io_def send_msg_def s1_def new_conn_def upload_path_def p_def)
  have s1: "cs_fs s1 = Some \<lparr>of_path = p env, of_off = length []\<rparr>" "content (cs_disk s1) (p env) = Some []"
    and io: "io_write io = None"
    using assms(3) by (simp_all add: s1_def quiet_io_def)
  obtain D where D: "content D = (content (cs_disk s1))(p env \<mapsto> [] @ bs)"
    and loop: "handler_loop env (map (\<lambda>m. Arrive io (delivered m))
        (fst (send_chunks (\<lambda>_. False) (\<lambda>_. None) stale name ft 0 bs)) @ later) s1
      = handler_loop env later (s1\<lparr>cs_fs := Some \<lparr>of_path = p env, of_off = length ([] @ bs)\<rparr>, cs_disk := D\<rparr>)"
    using upload_chunks [OF s1 io, of bs env stale name ft 0 later] by blast
  have "content D = (content d0)(p env \<mapsto> bs)"
    using D by (auto simp: s1_def)
  moreover have "s1\<lparr>cs_fs := Some \<lparr>of_path = p env, of_off = length ([] @ bs)\<rparr>, cs_disk := D\<rparr>
      = (new_conn d0)\<lparr>cs_disk := D, cs_fileName := name,
          cs_fs := Some \<lparr>of_path = p env, of_off = length bs\<rparr>, cs_sent := [buildNotifyMsg name Status_Ok []]\<rparr>"
    by (simp add: s1_def new_conn_def)
  ultimately show ?thesis using step1 loop by (intro exI [of _ D]) simp
qed

text \<open>
  The client's upload of a file, delivered to a server that grants its head and meets no disk
  error, leaves at the server a byte-for-byte copy of the file at the directory joined with its
  base name and changes no other file, and the server answers the head and the end with a positive
  notification.  When the file is marked the last one the handler then panics, because the client's end
  message has no \<open>SignMsg\<close> to read the size from.
\<close>

theorem upload_reproduces_file:
  assumes "content d filePath = Some bs" "length bs < 2 ^ 63"
    and "granted env io (buildHeadMsg (filepath_Base filePath) fid ft lastmark pkey signmsg sign)"
    and "quiet_io io"
  shows "\<exists>ms D. sendSingleFile stale smooth_io d filePath fid ft lastmark pkey signmsg sign = (ms, None)
     \<and> content D = (content d0)(filepath_Join [he_dir env, filepath_Base filePath] \<mapsto> bs)
     \<and> handler_loop env (map (\<lambda>m. Arrive io (delivered m)) ms) (new_conn d0)
         = (if lastmark then Fault else Go)
             ((new_conn d0)\<lparr>cs_disk := D, cs_fileName := filepath_Base filePath,
                cs_sent := replicate 2 (buildNotifyMsg (filepath_Base filePath) Status_Ok [])\<rparr>)"
proof -
  let ?name = "filepath_Base filePath"
  let ?head = "buildHeadMsg ?name fid ft lastmark pkey signmsg sign"
  let ?last = "buildEndMsg ft ?name fid (word_of_nat (length bs)) lastmark"
  let ?p = "filepath_Join [he_dir env, ?name]"
  define ms where "ms = fst (send_chunks (\<lambda>_. False) (\<lambda>_. None) stale ?name ft 0 bs)"
  have sent: "sendSingleFile stale smooth_io d filePath fid ft lastmark pkey signmsg sign
      = (?head # ms @ [?last], None)"
    using assms(1) send_chunks_no_error [of stale ?name ft 0 bs]
    by (cases "send_chunks (\<lambda>_. False) (\<lambda>_. None) stale ?name ft 0 bs")
       (simp add: sendSingleFile_def smooth_io_def Let_def ms_def)
  obtain D where Dc: "content D = (content d0)(?p \<mapsto> bs)"
    and loop: "handler_loop env (map (\<lambda>m. Arrive io (delivered m)) (?head # ms) @ [Arrive io (delivered ?last)]) (new_conn d0)
      = handler_loop env [Arrive io (delivered ?last)] ((new_conn d0)\<lparr>cs_disk := D, cs_fileName := ?name,
           cs_fs := Some \<lparr>of_path = ?p, of_off = length bs\<rparr>, cs_sent := [buildNotifyMsg ?name Status_Ok []]\<rparr>)"
    using upload_before_end [OF assms(3,4)] unfolding ms_def by blast
  define s2 where "s2 = (new_conn d0)\<lparr>cs_disk := D, cs_fileName := ?name,
      cs_fs := Some \<lparr>of_path = ?p, of_off = length bs\<rparr>, cs_sent := [buildNotifyMsg ?name Status_Ok []]\<rparr>"
  have step2: "handle_msg env io (delivered ?last) s2 = (if lastmark then Fault else Go)
      (s2\<lparr>cs_sent := cs_sent s2 @ [buildNotifyMsg (cs_fileName s2) Status_Ok []], cs_fs := None\<rparr>)"
    using handle_end_ok [of "delivered ?last" s2 "\<lparr>of_path = ?p, of_off = length bs\<rparr>" io env]
      assms(2,4) sint_length [of "length bs"]
    by (simp add: s2_def file_length_def Dc quiet_io_def buildEndMsg_def empty_Message_def)
  have "handler_loop env (map (\<lambda>m. Arrive io (delivered m)) (?head # ms @ [?last])) (new_conn d0)
      = handler_loop env [Arrive io (delivered ?last)] s2"
    using loop by (simp add: s2_def)
  also have "\<dots> = (if lastmark then Fault else Go)
      (s2\<lparr>cs_sent := cs_sent s2 @ [buildNotifyMsg (cs_fileName s2) Status_Ok []], cs_fs := None\<rparr>)"
    using step2 by simp
  also have "\<dots> = (if lastmark then Fault else Go)
      ((new_conn d0)\<lparr>cs_disk := D, cs_fileName := ?name,
         cs_sent := replicate 2 (buildNotifyMsg ?name Status_Ok [])\<rparr>)"
    by (simp add: s2_def new_conn_def eval_nat_numeral)
  finally show ?thesis using sent Dc by blast
qed

theorem upload_reproduces_file_witness:
  "\<exists>ms D. sendSingleFile [] smooth_io [(''/tmp/x'', [1, 2, 3])] ''/tmp/x'' ''f'' FileType_file False
        (replicate 32 1) [1] (replicate 64 2) = (ms, None)
     \<and> content D = (content [])(filepath_Join [he_dir sample_env, filepath_Base ''/tmp/x''] \<mapsto> [1, 2, 3])
     \<and> handler_loop sample_env (map (\<lambda>m. Arrive sample_io (delivered m)) ms) (new_conn [])
         = (if False then Fault else Go)
             ((new_conn [])\<lparr>cs_disk := D, cs_fileName := filepath_Base ''/tmp/x'',
                cs_sent := replicate 2 (buildNotifyMsg (filepath_Base ''/tmp/x'') Status_Ok [])\<rparr>)"
proof (rule upload_reproduces_file)
  show "content [(''/tmp/x'', [1, 2, 3])] ''/tmp/x'' = Some [1, 2, 3]" by (simp add: content_def)
  show "length [1, 2, 3 :: byte] < 2 ^ 63" by simp
  show "granted sample_env sample_io (buildHeadMsg (filepath_Base ''/tmp/x'') ''f'' FileType_file False
      (replicate 32 1) [1] (replicate 64 2))"
    using sample_granted [of "filepath_Base ''/tmp/x''"] by (simp add: sample_head_def)
  show "quiet_io sample_io" by (simp add: quiet_io_def sample_io_def)
qed

end
