(* ===== verification/TcpProps.thy ===== *)
theory TcpProps
  imports TcpTransfer HandlerProps
begin

text \<open>
  What the transport guarantees: the messages that fit the sender's buffer arrive in order, all
  messages of a file fit it, and which connections the server takes up.
\<close>

lemma length_print_bytes: "length (print_json (json_bytes bs)) \<le> (length bs + 2) div 3 * 4 + 4"
proof -
  have plain: "concat (map escape_char s) = s" if "\<forall>c \<in> set s. escape_char c = [c]" for s
    using that by (induction s) simp_all
  have "\<forall>c \<in> set (b64_encode bs). escape_char c = [c]" by (rule escape_b64_encode)
  then show ?thesis
    by (simp add: json_bytes_def print_str_def plain length_b64_encode del: add_2_eq_Suc')
qed

lemma length_marshal_msg:
  "length (marshal_msg m) \<le> 161 + (length (m_Pubkey m) + 2) div 3 * 4 + (length (m_SignMsg m) + 2) div 3 * 4
     + (length (m_Sign m) + 2) div 3 * 4 + (length (visible (m_Bytes m)) + 2) div 3 * 4
     + 6 * length (m_FileName m) + 6 * length (m_FileHash m)"
proof -
  have u64: "length (show_nat (unat (x :: u64))) \<le> 20" for x
  proof (rule length_show_nat)
    have "unat x < 2 ^ 64" by (rule u64_lt)
    also have "(2 :: nat) ^ 64 < 10 ^ 20" by simp
    finally show "unat x < 10 ^ 20" .
  qed simp
  have u8: "length (show_nat (unat (x :: u8))) \<le> 3" for x
    by (rule length_show_nat) (use unat_byte_lt [of x] in \<open>simp_all del: unat_byte_lt\<close>)
  have str: "length (print_str s) \<le> 6 * length s + 2" for s by (rule length_print_str)
  have keys: "length (print_str ''pubkey'') = 8" "length (print_str ''signmsg'') = 9"
    "length (print_str ''sign'') = 6" "length (print_str ''bytes'') = 7" "length (print_str ''filename'') = 10"
    "length (print_str ''filehash'') = 10" "length (print_str ''filesize'') = 10"
    "length (print_str ''msgtype'') = 9" "length (print_str ''lastmark'') = 10" "length (print_str ''filetype'') = 10"
    by (simp_all add: print_str_def escape_char_def needs_hex_def)
  show ?thesis
    using length_print_bytes [of "m_Pubkey m"] length_print_bytes [of "m_SignMsg m"]
      length_print_bytes [of "m_Sign m"] length_print_bytes [of "visible (m_Bytes m)"]
      str [of "m_FileName m"] str [of "m_FileHash m"] u64 [of "m_FileSize m"] u8 [of "m_MsgType m"]
      u8 [of "m_FileType m"]
    by (simp add: marshal_msg_def json_of_msg_def json_uint_def keys del: add_2_eq_Suc' add_2_eq_Suc)
qed

text \<open>A message with at most this much beside its \<open>Bytes\<close> fits the buffer of the sender.\<close>

definition small_fields :: "Message \<Rightarrow> bool" where
  "small_fields m = (length (m_FileName m) \<le> 150 \<and> length (m_FileHash m) \<le> 150 \<and>
     length (m_Pubkey m) \<le> 64 \<and> length (m_SignMsg m) \<le> 1024 \<and> length (m_Sign m) \<le> 1024)"

lemma base64_mono: "n \<le> k \<Longrightarrow> (n + 2) div 3 * 4 \<le> (k + 2) div 3 * (4 :: nat)"
  by (intro mult_le_mono1 div_le_mono) simp

lemma fits_control:
  assumes "small_fields m" "length (visible (m_Bytes m)) \<le> 1024"
  shows "fits (marshal_msg m)"
  using length_marshal_msg [of m] assms base64_mono [of "length (m_Pubkey m)" 64]
    base64_mono [of "length (m_SignMsg m)" 1024] base64_mono [of "length (m_Sign m)" 1024]
    base64_mono [of "length (visible (m_Bytes m))" 1024]
  by (simp add: fits_def small_fields_def TCP_ReadBuffer_def del: add_2_eq_Suc' add_2_eq_Suc)

lemma fits_chunk:
  assumes "length (m_FileName m) \<le> 150" "m_FileHash m = []" "m_Pubkey m = []" "m_SignMsg m = []"
    "m_Sign m = []" "length (visible (m_Bytes m)) \<le> TCP_SendBuffer"
  shows "fits (marshal_msg m)"
  using length_marshal_msg [of m] assms base64_mono [of "length (visible (m_Bytes m))" TCP_SendBuffer]
  by (simp add: fits_def TCP_ReadBuffer_def TCP_SendBuffer_def del: add_2_eq_Suc' add_2_eq_Suc)

lemma fits_FileMsg:
  assumes "length name \<le> 150" "length buf \<le> TCP_SendBuffer"
  shows "fits (marshal_msg (buildFileMsg stale name ft (length buf) buf))"
proof (rule fits_chunk)
  let ?n = "if ft = FileType_filler \<and> length buf = TCP_TagBuffer then TCP_TagBuffer else TCP_SendBuffer"
  have "length buf \<le> ?n" "?n \<le> TCP_SendBuffer" using assms(2) by (simp_all add: TCP_TagBuffer_def TCP_SendBuffer_def)
  moreover have "m_Bytes (buildFileMsg stale name ft (length buf) buf) = go_copy (pool_get stale ?n) buf"
    by (simp add: buildFileMsg_def Let_def)
  ultimately show "length (visible (m_Bytes (buildFileMsg stale name ft (length buf) buf))) \<le> TCP_SendBuffer"
    using pool_copy(2) [of buf ?n stale] by simp
qed (use assms in \<open>simp_all add: buildFileMsg_def empty_Message_def Let_def\<close>)

lemma send_chunks_fit:
  assumes "length name \<le> 150"
  shows "\<forall>m \<in> set (fst (send_chunks closed fails stale name ft i rest)). fits (marshal_msg m)"
  using assms
proof (induction closed fails stale name ft i rest rule: send_chunks.induct)
  case (1 closed fails stale name ft i rest)
  have "fits (marshal_msg (buildFileMsg stale name ft (length (take TCP_SendBuffer rest)) (take TCP_SendBuffer rest)))"
    by (rule fits_FileMsg) (use "1.prems" in simp_all)
  then show ?case
    using "1.IH" "1.prems" by (subst send_chunks.simps) (auto simp: Let_def split: option.split prod.split)
qed

definition short_names :: "string \<Rightarrow> bool" where
  "short_names f = (length (filepath_Base f) \<le> 150)"

lemma length_name_no_suffix: "length (GetFileNameWithoutSuffix f) \<le> length (filepath_Base f)"
  by (simp add: GetFileNameWithoutSuffix_def TrimSuffix_def Let_def)

lemma sendSingleFile_fit:
  assumes "short_names f" "length fid \<le> 150" "length pkey \<le> 64" "length signmsg \<le> 1024"
    "length sign \<le> 1024"
  shows "\<forall>m \<in> set (fst (sendSingleFile stale io d f fid ft l pkey signmsg sign)). fits (marshal_msg m)"
proof -
  let ?name = "filepath_Base f"
  have name: "length ?name \<le> 150" using assms(1) by (simp add: short_names_def)
  have h: "fits (marshal_msg (buildHeadMsg ?name fid ft l pkey signmsg sign))"
    by (rule fits_control)
      (use assms name in \<open>simp_all add: small_fields_def buildHeadMsg_def empty_Message_def visible_def nil_buf_def\<close>)
  have e: "fits (marshal_msg (buildEndMsg ft ?name fid n l))" for n
    by (rule fits_control)
      (use assms name in \<open>simp_all add: small_fields_def buildEndMsg_def empty_Message_def visible_def nil_buf_def\<close>)
  have c: "\<forall>m \<in> set ms. fits (marshal_msg m)"
    if "send_chunks (si_closed io) (si_fails io) stale ?name ft 0 bs = (ms, err)" for ms err bs
    using send_chunks_fit [OF name, of "si_closed io" "si_fails io" stale ft 0 bs] that by simp
  show ?thesis
    by (auto simp: sendSingleFile_def Let_def h e dest: c split: option.split notification.split prod.split bool.split)
qed

lemma send_files_fit:
  assumes "\<forall>f \<in> snd ` set files. short_names f" "length pkey \<le> 64" "length signmsg \<le> 1024"
    "length sign \<le> 1024"
  shows "\<forall>m \<in> set (fst (send_files stale d ft pkey signmsg sign files)). fits (marshal_msg m)"
  using assms(1)
proof (induction files)
  case (Cons x files)
  obtain io f where x: "x = (io, f)" by (cases x)
  have f: "short_names f" "length (GetFileNameWithoutSuffix f) \<le> 150"
    using Cons.prems x length_name_no_suffix [of f] by (auto simp: short_names_def)
  have one: "\<forall>m \<in> set ms. fits (marshal_msg m)"
    if "sendSingleFile stale io d f (GetFileNameWithoutSuffix f) ft (files = []) pkey signmsg sign = (ms, e)" for ms e
    using sendSingleFile_fit [OF f assms(2-4), of stale io d ft "files = []"] that by simp
  show ?case using Cons x by (auto simp: Let_def dest: one split: prod.split)
qed simp

lemma sendFile_fit:
  assumes "\<forall>f \<in> snd ` set files. short_names f" "length pkey \<le> 64" "length signmsg \<le> 1024"
    "length sign \<le> 1024"
  shows "\<forall>m \<in> set (fst (sendFile stale d ft pkey signmsg sign files)). fits (marshal_msg m)"
proof -
  have "fits (marshal_msg (buildCloseMsg Status_Ok))"
    by (rule fits_control) (simp_all add: small_fields_def buildCloseMsg_def empty_Message_def visible_def buf_of_def)
  then show ?thesis
    using send_files_fit [OF assms, of stale d ft] by (auto simp: sendFile_def split: prod.split)
qed

text \<open>What a sender has written, at any time, is empty or begins with its magic.\<close>

definition starts_c101 :: "bytes \<Rightarrow> bool" where
  "starts_c101 w = (w = [] \<or> 4 \<le> length w \<and> take 4 w = HEAD_FILLER)"

lemma starts_c101_append: "starts_c101 w \<Longrightarrow> starts_c101 (w @ frame_of data)"
  by (auto simp: starts_c101_def frame_of_def)

lemma send_passes_magic:
  "send_ready (snd_buf st) \<Longrightarrow> starts_c101 (snd_wire st) \<Longrightarrow> starts_c101 (snd_wire (send_passes ps st))"
proof (induction ps arbitrary: st)
  case (Cons p ps)
  show ?case
  proof (cases p)
    case Idle
    then show ?thesis using Cons by simp
  next
    case (Take m ok)
    then show ?thesis
      using Cons by (simp add: Let_def frame_slice_eq send_ready_fill starts_c101_append)
  qed
qed simp

lemma sendMsg_magic: "starts_c101 (snd_wire (sendMsg stale ps))"
  by (simp add: sendMsg_def send_passes_magic send_ready_start starts_c101_def [of "[]"])

lemma filter_refuses_c101: "starts_c101 w \<Longrightarrow> \<not> fst (ConnectionFiltering w)"
proof -
  have "HEAD_FILLER \<noteq> HEAD_FILE" by (simp add: HEAD_FILE_def HEAD_FILLER_def)
  then show "starts_c101 w \<Longrightarrow> \<not> fst (ConnectionFiltering w)"
    by (auto simp: starts_c101_def ConnectionFiltering_def)
qed

text \<open>A reader that is told the magic was read goes on as one that reads it.\<close>

lemma readMsg_flag:
  assumes "4 \<le> length w" "take 4 w = HEAD_FILLER \<or> take 4 w = HEAD_FILE"
  shows "readMsg pool alive True 0 (drop 4 w) = readMsg pool alive False 0 w"
proof -
  have "w \<noteq> []" using assms(1) by auto
  then show ?thesis using assms by (cases alive) (auto simp: read_frame_def)
qed

text \<open>A member that does not name \<open>Bytes\<close> leaves it.\<close>

lemma set_bytes_keeps:
  "(\<And>b m. m_Bytes (upd b m) = m_Bytes m) \<Longrightarrow> m_Bytes (fst (set_bytes v sel upd st)) = m_Bytes (fst st)"
  by (simp add: set_bytes_def split: prod.split)

lemma set_field_keeps:
  "(\<And>x m. m_Bytes (upd x m) = m_Bytes m) \<Longrightarrow> m_Bytes (fst (set_field v upd st)) = m_Bytes (fst st)"
  by (simp add: set_field_def split: prod.split sum.split option.split)

lemma member_keeps_bytes:
  "\<not> same_key k ''bytes'' \<Longrightarrow> m_Bytes (fst (msg_member (k, v) st)) = m_Bytes (fst st)"
  by (simp add: set_bytes_keeps set_field_keeps)

lemma members_keep_bytes:
  "\<forall>m \<in> set ms. \<not> same_key (fst m) ''bytes'' \<Longrightarrow> m_Bytes (fst (fold msg_member ms st)) = m_Bytes (fst st)"
proof (induction ms arbitrary: st)
  case (Cons m ms)
  obtain k v where "m = (k, v)" by (cases m)
  then show ?case using Cons member_keeps_bytes [of k v st] by (simp del: msg_member.simps)
qed simp

lemma sendMsg_wire_all:
  assumes "no_write_fails passes" "\<forall>m \<in> set (queued passes). fits (marshal_msg m)"
  shows "snd_wire (sendMsg stale passes) = concat (map (frame_of \<circ> marshal_msg) (queued passes))"
proof -
  have tw: "takeWhile (fits \<circ> marshal_msg) (queued passes) = queued passes"
    using assms(2) by (simp add: takeWhile_eq_all_conv)
  show ?thesis unfolding sendMsg_wire [OF assms(1)] tw by (rule refl)
qed

section \<open>Properties\<close>


text \<open>
  Every message of the upload of files with names of at most 150 bytes fits, so that all of
  them arrive, however long the files are: heads, chunks, ends and the closing message.
\<close>

theorem upload_crosses_the_wire:
  assumes "no_write_fails passes" "queued passes = fst (sendFile stale d ft pkey signmsg sign files)"
    and "\<forall>f \<in> snd ` set files. length (filepath_Base f) \<le> 150"
    and "length pkey \<le> 64" "length signmsg \<le> 1024" "length sign \<le> 1024"
    and "length (queued passes) \<le> alive"
  shows "readMsg pool alive False 0 (snd_wire (sendMsg stale' passes)) = map (Some \<circ> delivered) (queued passes)"
proof -
  have "\<forall>f \<in> snd ` set files. short_names f" using assms(3) by (simp add: short_names_def)
  then have fit: "\<forall>m \<in> set (queued passes). fits (marshal_msg m)"
    using sendFile_fit assms(2,4-6) by metis
  then show ?thesis
    using sendMsg_wire_all [OF assms(1), of stale']
      readMsg_frames [OF fit, of pool "alive - length (queued passes)" 0] assms(7) by simp
qed

definition demo_passes :: "send_pass list" where
  "demo_passes = [Idle, Take (buildVersionMsg ''v0.6.1'') True, Take (buildCloseMsg Status_Ok) True]"


text \<open>The upload of one file of 8193 bytes: a head, two chunks, an end and the closing message.\<close>

definition demo_upload :: "Message list" where
  "demo_upload = fst (sendFile [] [(''/tmp/x'', replicate 8193 7)] FileType_file (replicate 32 1) [1]
     (replicate 64 2) [(smooth_io, ''/tmp/x'')])"

theorem upload_crosses_the_wire_witness:
  "readMsg (\<lambda>_. []) (length demo_upload) False 0 (snd_wire (sendMsg [] (map (\<lambda>m. Take m True) demo_upload)))
    = map (Some \<circ> delivered) demo_upload"
proof -
  have q: "queued (map (\<lambda>m. Take m True) ms) = ms" for ms by (induction ms) simp_all
  have n: "no_write_fails (map (\<lambda>m. Take m True) ms)" for ms
    by (simp add: no_write_fails_def list_all_iff)
  have b: "filepath_Base ''/tmp/x'' = ''x''" by code_simp
  show ?thesis
    using upload_crosses_the_wire [where passes = "map (\<lambda>m. Take m True) demo_upload" and stale = "[]"
        and d = "[(''/tmp/x'', replicate 8193 7)]" and ft = FileType_file and pkey = "replicate 32 1"
        and signmsg = "[1]" and sign = "replicate 64 2" and files = "[(smooth_io, ''/tmp/x'')]"
        and alive = "length demo_upload"]
    by (simp add: q n b demo_upload_def)
qed

text \<open>
  The server takes up a connection only when its first four bytes are c100.  What a sender of
  this program has written begins with c101, so a scheduler's own client is never taken up.  A
  stream that differs from it in those bytes alone is taken up, and the reader that follows puts
  the same messages on its channel.
\<close>

theorem server_takes_up_c100:
  assumes "snd_wire (sendMsg stale passes) = HEAD_FILLER @ r"
  shows "\<not> fst (ConnectionFiltering (snd_wire (sendMsg stale passes)))
    \<and> ConnectionFiltering (HEAD_FILE @ r) = (True, r)
    \<and> readMsg pool alive True 0 r = readMsg pool alive False 0 (snd_wire (sendMsg stale passes))"
proof (intro conjI)
  show "\<not> fst (ConnectionFiltering (snd_wire (sendMsg stale passes)))"
    by (rule filter_refuses_c101) (rule sendMsg_magic)
  show "ConnectionFiltering (HEAD_FILE @ r) = (True, r)" by (simp add: ConnectionFiltering_def)
  have "readMsg pool alive True 0 (drop 4 (HEAD_FILLER @ r)) = readMsg pool alive False 0 (HEAD_FILLER @ r)"
    by (rule readMsg_flag) simp_all
  then show "readMsg pool alive True 0 r = readMsg pool alive False 0 (snd_wire (sendMsg stale passes))"
    using assms by simp
qed

theorem server_takes_up_c100_witness:
  "\<exists>r. snd_wire (sendMsg [] [Take (buildCloseMsg Status_Ok) True]) = HEAD_FILLER @ r
    \<and> \<not> fst (ConnectionFiltering (snd_wire (sendMsg [] [Take (buildCloseMsg Status_Ok) True])))
    \<and> ConnectionFiltering (HEAD_FILE @ r) = (True, r)
    \<and> readMsg (\<lambda>_. []) 1 True 0 r
        = readMsg (\<lambda>_. []) 1 False 0 (snd_wire (sendMsg [] [Take (buildCloseMsg Status_Ok) True]))"
proof -
  have "fits (marshal_msg (buildCloseMsg Status_Ok))"
    by (rule fits_control) (simp_all add: small_fields_def build_defs visible_def buf_of_def)
  then obtain r where r: "snd_wire (sendMsg [] [Take (buildCloseMsg Status_Ok) True]) = HEAD_FILLER @ r"
    by (simp add: sendMsg_wire no_write_fails_def frame_of_def)
  then show ?thesis using server_takes_up_c100 [OF r] by blast
qed

text \<open>
  A message is decoded over a buffer that comes from the pool with the bytes of its last use,
  which was the raw text of another connection.  When the text of a frame has no member for
  \<open>Bytes\<close> and decodes without error, the message that reaches the handler carries all 12000 of
  them, and any prefix of them is in reach of the peer that names a size.
\<close>

theorem missing_bytes_reveal_pool:
  assumes "parse_json text = Some (JObj members)" "length text \<le> TCP_ReadBuffer"
    and "\<forall>m \<in> set members. \<not> same_key (fst m) ''bytes''"
    and "unmarshal_msg (bytes_of_string text) (empty_Message\<lparr>m_Bytes := pool_get (pool alive) TCP_ReadBuffer\<rparr>) = Inr (Some m)"
  shows "readMsg pool (Suc alive) False 0 (frame_of (bytes_of_string text)) = [Some m]
    \<and> slice_to (m_Bytes m) TCP_ReadBuffer = Ret (take TCP_ReadBuffer (pool alive @ replicate TCP_ReadBuffer 0))"
proof
  let ?old = "empty_Message\<lparr>m_Bytes := pool_get (pool alive) TCP_ReadBuffer\<rparr>"
  have "read_frame (frame_of (bytes_of_string text)) = Some (bytes_of_string text, [])"
    using frames.dec_enc_exact [of "bytes_of_string text"] assms(2) by (simp add: readable_def)
  moreover have "frame_of (bytes_of_string text) \<noteq> []" by (simp add: frame_of_def PutUint32_def)
  ultimately show "readMsg pool (Suc alive) False 0 (frame_of (bytes_of_string text)) = [Some m]"
    using assms(4) by (simp add: readMsg_end)
  have "fst (fold msg_member members (?old, None)) = m"
    using assms(1,4) by (simp add: unmarshal_msg_def split: prod.splits option.splits)
  then have "m_Bytes m = pool_get (pool alive) TCP_ReadBuffer"
    using members_keep_bytes [OF assms(3), of "(?old, None)"] by simp
  then show "slice_to (m_Bytes m) TCP_ReadBuffer = Ret (take TCP_ReadBuffer (pool alive @ replicate TCP_ReadBuffer 0))"
    by (simp add: slice_to_def) (simp add: pool_get_def)
qed

definition bare_json :: json where
  "bare_json = JObj [(''msgtype'', json_uint 2), (''filetype'', json_uint 1)]"

theorem missing_bytes_reveal_pool_witness:
  "\<exists>m. readMsg (\<lambda>_. [1, 2, 3]) (Suc 0) False 0 (frame_of (bytes_of_string (print_json bare_json))) = [Some m]
    \<and> slice_to (m_Bytes m) TCP_ReadBuffer = Ret (take TCP_ReadBuffer ([1, 2, 3] @ replicate TCP_ReadBuffer 0))"
proof -
  let ?old = "empty_Message\<lparr>m_Bytes := pool_get [1, 2, 3] TCP_ReadBuffer\<rparr>"
  have p: "parse_json (print_json bare_json) = Some bare_json"
    by (rule parse_json_print) (simp add: bare_json_def)
  have two: "json_uint 2 = json_uint (unat (2 :: u8))" "json_uint 1 = json_uint (unat (1 :: u8))" by simp_all
  have u: "unmarshal_msg (bytes_of_string (print_json bare_json)) ?old
      = Inr (Some (?old\<lparr>m_MsgType := 2, m_FileType := 1\<rparr>))"
    unfolding unmarshal_msg_def string_of_bytes_of_string p
    unfolding bare_json_def two by (simp only: json.case option.case prod.case fold_simps members_scalars)
  have len: "length (print_json bare_json) \<le> TCP_ReadBuffer"
    by (simp add: bare_json_def json_uint_def print_str_def escape_char_def needs_hex_def show_nat.simps TCP_ReadBuffer_def)
  have keys: "\<forall>m \<in> set [(''msgtype'', json_uint 2), (''filetype'', json_uint 1)]. \<not> same_key (fst m) ''bytes''"
    by (simp add: same_key_def)
  show ?thesis
    using missing_bytes_reveal_pool [of "print_json bare_json" _ "\<lambda>_. [1, 2, 3]" 0] p u len keys
    unfolding bare_json_def by blast
qed

text \<open>What the handler sees of the messages on the channel: a nil message is passed over.\<close>

definition arrivals :: "msg_io \<Rightarrow> Message option list \<Rightarrow> arrival list" where
  "arrivals io ms = map (\<lambda>m. case m of None \<Rightarrow> Quiet | Some m' \<Rightarrow> Arrive io m') ms"

lemma arrivals_Some [simp]: "arrivals io (map (Some \<circ> f) ms) = map (\<lambda>m. Arrive io (f m)) ms"
  by (simp add: arrivals_def)


definition demo_file_messages :: "Message list" where
  "demo_file_messages = fst (sendSingleFile [] smooth_io [(''/tmp/x'', [1, 2, 3])] ''/tmp/x'' ''f'' FileType_file False
     (replicate 32 1) [1] (replicate 64 2))"


end
