(* ===== verification/TcpConn.thy ===== *)
theory TcpConn
  imports TcpTransfer Steps
begin

text \<open>
  A connection (node/transfer.go) with the two channels between its goroutines and the handler, and
  the interleavings of reader and handler that decide when \<open>wg.Wait\<close> of node/handler.go returns.
\<close>

section \<open>The connection\<close>

text \<open>
  \<open>onceStop\<close> makes the body of \<open>Close\<close> run once; closing \<open>stop\<close> a second time would panic.
\<close>

record TcpCon =
  conn_open :: bool
  recv :: "Message option list"
  recv_closed :: bool
  sendq :: "Message list"
  sendq_closed :: bool
  onceStop :: bool
  stop :: bool

definition NewTcp :: TcpCon where
  "NewTcp = \<lparr>conn_open = True, recv = [], recv_closed = False, sendq = [], sendq_closed = False,
     onceStop = False, stop = False\<rparr>"

definition IsClose :: "TcpCon \<Rightarrow> bool" where "IsClose t = stop t"

definition Close :: "TcpCon \<Rightarrow> TcpCon outcome" where
  "Close t =
     (if onceStop t then Ret t
      else if stop t then Panic
      else Ret (t\<lparr>onceStop := True, conn_open := False, stop := True\<rparr>))"

text \<open>\<open>GetMsg\<close>: a message, the closed and empty channel, or nothing before the timer.\<close>

definition GetMsg :: "TcpCon \<Rightarrow> (Message option \<times> bool) \<times> TcpCon" where
  "GetMsg t =
     (case recv t of
        m # ms \<Rightarrow> ((m, True), t\<lparr>recv := ms\<rparr>)
      | [] \<Rightarrow> if recv_closed t then ((None, False), t) else ((None, True), t))"

text \<open>\<open>SendMsg\<close> panics on a closed channel and waits, here no value, on a full one.\<close>

definition SendMsg :: "Message \<Rightarrow> TcpCon \<Rightarrow> TcpCon option outcome" where
  "SendMsg m t =
     (if sendq_closed t then Panic
      else if length (sendq t) < TCP_Message_Send_Buffers then Ret (Some (t\<lparr>sendq := sendq t @ [m]\<rparr>))
      else Ret None)"

text \<open>The closing parts of the two goroutines.\<close>

definition readMsg_ends :: "TcpCon \<Rightarrow> TcpCon outcome" where
  "readMsg_ends t =
     bind_outcome (Close t) (\<lambda>t1. if recv_closed t1 then Panic else Ret (t1\<lparr>recv_closed := True\<rparr>))"

definition sendMsg_ends :: "TcpCon \<Rightarrow> TcpCon outcome" where
  "sendMsg_ends t =
     bind_outcome (Close t) (\<lambda>t1. if sendq_closed t1 then Panic else Ret (t1\<lparr>sendq_closed := True\<rparr>))"

section \<open>Reader and handler\<close>

text \<open>
  \<open>readMsg\<close> is at its loop's head, or has a message for the channel, or has ended; the handler
  takes messages until it ends, which closes the connection.  \<open>incoming\<close> is what the peer sends.
\<close>

datatype reader = AtHead | Holding "Message option" | Ended

record link =
  incoming :: "Message option list"
  queue :: "Message option list"
  reader :: reader
  handling :: bool
  stopped :: bool

definition new_link :: "Message option list \<Rightarrow> link" where
  "new_link ms = \<lparr>incoming = ms, queue = [], reader = AtHead, handling = True, stopped = False\<rparr>"

inductive link_step :: "link \<Rightarrow> link \<Rightarrow> bool" where
  reads: "reader s = AtHead \<Longrightarrow> \<not> stopped s \<Longrightarrow> incoming s = m # ms \<Longrightarrow>
    link_step s (s\<lparr>reader := Holding m, incoming := ms\<rparr>)"
| gives_up: "reader s = AtHead \<Longrightarrow> stopped s \<or> incoming s = [] \<Longrightarrow>
    link_step s (s\<lparr>reader := Ended, stopped := True\<rparr>)"
| puts: "reader s = Holding m \<Longrightarrow> length (queue s) < TCP_Message_Read_Buffers \<Longrightarrow>
    link_step s (s\<lparr>reader := AtHead, queue := queue s @ [m]\<rparr>)"
| handles: "handling s \<Longrightarrow> queue s = m # ms \<Longrightarrow> link_step s (s\<lparr>queue := ms\<rparr>)"
| leaves: "handling s \<Longrightarrow> link_step s (s\<lparr>handling := False, stopped := True\<rparr>)"

inductive_cases link_stepE: "link_step s s'"

text \<open>\<open>wg.Wait\<close> waits for the reader to end.\<close>

definition wait_returns :: "link \<Rightarrow> bool" where
  "wait_returns s = (reader s = Ended)"

section \<open>Lemmas\<close>

definition jammed :: "link \<Rightarrow> bool" where
  "jammed s = (\<not> handling s \<and> length (queue s) = TCP_Message_Read_Buffers \<and> (\<exists>m. reader s = Holding m))"

lemma jammed_stays: "link_step s s' \<Longrightarrow> jammed s \<Longrightarrow> jammed s'"
  by (erule link_stepE) (auto simp: jammed_def)

interpretation jam: stable link_step jammed
  by unfold_locales (rule jammed_stays)

lemma link_reads_many:
  "\<not> stopped s \<Longrightarrow> reader s = AtHead \<Longrightarrow> incoming s = ms @ r \<Longrightarrow>
   length (queue s) + length ms \<le> TCP_Message_Read_Buffers \<Longrightarrow>
   link_step\<^sup>*\<^sup>* s (s\<lparr>incoming := r, queue := queue s @ ms\<rparr>)"
proof (induction ms arbitrary: s)
  case Nil
  then have "s\<lparr>incoming := r, queue := queue s @ []\<rparr> = s" by (cases s) simp
  then show ?case by simp
next
  case (Cons m ms)
  let ?s1 = "s\<lparr>reader := Holding m, incoming := ms @ r\<rparr>"
  let ?s2 = "s\<lparr>incoming := ms @ r, queue := queue s @ [m]\<rparr>"
  have 1: "link_step s ?s1" by (rule link_step.reads) (use Cons.prems in simp_all)
  have "link_step ?s1 (?s1\<lparr>reader := AtHead, queue := queue ?s1 @ [m]\<rparr>)"
    by (rule link_step.puts) (use Cons.prems in simp_all)
  moreover have "?s1\<lparr>reader := AtHead, queue := queue ?s1 @ [m]\<rparr> = ?s2" using Cons.prems(2) by (cases s) simp
  ultimately have 2: "link_step ?s1 ?s2" by simp
  have "link_step\<^sup>*\<^sup>* ?s2 (?s2\<lparr>incoming := r, queue := queue ?s2 @ ms\<rparr>)"
    by (rule Cons.IH) (use Cons.prems in simp_all)
  then have "link_step\<^sup>*\<^sup>* ?s2 (s\<lparr>incoming := r, queue := queue s @ m # ms\<rparr>)" by simp
  with 1 2 show ?case by (meson converse_rtranclp_into_rtranclp)
qed

section \<open>Properties\<close>

text \<open>
  C33: A peer can hold a sender for ever.  If it sends a message on which the handler ends, and eleven
  more, the reader fills the channel and waits to put the last one; closing the connection, which the
  handler does three seconds later, does not wake it.  From then on no step lets \<open>wg.Wait\<close> return, so \<open>SendFile\<close>, which its
  callers run under \<open>workLock\<close>, does not return either.
\<close>

theorem peer_can_hold_sender:
  assumes "length ms = TCP_Message_Read_Buffers"
  shows "\<exists>s. link_step\<^sup>*\<^sup>* (new_link (bad # ms @ m # rest)) s \<and> \<not> handling s \<and> stopped s
     \<and> (\<forall>s'. link_step\<^sup>*\<^sup>* s s' \<longrightarrow> \<not> wait_returns s')"
proof -
  let ?a = "\<lparr>incoming = ms @ m # rest, queue = [], reader = Holding bad, handling = True, stopped = False\<rparr>"
  let ?b = "\<lparr>incoming = ms @ m # rest, queue = [bad], reader = AtHead, handling = True, stopped = False\<rparr>"
  have "link_step (new_link (bad # ms @ m # rest)) ?a"
    using link_step.reads [of "new_link (bad # ms @ m # rest)" bad "ms @ m # rest"] by (simp add: new_link_def)
  moreover have "link_step ?a ?b" using link_step.puts [of ?a bad] by (simp add: TCP_Message_Read_Buffers_def)
  moreover have "link_step ?b (new_link (ms @ m # rest))"
    using link_step.handles [of ?b bad "[]"] by (simp add: new_link_def)
  ultimately have start: "link_step\<^sup>*\<^sup>* (new_link (bad # ms @ m # rest)) (new_link (ms @ m # rest))"
    by (meson rtranclp.rtrancl_refl rtranclp.rtrancl_into_rtrancl)
  let ?s1 = "\<lparr>incoming = m # rest, queue = ms, reader = AtHead, handling = True, stopped = False\<rparr>"
  let ?s2 = "\<lparr>incoming = rest, queue = ms, reader = Holding m, handling = True, stopped = False\<rparr>"
  let ?s3 = "\<lparr>incoming = rest, queue = ms, reader = Holding m, handling = False, stopped = True\<rparr>"
  have "link_step\<^sup>*\<^sup>* (new_link (ms @ m # rest)) ?s1"
    using link_reads_many [of "new_link (ms @ m # rest)" ms "m # rest"] assms by (simp add: new_link_def)
  moreover have "link_step ?s1 ?s2" using link_step.reads [of ?s1 m rest] by simp
  moreover have "link_step ?s2 ?s3" using link_step.leaves [of ?s2] by simp
  ultimately have "link_step\<^sup>*\<^sup>* (new_link (ms @ m # rest)) ?s3" by (meson rtranclp.rtrancl_into_rtrancl)
  with start have reach: "link_step\<^sup>*\<^sup>* (new_link (bad # ms @ m # rest)) ?s3" by (rule rtranclp_trans)
  have "jammed ?s3" using assms by (simp add: jammed_def)
  then have "\<not> wait_returns s'" if "link_step\<^sup>*\<^sup>* ?s3 s'" for s'
    using jam.star_stays [OF that] by (auto simp: jammed_def wait_returns_def)
  with reach show ?thesis by (intro exI [of _ ?s3]) simp
qed

theorem peer_can_hold_sender_witness:
  "\<exists>s. link_step\<^sup>*\<^sup>* (new_link (None # replicate 10 None @ None # [])) s \<and> \<not> handling s \<and> stopped s
     \<and> (\<forall>s'. link_step\<^sup>*\<^sup>* s s' \<longrightarrow> \<not> wait_returns s')"
  by (rule peer_can_hold_sender) (simp add: TCP_Message_Read_Buffers_def)

definition few :: "link \<Rightarrow> bool" where
  "few s = (length (incoming s) + length (queue s) + (case reader s of Holding m \<Rightarrow> 1 | _ \<Rightarrow> 0)
     \<le> TCP_Message_Read_Buffers \<and> (\<not> handling s \<longrightarrow> stopped s))"

lemma few_stays: "link_step s s' \<Longrightarrow> few s \<Longrightarrow> few s'"
  by (erule link_stepE) (auto simp: few_def)

interpretation few: stable link_step few
  by unfold_locales (rule few_stays)

text \<open>
  A peer that has sent at most ten messages cannot: from every reachable state with the handler
  gone there is a way on in which the reader ends.
\<close>

theorem short_peer_releases_sender:
  assumes "length ms \<le> TCP_Message_Read_Buffers" "link_step\<^sup>*\<^sup>* (new_link ms) s" "\<not> handling s"
  shows "\<exists>s'. link_step\<^sup>*\<^sup>* s s' \<and> wait_returns s'"
proof -
  have "few s"
    by (rule few.star_stays [OF assms(2)]) (use assms(1) in \<open>auto simp: few_def new_link_def\<close>)
  then have st: "stopped s" and len: "reader s = Holding m \<Longrightarrow> length (queue s) < TCP_Message_Read_Buffers" for m
    using assms(3) by (auto simp: few_def)
  have head: "\<exists>s'. link_step\<^sup>*\<^sup>* t s' \<and> wait_returns s'" if "reader t = AtHead" "stopped t" for t
    using link_step.gives_up [OF that(1)] that(2) by (intro exI [of _ "t\<lparr>reader := Ended, stopped := True\<rparr>"])
      (auto simp: wait_returns_def)
  show ?thesis
  proof (cases "reader s")
    case AtHead
    then show ?thesis using head st by blast
  next
    case (Holding m)
    have "link_step s (s\<lparr>reader := AtHead, queue := queue s @ [m]\<rparr>)"
      by (rule link_step.puts [OF Holding len [OF Holding]])
    moreover have "\<exists>s'. link_step\<^sup>*\<^sup>* (s\<lparr>reader := AtHead, queue := queue s @ [m]\<rparr>) s' \<and> wait_returns s'"
      by (rule head) (use st in simp_all)
    ultimately show ?thesis by (meson converse_rtranclp_into_rtranclp)
  next
    case Ended
    then show ?thesis by (auto simp: wait_returns_def)
  qed
qed

theorem short_peer_releases_sender_witness:
  "\<exists>s'. link_step\<^sup>*\<^sup>* ((new_link [])\<lparr>handling := False, stopped := True\<rparr>) s' \<and> wait_returns s'"
proof (rule short_peer_releases_sender [of "[]"])
  show "link_step\<^sup>*\<^sup>* (new_link []) ((new_link [])\<lparr>handling := False, stopped := True\<rparr>)"
    using link_step.leaves [of "new_link []"] by (simp add: new_link_def r_into_rtranclp)
qed simp_all

end
