(* ===== verification/VerifyTask.thy ===== *)
theory VerifyTask
  imports Podr2 ChainTx
begin

text \<open>
  The proof validation task (node/sub_verifyProofs.go): one proof, the submission of results with
  its retries, and the rounds of the task under the node-wide \<open>workLock\<close>.  The chain the task
  submits to is the locale \<open>proof_submitter\<close>, which the transactions of ChainTx provide.
\<close>

section \<open>How a task ends\<close>

text \<open>
  Besides returning, a task may panic (its deferred \<open>recover\<close> ends the task, which the manager
  starts again), take the process down from a goroutine, or wait for a lock nobody releases.
\<close>

datatype 'a run = Done 'a | PanicIn 'a | CrashIn 'a | BlockedIn 'a

section \<open>One proof\<close>

definition result_of :: "Proof \<Rightarrow> bool \<Rightarrow> ProofResult" where
  "result_of prf b = \<lparr>pr_PublicKey = pf_Miner_pubkey prf, pr_FileId = ch_File_id (pf_Challenge_info prf),
     pr_Shard_id = ch_Shard_id (pf_Challenge_info prf), pr_Result = b\<rparr>"

text \<open>The result, or how the verification fails to give one (the boolean is not used then).\<close>

definition verifyProof :: "RSAKeyPair \<Rightarrow> Proof \<Rightarrow> ProofResult run" where
  "verifyProof key prf =
     (if length (pf_U prf) = 0 \<or> length (pf_Sigma prf) = 0 \<or> length (pf_Omega prf) = 0
      then Done (result_of prf False)
      else case PoDR2ChallengeGenerateFromChain (ch_Block_list (pf_Challenge_info prf))
                  (ch_Random (pf_Challenge_info prf)) of
             Inl err \<Rightarrow> Done (result_of prf True)
           | Inr qSlice \<Rightarrow>
               (case VerifyProof key (pf_U prf) qSlice (pf_Mu prf) (pf_Sigma prf) (pf_HashMi prf) of
                  Verdict b \<Rightarrow> Done (result_of prf b)
                | MainPanic \<Rightarrow> PanicIn (result_of prf False)
                | ProcessCrash \<Rightarrow> CrashIn (result_of prf False)))"

section \<open>Submitting\<close>

type_synonym 's submitter = "ProofResult list \<Rightarrow> 's \<Rightarrow> (string \<times> go_error option) outcome \<times> 's"

text \<open>
  The loop counts failed attempts only, so a submission that reports neither an error nor a hash
  is repeated for ever: \<open>None\<close> is a loop that does not end.
\<close>

partial_function (option) submit_loop ::
  "'s submitter \<Rightarrow> ProofResult list \<Rightarrow> nat \<Rightarrow> 's \<Rightarrow> 's run option" where
  "submit_loop submit proofs tryCount s =
     (case submit proofs s of
        (Panic, s1) \<Rightarrow> Some (PanicIn s1)
      | (Ret (txhash, err), s1) \<Rightarrow>
          let tryCount1 = (if err \<noteq> None then tryCount + 1 else tryCount) in
          if txhash \<noteq> [] then Some (Done s1)
          else if tryCount1 \<ge> 3 then Some (Done s1)
          else submit_loop submit proofs tryCount1 s1)"

definition submitProofResult :: "'s submitter \<Rightarrow> ProofResult list \<Rightarrow> 's \<Rightarrow> 's run option" where
  "submitProofResult submit proofs s =
     (if length proofs > 0 then submit_loop submit proofs 0 s else Some (Done s))"

section \<open>The rounds\<close>

text \<open>The loop over the proofs of a round; \<open>verifyResults\<close> is what is not submitted yet.\<close>

fun verify_batch ::
  "'s submitter \<Rightarrow> RSAKeyPair \<Rightarrow> Proof list \<Rightarrow> ProofResult list \<Rightarrow> 's
   \<Rightarrow> (ProofResult list \<times> 's) run option" where
  "verify_batch submit key [] verifyResults s = Some (Done (verifyResults, s))"
| "verify_batch submit key (prf # proofs) verifyResults s =
     (case (if length verifyResults \<ge> Max_SubProofResults
            then map_option (\<lambda>r. ([], r)) (submitProofResult submit verifyResults s)
            else Some (verifyResults, Done s)) of
        None \<Rightarrow> None
      | Some (vr, Done s1) \<Rightarrow>
          (case verifyProof key prf of
             Done res \<Rightarrow> verify_batch submit key proofs (vr @ [res]) s1
           | PanicIn _ \<Rightarrow> Some (PanicIn (vr, s1))
           | CrashIn _ \<Rightarrow> Some (CrashIn (vr, s1))
           | BlockedIn _ \<Rightarrow> Some (BlockedIn (vr, s1)))
      | Some (vr, PanicIn s1) \<Rightarrow> Some (PanicIn (vr, s1))
      | Some (vr, CrashIn s1) \<Rightarrow> Some (CrashIn (vr, s1))
      | Some (vr, BlockedIn s1) \<Rightarrow> Some (BlockedIn (vr, s1)))"

text \<open>
  A round on the proofs of the chain.  The boolean is whether \<open>workLock\<close> is held: it is taken
  before the loop and released after it, not in a defer.
\<close>

definition validate_round ::
  "'s submitter \<Rightarrow> RSAKeyPair \<Rightarrow> Proof list \<Rightarrow> bool \<times> 's \<Rightarrow> (bool \<times> 's) run option" where
  "validate_round submit key proofs st =
     (case st of (lock, s) \<Rightarrow>
       if length proofs > 0 then
         (if lock then Some (BlockedIn (lock, s))
          else case verify_batch submit key proofs [] s of
                 None \<Rightarrow> None
               | Some (Done (vr, s1)) \<Rightarrow>
                   (case submitProofResult submit vr s1 of
                      None \<Rightarrow> None
                    | Some (Done s2) \<Rightarrow> Some (Done (False, s2))
                    | Some (PanicIn s2) \<Rightarrow> Some (PanicIn (False, s2))
                    | Some (CrashIn s2) \<Rightarrow> Some (CrashIn (False, s2))
                    | Some (BlockedIn s2) \<Rightarrow> Some (BlockedIn (False, s2)))
               | Some (PanicIn (vr, s1)) \<Rightarrow> Some (PanicIn (True, s1))
               | Some (CrashIn (vr, s1)) \<Rightarrow> Some (CrashIn (True, s1))
               | Some (BlockedIn (vr, s1)) \<Rightarrow> Some (BlockedIn (True, s1)))
       else Some (Done (lock, s)))"

text \<open>
  The task: \<open>keys\<close> is what successive \<open>GetKey\<close> calls give until one succeeds, \<open>answers\<close>
  what successive \<open>GetProofs\<close> calls give; the end of either list is the end of the observation.
\<close>

fun validate_rounds ::
  "'s submitter \<Rightarrow> RSAKeyPair \<Rightarrow> (go_error + Proof list) list \<Rightarrow> bool \<times> 's \<Rightarrow> (bool \<times> 's) run option" where
  "validate_rounds submit key [] st = Some (Done st)"
| "validate_rounds submit key (Inl err # as) st = validate_rounds submit key as st"
| "validate_rounds submit key (Inr proofs # as) st =
     (case validate_round submit key proofs st of
        Some (Done st1) \<Rightarrow> validate_rounds submit key as st1
      | r \<Rightarrow> r)"

fun task_ValidateProof ::
  "'s submitter \<Rightarrow> (RSAKeyPair \<times> go_error option) list \<Rightarrow> (go_error + Proof list) list
   \<Rightarrow> bool \<times> 's \<Rightarrow> (bool \<times> 's) run option" where
  "task_ValidateProof submit [] answers st = Some (Done st)"
| "task_ValidateProof submit ((key, Some err) # ks) answers st = task_ValidateProof submit ks answers st"
| "task_ValidateProof submit ((key, None) # ks) answers st = validate_rounds submit key answers st"

section \<open>The interface of the chain\<close>

text \<open>
  What the loop needs of the chain in a usable state: a submission does not panic and keeps the
  state usable, and one that reports no error reports a hash.
\<close>

text \<open>A submitter that also records every submission in its state.\<close>

definition recording :: "'s submitter \<Rightarrow> ('s \<times> ProofResult list list) submitter" where
  "recording submit ps st =
     (case st of (s, l) \<Rightarrow> case submit ps s of (r, s1) \<Rightarrow> (r, (s1, l @ [ps])))"

locale proof_submitter =
  fixes submit :: "'s submitter"
    and usable :: "'s \<Rightarrow> bool"
  assumes no_panic: "usable s \<Longrightarrow> \<exists>h err s1. submit ps s = (Ret (h, err), s1) \<and> usable s1"
    and success_has_hash: "usable s \<Longrightarrow> submit ps s = (Ret (h, None), s1) \<Longrightarrow> h \<noteq> []"
begin

lemma recorded_loop:
  assumes "usable s" "t < 3"
  shows "\<exists>s1 k. submit_loop (recording submit) ps t (s, l) = Some (Done (s1, l @ replicate k ps))
    \<and> usable s1 \<and> 1 \<le> k \<and> k \<le> 3 - t"
  using assms
proof (induction "3 - t" arbitrary: t s l rule: less_induct)
  case less
  obtain h err s1 where sub: "submit ps s = (Ret (h, err), s1)" and u: "usable s1"
    using no_panic [OF less.prems(1)] by blast
  have rec: "recording submit ps (s, l) = (Ret (h, err), (s1, l @ [ps]))"
    using sub by (simp add: recording_def)
  show ?case
  proof (cases "h \<noteq> [] \<or> t + 1 \<ge> 3")
    case True
    then have "submit_loop (recording submit) ps t (s, l) = Some (Done (s1, l @ replicate 1 ps))"
      using rec success_has_hash [OF less.prems(1), of ps h s1] sub
      by (subst submit_loop.simps) (auto simp: Let_def)
    with less.prems(2) u show ?thesis by (intro exI conjI) auto
  next
    case False
    then have more: "h = []" "err \<noteq> None" "t + 1 < 3"
      using success_has_hash [OF less.prems(1), of ps h s1] sub by auto
    then have step: "submit_loop (recording submit) ps t (s, l)
        = submit_loop (recording submit) ps (t + 1) (s1, l @ [ps])"
      using rec by (subst submit_loop.simps) (auto simp: Let_def)
    have "3 - (t + 1) < 3 - t" using more by simp
    from less.hyps [OF this u more(3), of "l @ [ps]"] obtain s2 k where
      k: "submit_loop (recording submit) ps (t + 1) (s1, l @ [ps])
        = Some (Done (s2, (l @ [ps]) @ replicate k ps))" "usable s2" "1 \<le> k" "k \<le> 3 - (t + 1)" by blast
    then have "submit_loop (recording submit) ps t (s, l) = Some (Done (s2, l @ replicate (Suc k) ps))"
      unfolding step by simp
    moreover have "1 \<le> Suc k \<and> Suc k \<le> 3 - t" using k more by simp
    ultimately show ?thesis using k(2) by blast
  qed
qed

lemma recorded_submit:
  assumes "usable s" "ps \<noteq> []"
  shows "\<exists>s1 k. submitProofResult (recording submit) ps (s, l) = Some (Done (s1, l @ replicate k ps))
    \<and> usable s1 \<and> 1 \<le> k \<and> k \<le> 3"
  using recorded_loop [OF assms(1), of 0 ps l] assms(2) by (simp add: submitProofResult_def)

text \<open>
  After the loop over the proofs, what was submitted is full batches, each up to three times, and
  what is left has at most forty results.
\<close>

lemma recorded_batches:
  assumes u: "usable s"
    and ok: "\<forall>p \<in> set proofs. verifyProof key p = Done (f p)"
    and acc: "length acc \<le> 40"
  shows "\<exists>s1 bs ks vr. verify_batch (recording submit) key proofs acc (s, l)
      = Some (Done (vr, (s1, l @ concat (map2 replicate ks bs))))
    \<and> concat bs @ vr = acc @ map f proofs \<and> length ks = length bs
    \<and> (\<forall>b \<in> set bs. length b = 40) \<and> (\<forall>k \<in> set ks. 1 \<le> k \<and> k \<le> 3)
    \<and> length vr \<le> 40 \<and> (acc @ map f proofs \<noteq> [] \<longrightarrow> vr \<noteq> []) \<and> usable s1"
  using u ok acc
proof (induction proofs arbitrary: acc s l)
  case Nil
  show ?case
    by (rule exI [of _ s], rule exI [of _ "[]"], rule exI [of _ "[]"], rule exI [of _ acc])
       (use Nil.prems in auto)
next
  case (Cons p ps)
  have v: "verifyProof key p = Done (f p)" and rest: "\<forall>p \<in> set ps. verifyProof key p = Done (f p)"
    using Cons.prems(2) by auto
  show ?case
  proof (cases "length acc = 40")
    case False
    then have lt: "length acc < 40" using Cons.prems(3) by simp
    then have step: "verify_batch (recording submit) key (p # ps) acc (s, l)
        = verify_batch (recording submit) key ps (acc @ [f p]) (s, l)"
      using v by (simp add: Max_SubProofResults_def)
    from Cons.IH [OF Cons.prems(1) rest, of "acc @ [f p]" l] lt obtain s1 bs ks vr where
      "verify_batch (recording submit) key ps (acc @ [f p]) (s, l)
        = Some (Done (vr, (s1, l @ concat (map2 replicate ks bs))))"
      "concat bs @ vr = (acc @ [f p]) @ map f ps" "length ks = length bs"
      "\<forall>b \<in> set bs. length b = 40" "\<forall>k \<in> set ks. 1 \<le> k \<and> k \<le> 3" "length vr \<le> 40" "vr \<noteq> []" "usable s1"
      by auto
    then show ?thesis unfolding step by (intro exI conjI) auto
  next
    case True
    then have "acc \<noteq> []" by auto
    from recorded_submit [OF Cons.prems(1) this, of l] obtain s1 k where
      k: "submitProofResult (recording submit) acc (s, l) = Some (Done (s1, l @ replicate k acc))"
        "usable s1" "1 \<le> k" "k \<le> 3" by blast
    have step: "verify_batch (recording submit) key (p # ps) acc (s, l)
        = verify_batch (recording submit) key ps [f p] (s1, l @ replicate k acc)"
      using v k True by (simp add: Max_SubProofResults_def)
    from Cons.IH [OF k(2) rest, of "[f p]" "l @ replicate k acc"] obtain s2 bs ks vr where
      w: "verify_batch (recording submit) key ps [f p] (s1, l @ replicate k acc)
        = Some (Done (vr, (s2, (l @ replicate k acc) @ concat (map2 replicate ks bs))))"
      "concat bs @ vr = [f p] @ map f ps" "length ks = length bs"
      "\<forall>b \<in> set bs. length b = 40" "\<forall>k \<in> set ks. 1 \<le> k \<and> k \<le> 3" "length vr \<le> 40" "vr \<noteq> []" "usable s2"
      by auto
    have "verify_batch (recording submit) key (p # ps) acc (s, l)
        = Some (Done (vr, (s2, l @ concat (map2 replicate (k # ks) (acc # bs)))))"
      unfolding step w(1) by simp
    moreover have "concat (acc # bs) @ vr = acc @ map f (p # ps)" using w(2) by simp
    moreover have "length (k # ks) = length (acc # bs)" using w(3) by simp
    moreover have "\<forall>b \<in> set (acc # bs). length b = 40" using w(4) True by simp
    moreover have "\<forall>k \<in> set (k # ks). 1 \<le> k \<and> k \<le> 3" using w(5) k by simp
    ultimately show ?thesis using w(6-8) by blast
  qed
qed

lemma recorded_round:
  assumes u: "usable s"
    and ok: "\<forall>p \<in> set proofs. verifyProof key p = Done (f p)" and ne: "proofs \<noteq> []"
  shows "\<exists>s1 bs ks. validate_round (recording submit) key proofs (False, (s, []))
      = Some (Done (False, (s1, concat (map2 replicate ks bs))))
    \<and> concat bs = map f proofs \<and> length ks = length bs
    \<and> (\<forall>b \<in> set bs. 1 \<le> length b \<and> length b \<le> 40) \<and> (\<forall>k \<in> set ks. 1 \<le> k \<and> k \<le> 3)
    \<and> usable s1"
proof -
  have acc: "length ([] :: ProofResult list) \<le> 40" by simp
  from recorded_batches [OF u ok acc, of "[]"] ne obtain s1 bs ks vr where
    w: "verify_batch (recording submit) key proofs [] (s, [])
        = Some (Done (vr, (s1, concat (map2 replicate ks bs))))"
      "concat bs @ vr = map f proofs" "length ks = length bs"
      "\<forall>b \<in> set bs. length b = 40" "\<forall>k \<in> set ks. 1 \<le> k \<and> k \<le> 3" "length vr \<le> 40" "vr \<noteq> []" "usable s1"
    by auto
  from recorded_submit [OF w(8,7), of "concat (map2 replicate ks bs)"] obtain s2 k where
    k: "submitProofResult (recording submit) vr (s1, concat (map2 replicate ks bs))
      = Some (Done (s2, concat (map2 replicate ks bs) @ replicate k vr))" "usable s2" "1 \<le> k" "k \<le> 3" by blast
  have "concat (map2 replicate ks bs) @ replicate k vr
      = concat (map2 replicate (ks @ [k]) (bs @ [vr]))" using w(3) by simp
  then have "validate_round (recording submit) key proofs (False, (s, []))
      = Some (Done (False, (s2, concat (map2 replicate (ks @ [k]) (bs @ [vr])))))"
    using w(1) k ne by (simp add: validate_round_def)
  moreover have "concat (bs @ [vr]) = map f proofs" using w(2) by simp
  moreover have "length (ks @ [k]) = length (bs @ [vr])" using w(3) by simp
  moreover have "\<forall>b \<in> set (bs @ [vr]). 1 \<le> length b \<and> length b \<le> 40"
    using w(4,6,7) by (cases vr) auto
  moreover have "\<forall>k \<in> set (ks @ [k]). 1 \<le> k \<and> k \<le> 3" using w(5) k by auto
  ultimately show ?thesis using k(2) by blast
qed

end

section \<open>The chain provides the interface\<close>

definition chain_submit :: "('api, 'w) gsrpc \<Rightarrow> ('api chainClient \<times> 'w) submitter" where
  "chain_submit G ps st =
     (case st of (c, w) \<Rightarrow>
        case SubmitProofResults G ps c w of (r, c1, w1) \<Rightarrow> (r, (c1, w1)))"

text \<open>The first submission of a transaction with its retries, the part of \<open>submit_tx\<close> before the wait.\<close>

definition first_submit ::
  "('api, 'w) gsrpc \<Rightarrow> tx_texts \<Rightarrow> 'api \<Rightarrow> tx_call \<Rightarrow> u32 \<Rightarrow> 'w
   \<Rightarrow> ((string \<times> go_error) + sub_event list) \<times> 'w" where
  "first_submit G T api call n w1 =
     (case rpc_Submit G api (call, n) w1 of
        (Inr sub, w2) \<Rightarrow> (Inr sub, w2)
      | (Inl e, w2) \<Rightarrow>
          if \<not> t_Retry T \<or> \<not> contains_sub priority_msg e then (Inl (t_SubmitFirst T, e), w2)
          else retry_submit G T api call n 20 e w2)"

text \<open>
  A node that stays reachable: in the worlds \<open>up\<close> the health query answers, every call leads to
  such a world, and the error channel of a submission is not closed while it is watched.
\<close>

locale steady_node =
  fixes G :: "('api, 'w) gsrpc"
    and up :: "'w \<Rightarrow> bool"
  assumes healthy: "up w \<Longrightarrow> \<exists>b w1. rpc_Health G a w = (Inr b, w1) \<and> up w1"
    and latest_up: "up w \<Longrightarrow> up (snd (rpc_GetStorageLatest G a key w))"
    and raw_up: "up w \<Longrightarrow> up (snd (rpc_GetStorageRaw G a h w))"
    and submit_up: "up w \<Longrightarrow> up (snd (rpc_Submit G a x w))"
    and stays_open: "rpc_Submit G a x w = (Inr sub, w1) \<Longrightarrow> SubErr None \<notin> set sub"
begin

lemma steady_client:
  assumes "up w" "cc_api c = Some api"
  shows "\<exists>w1. IsChainClientOk G c w = (True, c, w1) \<and> up w1"
  using healthy [OF assms(1), of api] assms(2)
  by (auto simp: IsChainClientOk_def healthchek_def)

lemma watch_sub_up: "up w \<Longrightarrow> up (snd (watch_sub G T ex a evs w))"
proof (induction evs)
  case (Cons e evs)
  then show ?case
    by (cases e) (use raw_up [of w a] in \<open>auto simp: Let_def split: sum.splits prod.splits\<close>,
      metis snd_conv)+
qed simp

lemma watch_sub_hash:
  "SubErr None \<notin> set evs \<Longrightarrow> watch_sub G T ex a evs w = ((h, None), w1) \<Longrightarrow> \<exists>bs. h = t_Hex T bs"
proof (induction evs)
  case (Cons e evs)
  then show ?case
    by (cases e) (auto simp: Let_def split: sum.splits prod.splits if_splits)
qed simp

lemma retry_submit_steady:
  "up w \<Longrightarrow> up (snd (retry_submit G T a call n k err w))"
  "retry_submit G T a call n k err w = (Inr sub, w1) \<Longrightarrow> SubErr None \<notin> set sub"
proof (induction k arbitrary: err w)
  case (Suc k)
  {
    case 1
    then show ?case
      using submit_up [OF 1, of a "(call, n + 1)"] Suc(1)
      by (auto split: option.splits sum.splits prod.splits)
  next
    case 2
    then show ?case
      using Suc(2) stays_open by (auto split: option.splits sum.splits prod.splits)
  }
qed simp_all

lemma first_submit_steady:
  "up w \<Longrightarrow> up (snd (first_submit G T api call n w))"
  "first_submit G T api call n w = (Inr sub, w1) \<Longrightarrow> SubErr None \<notin> set sub"
proof -
  obtain r w2 where s: "rpc_Submit G api (call, n) w = (r, w2)" by fastforce
  {
    assume "up w"
    then have "up w2" using submit_up [of w api "(call, n)"] s by simp
    then show "up (snd (first_submit G T api call n w))"
      using retry_submit_steady(1) by (cases r) (simp_all add: first_submit_def s)
  next
    assume "first_submit G T api call n w = (Inr sub, w1)"
    then show "SubErr None \<notin> set sub"
      using retry_submit_steady(2) [of T api call n 20 _ w2 sub w1] s
      by (cases r) (auto simp: first_submit_def split: if_splits dest: stays_open)
  }
qed

lemma submit_tx_steady:
  assumes "up w" "cc_api c = Some api"
  shows "\<exists>h err w1. submit_tx G T name ex call c w = (Ret (h, err), c, w1) \<and> up w1
    \<and> (err = None \<longrightarrow> (\<exists>bs. h = t_Hex T bs))"
proof (cases "NewCall G name call \<noteq> None
    \<or> (\<exists>e. CreateStorageKey G SYSTEM ACCOUNT (Some (cc_publicKey c)) = Inl e)")
  case True
  then show ?thesis
    using assms(1) by (auto simp: submit_tx_def split: option.splits sum.splits)
next
  case False
  then obtain key where pre: "NewCall G name call = None"
    and key: "CreateStorageKey G SYSTEM ACCOUNT (Some (cc_publicKey c)) = Inr key"
    by (cases "CreateStorageKey G SYSTEM ACCOUNT (Some (cc_publicKey c))") auto
  obtain r w1 where st: "rpc_GetStorageLatest G api key w = (r, w1)" by fastforce
  then have w1: "up w1" using latest_up [OF assms(1), of api key] by simp
  consider (early) "(\<exists>e. r = Inl e) \<or> r = Inr None \<or> (\<exists>raw e. r = Inr (Some raw) \<and> DecAccountInfo G raw = Inl e)"
    | (acc) raw a where "r = Inr (Some raw)" and "DecAccountInfo G raw = Inr a"
    by (metis not_None_eq old.sum.exhaust)
  then show ?thesis
  proof cases
    case early
    then show ?thesis
      using pre key assms(2) st w1 by (auto simp: submit_tx_def)
  next
    case acc
    show ?thesis
    proof (cases "Sign G call (ai_Nonce a)")
      case (Some e)
      then show ?thesis using acc pre key assms(2) st w1 by (simp add: submit_tx_def)
    next
      case None
      obtain fs w2 where f: "first_submit G T api call (ai_Nonce a) w1 = (fs, w2)" by fastforce
      then have w2: "up w2" using first_submit_steady(1) [OF w1, of T api call "ai_Nonce a"] by simp
      have eq: "submit_tx G T name ex call c w =
          (case (fs, w2) of
             (Inl (msg, e), w2) \<Rightarrow> (Ret ([], Some (wrap_error msg e)), c, w2)
           | (Inr sub, w2) \<Rightarrow> (case watch_sub G T ex api sub w2 of (r, w3) \<Rightarrow> (Ret r, c, w3)))"
        using None acc pre key assms(2) st unfolding f [symmetric]
        by (simp add: submit_tx_def first_submit_def)
      show ?thesis
      proof (cases fs)
        case (Inl p)
        then show ?thesis using eq w2 by (cases p) simp
      next
        case (Inr sub)
        obtain h err w3 where w: "watch_sub G T ex api sub w2 = ((h, err), w3)"
          by (metis prod.collapse)
        have "up w3" using watch_sub_up [OF w2, of T ex api sub] w by simp
        moreover have "\<exists>bs. h = t_Hex T bs" if "err = None"
        proof -
          have "SubErr None \<notin> set sub" using first_submit_steady(2) f Inr by simp
          from watch_sub_hash [OF this] w that show ?thesis by blast
        qed
        ultimately show ?thesis using eq Inr w by simp
      qed
    qed
  qed
qed

lemma chain_no_panic:
  assumes "cc_api (fst s) \<noteq> None" "up (snd s)"
  shows "\<exists>h err s1. chain_submit G ps s = (Ret (h, err), s1) \<and> (cc_api (fst s1) \<noteq> None \<and> up (snd s1))
    \<and> (err = None \<longrightarrow> h \<noteq> [])"
proof -
  obtain c w where s: "s = (c, w)" by (cases s)
  with assms obtain api where api: "cc_api c = Some api" and w: "up w" by auto
  obtain w1 where ok: "IsChainClientOk G c w = (True, c, w1)" and w1: "up w1"
    using steady_client [OF w api] by blast
  have hex: "t_Hex (texts_bracketed\<lparr>t_Retry := False\<rparr>) bs \<noteq> []" for bs
    by (simp add: texts_bracketed_def EncodeToHex_def)
  have api1: "cc_api (SetChainState True c) = Some api" using api by (simp add: SetChainState_def)
  from submit_tx_steady [OF w1 api1, of "texts_bracketed\<lparr>t_Retry := False\<rparr>" TX_AUDIT_VERIFYPROOF
      "\<lambda>ev. length (filter is_VerifyProofEv (ev_SegmentBook ev)) > 0" "Call_VerifyProof ps"]
  show ?thesis
    using ok api1 hex by (auto simp: chain_submit_def s SubmitProofResults_def with_connection_def)
qed

end

sublocale steady_node \<subseteq>
  chain: proof_submitter "chain_submit G" "\<lambda>s. cc_api (fst s) \<noteq> None \<and> up (snd s)"
proof unfold_locales
  fix s :: "'api chainClient \<times> 'w" and ps h s1
  assume u: "cc_api (fst s) \<noteq> None \<and> up (snd s)"
  from u chain_no_panic [of s ps]
  show "\<exists>h err s1. chain_submit G ps s = (Ret (h, err), s1) \<and> cc_api (fst s1) \<noteq> None \<and> up (snd s1)"
    by blast
  assume "chain_submit G ps s = (Ret (h, None), s1)"
  with u chain_no_panic [of s ps] show "h \<noteq> []" by auto
qed

interpretation sample: steady_node sample_node "\<lambda>b. b"
  by unfold_locales (auto simp: sample_node_def)

section \<open>Properties\<close>

definition sample_proof :: Proof where
  "sample_proof = \<lparr>pf_FileId = [], pf_Miner_pubkey = replicate 32 1,
     pf_Challenge_info = \<lparr>ch_File_size = 0, ch_File_type = 1, ch_Block_list = [1],
       ch_File_id = replicate 64 2, ch_Shard_id = replicate 68 3, ch_Random = [[1]]\<rparr>,
     pf_U = [2], pf_Mu = [0], pf_Sigma = [1], pf_Omega = [1], pf_SigRootHash = [], pf_HashMi = [[1]]\<rparr>"

text \<open>
  C30: What becomes of a proof, with a usable key: without \<open>U\<close>, \<open>Sigma\<close> or \<open>Omega\<close> it is
  rejected; if the challenge has more or fewer random numbers than blocks it is accepted
  unseen; with fewer hashes than challenged blocks the process crashes; with no challenged
  block the task panics; otherwise the result is whether the RSA equation holds.
\<close>

theorem proof_outcome:
  assumes "spk_N key = Some n" "0 < n" "0 \<le> spk_E key"
  shows "verifyProof key prf =
    (let blocks = ch_Block_list (pf_Challenge_info prf); randoms = ch_Random (pf_Challenge_info prf) in
     if pf_U prf = [] \<or> pf_Sigma prf = [] \<or> pf_Omega prf = [] then Done (result_of prf False)
     else if length blocks \<noteq> length randoms then Done (result_of prf True)
     else if length (pf_HashMi prf) < length blocks then CrashIn (result_of prf False)
     else if blocks = [] then PanicIn (result_of prf False)
     else Done (result_of prf
       ((prod (\<lambda>i. SetBytes (pf_HashMi prf ! i) ^ SetBytes (randoms ! i)) {..<length blocks}
           * SetBytes (pf_U prf) ^ SetBytes (pf_Mu prf)) mod nat n
        = SetBytes (pf_Sigma prf) ^ nat (spk_E key) mod nat n)))"
proof -
  let ?bl = "ch_Block_list (pf_Challenge_info prf)" and ?rd = "ch_Random (pf_Challenge_info prf)"
  let ?H = "pf_HashMi prf"
  show ?thesis
  proof (cases "pf_U prf = [] \<or> pf_Sigma prf = [] \<or> pf_Omega prf = [] \<or> length ?bl \<noteq> length ?rd")
    case True
    then show ?thesis by (auto simp: verifyProof_def PoDR2ChallengeGenerateFromChain_def Let_def)
  next
    case False
    then obtain Q where Q: "PoDR2ChallengeGenerateFromChain ?bl ?rd = Inr Q"
      by (auto simp: PoDR2ChallengeGenerateFromChain_def)
    then have lQ: "length Q = length ?bl" and vQ: "\<And>i. i < length Q \<Longrightarrow> q_V (Q ! i) = ?rd ! i"
      by (auto simp: PoDR2ChallengeGenerateFromChain_def split: if_splits)
    have base: "verifyProof key prf =
        (case VerifyProof key (pf_U prf) Q (pf_Mu prf) (pf_Sigma prf) ?H of
           Verdict b \<Rightarrow> Done (result_of prf b)
         | MainPanic \<Rightarrow> PanicIn (result_of prf False)
         | ProcessCrash \<Rightarrow> CrashIn (result_of prf False))"
      using False Q by (simp add: verifyProof_def)
    consider (short) "length ?H < length ?bl" | (empty) "?bl = []"
      | (full) "length ?bl \<le> length ?H" and "?bl \<noteq> []" by fastforce
    then show ?thesis
    proof cases
      case short
      then have "mul_pows key Q ?H 1 [0..<length Q] = Panic" using lQ by (auto simp: mul_pows_eq)
      then show ?thesis using False short unfolding base
        by (simp add: VerifyProof_def VerifyProof_in_order_def Let_def)
    next
      case empty
      then have "Q = []" using lQ by simp
      then show ?thesis using False empty assms unfolding base
        by (simp add: VerifyProof_def VerifyProof_in_order_def Let_def)
    next
      case full
      then have "length Q \<le> length ?H" "Q \<noteq> []" using lQ by auto
      from VerifyProof_eq [OF this assms(1-3)] show ?thesis
        using False full lQ vQ unfolding base by (auto simp: Let_def)
    qed
  qed
qed

theorem proof_outcome_witness:
  "verifyProof \<lparr>spk_N = Some 33, spk_E = 3\<rparr> sample_proof = Done (result_of sample_proof True)"
  by (subst proof_outcome [where n = 33]) (simp_all add: sample_proof_def SetBytes_def Let_def)

text \<open>
  C9: A round submits the result of every proof, in the order of the proofs, in batches of one to
  forty, each batch at most three times and again only until it is accepted, and gives
  \<open>workLock\<close> back: with a chain that keeps its promises and proofs that are each judged.
\<close>

theorem round_submits_every_result:
  assumes "proof_submitter submit usable" "usable s"
    and "\<forall>p \<in> set proofs. \<exists>r. verifyProof key p = Done r" "proofs \<noteq> []"
  shows "\<exists>s1 bs ks. validate_round (recording submit) key proofs (False, (s, []))
      = Some (Done (False, (s1, concat (map2 replicate ks bs))))
    \<and> map Done (concat bs) = map (verifyProof key) proofs \<and> length ks = length bs
    \<and> (\<forall>b \<in> set bs. 1 \<le> length b \<and> length b \<le> 40) \<and> (\<forall>k \<in> set ks. 1 \<le> k \<and> k \<le> 3)
    \<and> usable s1"
proof -
  define f where "f = (\<lambda>p. case verifyProof key p of Done r \<Rightarrow> r)"
  have f: "\<forall>p \<in> set proofs. verifyProof key p = Done (f p)"
    using assms(3) by (auto simp: f_def)
  then have "map Done (map f proofs) = map (verifyProof key) proofs" by simp
  with proof_submitter.recorded_round [OF assms(1,2) f assms(4)] show ?thesis by metis
qed

theorem round_submits_every_result_witness:
  "\<exists>s1 bs ks. validate_round (recording (chain_submit sample_node)) \<lparr>spk_N = Some 33, spk_E = 3\<rparr>
      [sample_proof] (False, ((sample_client, True), []))
      = Some (Done (False, (s1, concat (map2 replicate ks bs))))
    \<and> map Done (concat bs) = map (verifyProof \<lparr>spk_N = Some 33, spk_E = 3\<rparr>) [sample_proof]"
proof -
  have v: "\<exists>r. verifyProof \<lparr>spk_N = Some 33, spk_E = 3\<rparr> sample_proof = Done r"
    by (simp add: verifyProof_def sample_proof_def PoDR2ChallengeGenerateFromChain_def
        VerifyProof_def VerifyProof_in_order_def goroutine_pow_def big_Exp_def big_Mod_def)
  have u: "cc_api (fst (sample_client, True)) \<noteq> None \<and> snd (sample_client, True)"
    by (simp add: sample_client_def)
  from round_submits_every_result [OF sample.chain.proof_submitter_axioms u,
      of "[sample_proof]" "\<lparr>spk_N = Some 33, spk_E = 3\<rparr>"] v
  have "\<exists>s1 bs ks. validate_round (recording (chain_submit sample_node)) \<lparr>spk_N = Some 33, spk_E = 3\<rparr>
      [sample_proof] (False, ((sample_client, True), []))
      = Some (Done (False, (s1, concat (map2 replicate ks bs))))
    \<and> map Done (concat bs) = map (verifyProof \<lparr>spk_N = Some 33, spk_E = 3\<rparr>) [sample_proof]
    \<and> length ks = length bs
    \<and> (\<forall>b \<in> set bs. 1 \<le> length b \<and> length b \<le> 40) \<and> (\<forall>k \<in> set ks. 1 \<le> k \<and> k \<le> 3)
    \<and> cc_api (fst s1) \<noteq> None \<and> snd s1" by simp
  then show ?thesis by blast
qed

text \<open>
  A proof of an empty challenge stops the node's work for good.  Its verification panics while
  \<open>workLock\<close> is held, which only a normal return releases; the manager starts the task again,
  and its next round with a proof waits for that lock for ever.
\<close>

theorem empty_challenge_keeps_lock:
  assumes "pf_U prf \<noteq> []" "pf_Sigma prf \<noteq> []" "pf_Omega prf \<noteq> []"
    and "ch_Block_list (pf_Challenge_info prf) = []" "ch_Random (pf_Challenge_info prf) = []"
    and "qs \<noteq> []"
  shows "validate_round submit key (prf # ps) (False, s) = Some (PanicIn (True, s))
    \<and> validate_round submit key' qs (True, s') = Some (BlockedIn (True, s'))"
proof -
  obtain p where "big_Exp (SetBytes (pf_U prf)) (int (SetBytes (pf_Mu prf))) (spk_N key) = Some p"
    using big_Exp_Some by blast
  then have "verifyProof key prf = PanicIn (result_of prf False)"
    using assms by (simp add: verifyProof_def PoDR2ChallengeGenerateFromChain_def VerifyProof_def
        VerifyProof_in_order_def)
  then show ?thesis using assms(6)
    by (simp add: validate_round_def Max_SubProofResults_def)
qed

theorem empty_challenge_keeps_lock_witness:
  "validate_round (chain_submit sample_node) \<lparr>spk_N = Some 33, spk_E = 3\<rparr>
     [sample_proof\<lparr>pf_Challenge_info := (pf_Challenge_info sample_proof)\<lparr>ch_Block_list := [], ch_Random := []\<rparr>\<rparr>]
     (False, (sample_client, True)) = Some (PanicIn (True, (sample_client, True)))"
  by (rule empty_challenge_keeps_lock [where qs = "[sample_proof]", THEN conjunct1])
     (simp_all add: sample_proof_def)

text \<open>
  The retry loop counts only attempts that report an error.  A submission that keeps
  reporting neither a hash nor an error, which is what the transaction returns when its
  subscription is closed, is repeated for ever.
\<close>

theorem silent_submission_never_ends:
  assumes "\<And>s. calm s \<Longrightarrow> \<exists>s1. submit ps s = (Ret ([], None), s1) \<and> calm s1"
    and "calm s" "ps \<noteq> []"
  shows "submitProofResult submit ps s = None"
proof -
  have "\<not> calm s" if "submit_loop submit ps t s = Some r" "t < 3" for t :: nat and s r
  proof -
    have "submit = submit \<and> ps = ps \<and> t < 3 \<longrightarrow> \<not> calm s"
    proof (rule submit_loop.raw_induct
        [where P = "\<lambda>sub q t s r. sub = submit \<and> q = ps \<and> t < 3 \<longrightarrow> \<not> calm s", OF _ that(1)])
      fix loop sub q and t :: nat and s r
      assume IH: "\<And>sub q t s r. loop sub q t s = Some r \<Longrightarrow> sub = submit \<and> q = ps \<and> t < 3 \<longrightarrow> \<not> calm s"
        and step: "(case sub q s of (Panic, s1) \<Rightarrow> Some (PanicIn s1)
          | (Ret (txhash, err), s1) \<Rightarrow>
              let tryCount1 = if err \<noteq> None then t + 1 else t
              in if txhash \<noteq> [] then Some (Done s1)
                 else if 3 \<le> tryCount1 then Some (Done s1) else loop sub q tryCount1 s1) = Some r"
      show "sub = submit \<and> q = ps \<and> t < 3 \<longrightarrow> \<not> calm s"
      proof (intro impI notI)
        assume eq: "sub = submit \<and> q = ps \<and> t < 3" and "calm s"
        with assms(1) obtain s1 where "submit ps s = (Ret ([], None), s1)" "calm s1" by blast
        with step IH [of sub q t s1 r] eq show False by (auto simp: Let_def)
      qed
    qed
    with that(2) show ?thesis by simp
  qed
  from this [of 0 s] assms(2,3) show ?thesis
    by (cases "submit_loop submit ps 0 s") (auto simp: submitProofResult_def)
qed

theorem silent_submission_never_ends_witness:
  "submitProofResult (chain_submit (sample_node\<lparr>rpc_Submit := (\<lambda>a x w. (Inr [SubErr None], w))\<rparr>))
     [result_of sample_proof True] (sample_client, True) = None"
proof (rule silent_submission_never_ends [where calm = "\<lambda>s. cc_api (fst s) \<noteq> None \<and> snd s"])
  fix s :: "unit chainClient \<times> bool"
  assume "cc_api (fst s) \<noteq> None \<and> snd s"
  then show "\<exists>s1. chain_submit (sample_node\<lparr>rpc_Submit := (\<lambda>a x w. (Inr [SubErr None], w))\<rparr>)
      [result_of sample_proof True] s = (Ret ([], None), s1) \<and> (cc_api (fst s1) \<noteq> None \<and> snd s1)"
    by (cases s) (auto simp: chain_submit_def SubmitProofResults_def with_connection_def
        IsChainClientOk_def healthchek_def sample_node_def submit_tx_def SetChainState_def)
qed (simp_all add: sample_client_def)

end
