(* ===== verification/MinerCache.thy ===== *)
theory MinerCache
  imports GoJson Cache ChainTypes Ss58
begin

text \<open>
  The miner cache task (node/sub_minerCache.go): the JSON record of a miner, what one round of the
  task does for each miner of the chain, and what the cache then holds.
\<close>

section \<open>The cached record\<close>

definition json_of_miner :: "Cache_MinerInfo \<Rightarrow> json" where
  "json_of_miner m = JObj [(''peerid'', json_uint (unat (cm_Peerid m))), (''ip'', JStr (cm_Ip m)),
     (''free'', json_uint (unat (cm_Free m)))]"

definition marshal_miner :: "Cache_MinerInfo \<Rightarrow> bytes" where
  "marshal_miner m = bytes_of_string (print_json (json_of_miner m))"

text \<open>The record may hold an earlier miner: its fields are overwritten one by one.\<close>

fun miner_member :: "string \<times> json \<Rightarrow> Cache_MinerInfo \<times> go_error option \<Rightarrow> Cache_MinerInfo \<times> go_error option" where
  "miner_member (k, v) st =
     (if same_key k ''peerid'' then set_field (get_uint 64 v) (\<lambda>n m. m\<lparr>cm_Peerid := word_of_nat n\<rparr>) st
      else if same_key k ''ip'' then set_field (get_string v) (\<lambda>s m. m\<lparr>cm_Ip := s\<rparr>) st
      else if same_key k ''free'' then set_field (get_uint 64 v) (\<lambda>n m. m\<lparr>cm_Free := word_of_nat n\<rparr>) st
      else st)"

definition unmarshal_miner :: "bytes \<Rightarrow> Cache_MinerInfo \<Rightarrow> Cache_MinerInfo \<times> go_error option" where
  "unmarshal_miner bs old =
     (case parse_json (string_of_bytes bs) of
        None \<Rightarrow> (old, Some ''json: syntax error'')
      | Some JNull \<Rightarrow> (old, None)
      | Some (JObj ms) \<Rightarrow> fold miner_member ms (old, None)
      | Some _ \<Rightarrow> (old, Some type_error))"

section \<open>One round\<close>

definition miner_ip :: "MinerInfo \<Rightarrow> string" where
  "miner_ip mi = show_ipv4 (ip_Value (mi_Ip mi) ! 0) (ip_Value (mi_Ip mi) ! 1)
     (ip_Value (mi_Ip mi) ! 2) (ip_Value (mi_Ip mi) ! 3)"

definition miner_record :: "MinerInfo \<Rightarrow> Cache_MinerInfo" where
  "miner_record mi = \<lparr>cm_Peerid = mi_PeerId mi,
     cm_Ip = miner_ip mi @ CHR '':'' # show_nat (unat (ip_Port (mi_Ip mi))),
     cm_Free = big_Uint64 (int (SetBytes (big_Bytes (unat (mi_Power mi))))
       - int (SetBytes (big_Bytes (unat (mi_Space mi)))))\<rparr>"

text \<open>
  What the loop does for one miner, given the answer of \<open>GetStorageMinerInfo\<close>.  Errors are only
  logged; the entry under the printed address has no value.
\<close>

definition cache_miner ::
  "(bytes \<Rightarrow> string) \<Rightarrow> (bytes \<Rightarrow> bytes) \<Rightarrow> 'c Cacher \<Rightarrow> AccountID \<times> (go_error + MinerInfo) \<Rightarrow> 'c \<Rightarrow> 'c" where
  "cache_miner b58enc sum512 C entry c =
     (case entry of (acc, answer) \<Rightarrow>
        (case EncodePublicKeyAsCessAccount b58enc sum512 acc of
           Inl err \<Rightarrow> c
         | Inr addr \<Rightarrow>
             (case answer of
                Inl err \<Rightarrow> c
              | Inr minerInfo \<Rightarrow>
                  if string_of_bytes (mi_State minerInfo) \<noteq> MINER_STATE_POSITIVE then
                    (case cHas C c acc of
                       Inr True \<Rightarrow> fst (cDelete C c acc)
                     | _ \<Rightarrow> c)
                  else
                    (case cPut C c acc (marshal_miner (miner_record minerInfo)) of
                       (c1, Some err) \<Rightarrow> c1
                     | (c1, None) \<Rightarrow> fst (cPut C c1 (bytes_of_string (miner_ip minerInfo)) [])))))"

definition cache_round ::
  "(bytes \<Rightarrow> string) \<Rightarrow> (bytes \<Rightarrow> bytes) \<Rightarrow> 'c Cacher \<Rightarrow> (AccountID \<times> (go_error + MinerInfo)) list \<Rightarrow> 'c \<Rightarrow> 'c" where
  "cache_round b58enc sum512 C entries c = fold (cache_miner b58enc sum512 C) entries c"

text \<open>
  The task: one element for each pass of its loop, the answer of \<open>GetChainStatus\<close> and the miners
  with their answers.  No miners, or no chain, and the pass only waits.
\<close>

fun task_MinerCache ::
  "(bytes \<Rightarrow> string) \<Rightarrow> (bytes \<Rightarrow> bytes) \<Rightarrow> 'c Cacher
   \<Rightarrow> (bool \<times> (AccountID \<times> (go_error + MinerInfo)) list) list \<Rightarrow> 'c \<Rightarrow> 'c" where
  "task_MinerCache b58enc sum512 C [] c = c"
| "task_MinerCache b58enc sum512 C ((status, entries) # passes) c =
     task_MinerCache b58enc sum512 C passes
       (if status \<and> entries \<noteq> [] then cache_round b58enc sum512 C entries c else c)"

section \<open>Lemmas\<close>

lemma miner_keys [simp]:
  "\<not> same_key ''ip'' ''peerid''" "\<not> same_key ''free'' ''peerid''" "\<not> same_key ''free'' ''ip''"
  by (simp_all add: same_key_def)

lemma unmarshal_marshal [simp]: "unmarshal_miner (marshal_miner m) old = (m, None)"
proof -
  have "json_ok (json_of_miner m)" by (simp add: json_of_miner_def)
  then have "parse_json (print_json (json_of_miner m)) = Some (json_of_miner m)" by simp
  then show ?thesis
    by (simp add: unmarshal_miner_def marshal_miner_def json_of_miner_def get_string_def
        del: print_json.simps parse_value.simps)
qed

lemma length_show_byte: "length (show_nat (unat (b :: byte))) \<le> 3"
  by (rule length_show_nat) (use unat_byte_lt [of b] in \<open>simp_all del: unat_byte_lt\<close>)

lemma length_show_ipv4: "length (show_ipv4 a b c d) \<le> 15"
  using length_show_byte [of a] length_show_byte [of b] length_show_byte [of c] length_show_byte [of d]
  by (simp add: show_ipv4_def)

text \<open>An account has 32 bytes and a printed address at most 15: their entries do not meet.\<close>

lemma account_not_ip:
  assumes "length acc = 32"
  shows "acc \<noteq> bytes_of_string (miner_ip mi)" "bytes_of_string (miner_ip mi) \<noteq> acc"
proof -
  have "length (bytes_of_string (miner_ip mi)) < 32"
    using length_show_ipv4 [of "ip_Value (mi_Ip mi) ! 0" "ip_Value (mi_Ip mi) ! 1"
      "ip_Value (mi_Ip mi) ! 2" "ip_Value (mi_Ip mi) ! 3"]
    by (simp add: miner_ip_def)
  with assms show "acc \<noteq> bytes_of_string (miner_ip mi)" "bytes_of_string (miner_ip mi) \<noteq> acc" by auto
qed

definition positive :: "MinerInfo \<Rightarrow> bool" where
  "positive mi = (string_of_bytes (mi_State mi) = MINER_STATE_POSITIVE)"

text \<open>What a round leaves under an account.\<close>

fun entry_after :: "go_error + MinerInfo \<Rightarrow> bytes option \<Rightarrow> bytes option" where
  "entry_after (Inl e) old = old"
| "entry_after (Inr mi) old = (if positive mi then Some (marshal_miner (miner_record mi)) else None)"

text \<open>A cache whose writes do not fail while it is open.\<close>

locale reliable_cacher = cacher C contents is_open
  for C :: "'c Cacher" and contents :: "'c \<Rightarrow> bytes \<Rightarrow> bytes option" and is_open :: "'c \<Rightarrow> bool" +
  assumes put_ok: "is_open c \<Longrightarrow> snd (cPut C c k v) = None"
    and delete_ok: "is_open c \<Longrightarrow> snd (cDelete C c k) = None"
begin

lemma put_effect:
  assumes "is_open c"
  shows "\<exists>c1. cPut C c k v = (c1, None) \<and> is_open c1 \<and> contents c1 = (contents c)(k \<mapsto> v)"
  using put_ok [OF assms, of k v] put_open [OF assms, of k v] put_success [OF assms, of k v]
  by (cases "cPut C c k v") auto

lemma delete_effect:
  assumes "is_open c"
  shows "\<exists>c1. cDelete C c k = (c1, None) \<and> is_open c1 \<and> contents c1 = (contents c)(k := None)"
  using delete_ok [OF assms, of k] delete_open [OF assms, of k] delete_success [OF assms, of k]
  by (cases "cDelete C c k") auto

lemma cache_miner_effect:
  assumes "is_open c" "EncodePublicKeyAsCessAccount b58enc sum512 acc = Inr addr" "length acc = 32"
  shows "is_open (cache_miner b58enc sum512 C (acc, ans) c)
    \<and> (\<forall>a. length a = 32 \<longrightarrow> contents (cache_miner b58enc sum512 C (acc, ans) c) a
        = (if a = acc then entry_after ans (contents c a) else contents c a))"
proof (cases ans)
  case (Inl e)
  then show ?thesis using assms by (simp add: cache_miner_def)
next
  case (Inr mi)
  show ?thesis
  proof (cases "positive mi")
    case True
    obtain c1 where c1: "cPut C c acc (marshal_miner (miner_record mi)) = (c1, None)" "is_open c1"
      "contents c1 = (contents c)(acc \<mapsto> marshal_miner (miner_record mi))"
      using put_effect [OF assms(1)] by blast
    obtain c2 where c2: "cPut C c1 (bytes_of_string (miner_ip mi)) [] = (c2, None)" "is_open c2"
      "contents c2 = (contents c1)(bytes_of_string (miner_ip mi) \<mapsto> [])"
      using put_effect [OF c1(2)] by blast
    have "cache_miner b58enc sum512 C (acc, ans) c = c2"
      using Inr True assms(2) c1(1) c2(1) by (simp add: cache_miner_def positive_def)
    then show ?thesis
      using c2 c1(3) Inr True account_not_ip(1) by auto
  next
    case False
    show ?thesis
    proof (cases "contents c acc")
      case None
      then have "cache_miner b58enc sum512 C (acc, ans) c = c"
        using Inr False assms by (simp add: cache_miner_def positive_def has_contents)
      then show ?thesis using Inr False assms(1) None by simp
    next
      case (Some v)
      obtain c1 where c1: "cDelete C c acc = (c1, None)" "is_open c1" "contents c1 = (contents c)(acc := None)"
        using delete_effect [OF assms(1)] by blast
      have "cache_miner b58enc sum512 C (acc, ans) c = c1"
        using Inr False assms c1(1) Some by (simp add: cache_miner_def positive_def has_contents)
      then show ?thesis using Inr False c1 by simp
    qed
  qed
qed

lemma cache_round_effect:
  assumes "is_open c" "distinct (map fst entries)"
    and "\<forall>e \<in> set entries. length (fst e) = 32 \<and> (\<exists>addr. EncodePublicKeyAsCessAccount b58enc sum512 (fst e) = Inr addr)"
  shows "is_open (cache_round b58enc sum512 C entries c)
    \<and> (\<forall>a. length a = 32 \<longrightarrow> contents (cache_round b58enc sum512 C entries c) a
        = (case map_of entries a of None \<Rightarrow> contents c a | Some ans \<Rightarrow> entry_after ans (contents c a)))"
  using assms
proof (induction entries arbitrary: c)
  case Nil
  then show ?case by (simp add: cache_round_def)
next
  case (Cons e es)
  obtain acc ans where e: "e = (acc, ans)" by (cases e)
  obtain addr where addr: "EncodePublicKeyAsCessAccount b58enc sum512 acc = Inr addr" "length acc = 32"
    using Cons.prems(3) e by auto
  let ?c1 = "cache_miner b58enc sum512 C e c"
  note one = cache_miner_effect [OF Cons.prems(1) addr, of ans, folded e]
  have nin: "map_of es acc = None" using Cons.prems(2) e by (simp add: map_of_eq_None_iff)
  have "cache_round b58enc sum512 C (e # es) c = cache_round b58enc sum512 C es ?c1"
    by (simp add: cache_round_def)
  moreover have "is_open (cache_round b58enc sum512 C es ?c1)
    \<and> (\<forall>a. length a = 32 \<longrightarrow> contents (cache_round b58enc sum512 C es ?c1) a
        = (case map_of es a of None \<Rightarrow> contents ?c1 a | Some ans \<Rightarrow> entry_after ans (contents ?c1 a)))"
    by (rule Cons.IH) (use one Cons.prems in auto)
  ultimately show ?case using one nin e by (auto split: option.splits)
qed

end

interpretation mem_reliable: reliable_cacher mem_cache "\<lambda>d. map_of (fst (db d))" "\<lambda>d. snd (db d)"
  by unfold_locales (auto simp: LevelDB_defs mem_leveldb_def split: prod.splits)

section \<open>Properties\<close>

definition sample_miner :: MinerInfo where
  "sample_miner = \<lparr>mi_PeerId = 9, mi_IncomeAcc = replicate 32 0,
     mi_Ip = \<lparr>ip_Index = 0, ip_Value = [10, 0, 0, 7], ip_Port = 15001\<rparr>, mi_Collaterals = 0,
     mi_State = bytes_of_string MINER_STATE_POSITIVE, mi_Power = 100, mi_Space = 40,
     mi_RewardInfo = \<lparr>rw_Total = 0, rw_Received = 0, rw_NotReceived = 0\<rparr>\<rparr>"

text \<open>
  After a round over the miners of the chain the cache holds, under each account whose
  details were read, the JSON record of the miner when it is positive and nothing when it is not;
  every other account's entry is as it was, and decoding a stored record gives the miner's record
  back whatever the decoder's variable held before.
\<close>

theorem cache_follows_chain:
  assumes "reliable_cacher C contents is_open" "is_open c" "distinct (map fst entries)"
    and "\<forall>e \<in> set entries. length (fst e) = 32
      \<and> (\<exists>addr. EncodePublicKeyAsCessAccount b58enc sum512 (fst e) = Inr addr)"
    and "length acc = 32"
  shows "contents (cache_round b58enc sum512 C entries c) acc =
      (case map_of entries acc of
         None \<Rightarrow> contents c acc
       | Some (Inl e) \<Rightarrow> contents c acc
       | Some (Inr mi) \<Rightarrow>
           if string_of_bytes (mi_State mi) = MINER_STATE_POSITIVE
           then Some (marshal_miner (miner_record mi)) else None)
    \<and> unmarshal_miner (marshal_miner (miner_record mi)) old = (miner_record mi, None)"
  using reliable_cacher.cache_round_effect [OF assms(1-4)] assms(5)
  by (auto simp: positive_def split: option.splits sum.splits)

theorem cache_follows_chain_witness:
  "map_of (fst (db (cache_round string_of_bytes (\<lambda>_. replicate 64 0) mem_cache
       [(replicate 32 1, Inr sample_miner)] (mem_db [])))) (replicate 32 1)
     = Some (marshal_miner (miner_record sample_miner))"
proof -
  have "EncodePublicKeyAsCessAccount string_of_bytes (\<lambda>_. replicate 64 0) (replicate 32 1)
      = Inr (string_of_bytes (CessPrefix @ replicate 32 1 @ take 2 (replicate 64 0)))"
    unfolding EncodePublicKeyAsCessAccount_def using encode_ok [OF sample_deps] by simp
  then show ?thesis
    using cache_follows_chain [OF mem_reliable.reliable_cacher_axioms, of "mem_db []"
        "[(replicate 32 1, Inr sample_miner)]" string_of_bytes "\<lambda>_. replicate 64 0" "replicate 32 1"]
    by (simp add: sample_miner_def)
qed

text \<open>
  The free space of a cached miner is its power less its used space when the difference is not
  negative and fits in 64 bits; but a miner that uses more than its power is cached with the
  excess as free space, since \<open>Uint64\<close> of a negative integer reads its absolute value.
\<close>

theorem free_space_is_absolute:
  assumes "\<bar>int (unat (mi_Power mi)) - int (unat (mi_Space mi))\<bar> < 2 ^ 64"
  shows "int (unat (cm_Free (miner_record mi)))
    = (if mi_Space mi \<le> mi_Power mi then int (unat (mi_Power mi)) - int (unat (mi_Space mi))
       else int (unat (mi_Space mi)) - int (unat (mi_Power mi)))"
proof -
  have "int (unat (word_of_int \<bar>x\<bar> :: u64)) = \<bar>x\<bar>" if "\<bar>x\<bar> < 2 ^ 64" for x :: int
    using that by (simp add: unsigned_of_int take_bit_int_eq_self)
  from this [OF assms] show ?thesis
    by (simp add: miner_record_def big_Uint64_def word_le_def)
qed

theorem free_space_is_absolute_witness:
  "int (unat (cm_Free (miner_record (sample_miner\<lparr>mi_Space := 130\<rparr>)))) = 30"
  by (subst free_space_is_absolute) (simp_all add: sample_miner_def)

end
