(* ===== verification/Backup.thy ===== *)
theory Backup
  imports MinerCache VerifyTask NodeMsg Utils GoFiles
begin

text \<open>
  The backup of a received file to the miners (node/handler.go, from FileBackupManagement on):
  block sizes, the choice of a miner for a chunk, the loop over the chunks and the submission of
  the file's meta information.
\<close>

section \<open>Sizes and fillers\<close>

definition MaxUint32 :: int where "MaxUint32 = 4294967295"

text \<open>Sizes are \<open>int64\<close>; those of files are not negative.\<close>

definition CalcFileBlockSizeAndScanSize :: "int \<Rightarrow> int \<times> int" where
  "CalcFileBlockSizeAndScanSize fsize =
     (if fsize < int SIZE_1KiB then (fsize, fsize)
      else if fsize > MaxUint32 then
        (let blockSize = MaxUint32; scanBlockSize = go_quot blockSize 8 in (blockSize, scanBlockSize))
      else
        (let blockSize = go_quot fsize 16; scanBlockSize = go_quot blockSize 8 in (blockSize, scanBlockSize)))"

definition combineFillerMeta :: "string \<Rightarrow> bytes \<Rightarrow> FillerMetaInfo outcome" where
  "combineFillerMeta fileHash pubkey =
     (if length fileHash < 64 then Panic
      else case NewAccountID pubkey of
             Inl err \<Rightarrow> Panic
           | Inr acc \<Rightarrow>
               let blocknum = FillerSize div BlockSize;
                   blocknum1 = (if blocknum = 0 then 1 else blocknum) in
               Ret \<lparr>fi_Size = word_of_nat FillerSize, fi_Index = 0, fi_BlockNum = word_of_nat blocknum1,
                    fi_BlockSize = word_of_nat BlockSize, fi_ScanSize = 0, fi_Acc = acc,
                    fi_Hash = bytes_of_string (take 64 fileHash)\<rparr>)"

section \<open>One chunk\<close>

text \<open>The address of the block information is read back from the text of the cache.\<close>

definition miner_address :: "string \<Rightarrow> Ipv4Type outcome" where
  "miner_address ip =
     (let ip_port = split_char CHR '':'' ip in
      if length ip_port < 2 then Panic
      else
        let port = word_of_int (fst (Atoi (ip_port ! 1))) in
        if IsIPv4 (ip_port ! 0) then
          (case ipv4_octets (ip_port ! 0) of
             Panic \<Rightarrow> Panic
           | Ret octets \<Rightarrow> Ret \<lparr>ip_Index = 0, ip_Value = octets, ip_Port = port\<rparr>)
        else Ret \<lparr>ip_Index = 0, ip_Value = replicate 4 0, ip_Port = port\<rparr>)"

text \<open>
  What the network answers for one miner: dialing fails, gives a connection that is not TCP, or
  one over which \<open>SendFile\<close> returns.
\<close>

datatype dialed = DialErr go_error | NotTcp | Sent "go_error option"

record backup_io =
  bo_stat :: "go_error + nat"
  bo_tagStat :: "go_error option"
  bo_requestTag :: "go_error option outcome"
  bo_miners :: "(go_error + AccountID list) outcome list"
  bo_rnd :: "nat \<Rightarrow> nat"
  bo_sign :: "go_error option outcome"
  bo_resolve :: "string \<Rightarrow> go_error option"
  bo_dial :: "AccountID \<Rightarrow> dialed"

text \<open>
  The scan over the shuffled miners: the decoder's variable \<open>minerinfo\<close> and the name, which
  may get its suffix, live across the rounds.  A dialing error closes a nil connection, which
  panics.
\<close>

fun try_miners ::
  "'c Cacher \<Rightarrow> backup_io \<Rightarrow> nat \<Rightarrow> int \<Rightarrow> AccountID list \<Rightarrow> string \<Rightarrow> Cache_MinerInfo \<Rightarrow> 'c
   \<Rightarrow> BlockInfo outcome \<times> 'c" where
  "try_miners C io fsize blocknum [] fname minerinfo c = (Ret zero_BlockInfo, c)"
| "try_miners C io fsize blocknum (acc # accs) fname minerinfo c =
     (case cGet C c acc of
        Inl err \<Rightarrow> try_miners C io fsize blocknum accs fname minerinfo c
      | Inr minercache \<Rightarrow>
          (case unmarshal_miner minercache minerinfo of
             (mi, Some err) \<Rightarrow> try_miners C io fsize blocknum accs fname mi (fst (cDelete C c acc))
           | (mi, None) \<Rightarrow>
               if cm_Free mi < word_of_nat fsize then try_miners C io fsize blocknum accs fname mi c
               else if bo_resolve io (cm_Ip mi) \<noteq> None then
                 try_miners C io fsize blocknum accs fname mi c
               else
                 (case bo_dial io acc of
                    DialErr err \<Rightarrow> (Panic, c)
                  | NotTcp \<Rightarrow> try_miners C io fsize blocknum accs fname mi c
                  | Sent (Some err) \<Rightarrow> try_miners C io fsize blocknum accs fname mi c
                  | Sent None \<Rightarrow>
                      let fname1 = (if length fname < len_FileBlockId then fname @ ''.000'' else fname) in
                      if length fname1 \<noteq> len_FileBlockId then
                        try_miners C io fsize blocknum accs fname1 mi c
                      else
                        (case miner_address (cm_Ip mi) of
                           Panic \<Rightarrow> (Panic, c)
                         | Ret ipType \<Rightarrow>
                             (Ret \<lparr>bi_MinerId = cm_Peerid mi, bi_BlockSize = word_of_nat fsize,
                                   bi_BlockNum = word_of_int blocknum, bi_BlockId = bytes_of_string fname1,
                                   bi_MinerIp = ipType, bi_MinerAcc = acc\<rparr>, c)))))"

text \<open>The query for the miners is repeated until it answers; \<open>None\<close> is still waiting.\<close>

fun await_miners :: "(go_error + AccountID list) outcome list \<Rightarrow> AccountID list outcome option" where
  "await_miners [] = None"
| "await_miners (Panic # as) = Some Panic"
| "await_miners (Ret (Inl err) # as) = await_miners as"
| "await_miners (Ret (Inr accs) # as) = Some (Ret accs)"

definition empty_miner :: Cache_MinerInfo where
  "empty_miner = \<lparr>cm_Peerid = 0, cm_Ip = [], cm_Free = 0\<rparr>"

text \<open>
  \<open>backupFile\<close>: a panic is recovered, and the results are then the zero block and the nil error.
\<close>

definition backupFile ::
  "'c Cacher \<Rightarrow> backup_io \<Rightarrow> string \<Rightarrow> 'c \<Rightarrow> (BlockInfo \<times> go_error option) option \<times> 'c" where
  "backupFile C io fpath c =
     (let fname = filepath_Base fpath; recovered = Some (zero_BlockInfo, None) in
      case bo_stat io of
        Inl err \<Rightarrow> (Some (zero_BlockInfo, Some err), c)
      | Inr fsize \<Rightarrow>
          let blocksize = fst (CalcFileBlockSizeAndScanSize (int fsize)) in
          if blocksize = 0 then (recovered, c)
          else
            let blocknum = go_quot (int fsize) blocksize in
            (case (if bo_tagStat io \<noteq> None then bo_requestTag io else Ret None) of
               Panic \<Rightarrow> (recovered, c)
             | Ret (Some err) \<Rightarrow> (Some (zero_BlockInfo, Some err), c)
             | Ret None \<Rightarrow>
                 (case await_miners (bo_miners io) of
                    None \<Rightarrow> (None, c)
                  | Some Panic \<Rightarrow> (recovered, c)
                  | Some (Ret allMinerPubkey) \<Rightarrow>
                      (case bo_sign io of
                         Panic \<Rightarrow> (recovered, c)
                       | Ret (Some err) \<Rightarrow> (Some (zero_BlockInfo, Some err), c)
                       | Ret None \<Rightarrow>
                           (case try_miners C io fsize blocknum (RandSlice (bo_rnd io) allMinerPubkey)
                                   fname empty_miner c of
                              (Panic, c1) \<Rightarrow> (recovered, c1)
                            | (Ret rtnValue, c1) \<Rightarrow>
                                if bi_MinerId rtnValue = 0 then (Some (rtnValue, Some ''failed''), c1)
                                else (Some (rtnValue, None), c1))))))"

section \<open>The file\<close>

record FileStoreInfo =
  st_FileId :: string
  st_FileState :: string
  st_Scheduler :: string
  st_FileSize :: int
  st_IsUpload :: bool
  st_IsCheck :: bool
  st_IsShard :: bool
  st_IsScheduler :: bool
  st_Miners :: "(nat \<times> string) list"

text \<open>A map with integer keys is printed in the order of the keys' text, and omitted when empty.\<close>

definition json_of_store :: "FileStoreInfo \<Rightarrow> json" where
  "json_of_store f = JObj
     ([(''file_id'', JStr (st_FileId f)), (''file_state'', JStr (st_FileState f)),
       (''scheduler'', JStr (st_Scheduler f)), (''file_size'', json_int (st_FileSize f)),
       (''is_upload'', JBool (st_IsUpload f)), (''is_check'', JBool (st_IsCheck f)),
       (''is_shard'', JBool (st_IsShard f)), (''is_scheduler'', JBool (st_IsScheduler f))]
      @ (if st_Miners f = [] then []
         else [(''miners'', JObj (map (\<lambda>(k, v). (k, JStr v))
                (sort_key fst (map (\<lambda>(i, v). (show_nat i, v)) (st_Miners f)))))]))"

definition marshal_store :: "FileStoreInfo \<Rightarrow> bytes" where
  "marshal_store f = bytes_of_string (print_json (json_of_store f))"

definition save_store :: "'c Cacher \<Rightarrow> string \<Rightarrow> FileStoreInfo \<Rightarrow> 'c \<Rightarrow> 'c" where
  "save_store C fid f c = fst (cPut C c (bytes_of_string fid) (marshal_store f))"

text \<open>
  One chunk is tried until it is placed, with a fresh environment for every attempt; \<open>None\<close> is
  still trying.
\<close>

fun place_chunk ::
  "'c Cacher \<Rightarrow> string \<Rightarrow> backup_io list \<Rightarrow> 'c \<Rightarrow> (BlockInfo \<times> backup_io list) option \<times> 'c" where
  "place_chunk C fpath [] c = (None, c)"
| "place_chunk C fpath (io # ios) c =
     (case backupFile C io fpath c of
        (None, c1) \<Rightarrow> (None, c1)
      | (Some (b, Some err), c1) \<Rightarrow> place_chunk C fpath ios c1
      | (Some (b, None), c1) \<Rightarrow>
          if bi_MinerId b = 0 \<or> bi_BlockSize b = 0 then place_chunk C fpath ios c1
          else (Some (b, ios), c1))"

fun place_chunks ::
  "(bytes \<Rightarrow> string) \<Rightarrow> (bytes \<Rightarrow> bytes) \<Rightarrow> 'c Cacher \<Rightarrow> string \<Rightarrow> nat \<Rightarrow> string list
   \<Rightarrow> FileStoreInfo \<Rightarrow> backup_io list \<Rightarrow> 'c \<Rightarrow> (BlockInfo list \<times> FileStoreInfo) option \<times> 'c" where
  "place_chunks b58enc sum512 C fid i [] f ios c = (Some ([], f), c)"
| "place_chunks b58enc sum512 C fid i (chunk # chunks) f ios c =
     (case place_chunk C chunk ios c of
        (None, c1) \<Rightarrow> (None, c1)
      | (Some (b, ios1), c1) \<Rightarrow>
          let acc = (case EncodePublicKeyAsCessAccount b58enc sum512 (bi_MinerAcc b) of
                       Inl err \<Rightarrow> [] | Inr a \<Rightarrow> a);
              f1 = f\<lparr>st_Miners := st_Miners f @ [(i, acc)]\<rparr>;
              c2 = save_store C fid f1 c1 in
          (case place_chunks b58enc sum512 C fid (i + 1) chunks f1 ios1 c2 of
             (None, c3) \<Rightarrow> (None, c3)
           | (Some (bs, f2), c3) \<Rightarrow> (Some (b # bs, f2), c3)))"

text \<open>
  \<open>GetFileState\<close> over the state \<open>'s\<close> of the chain: \<open>meta\<close> is one \<open>GetFileMetaInfo\<close> of the file, of which
  the state is read.
\<close>

function file_state ::
  "('s \<Rightarrow> (go_error + string) outcome \<times> 's) \<Rightarrow> nat \<Rightarrow> 's \<Rightarrow> (go_error + string) outcome \<times> 's" where
  "file_state meta try_count s =
     (if try_count \<le> 3 then
        (case meta s of
           (Panic, s1) \<Rightarrow> (Panic, s1)
         | (Ret (Inl err), s1) \<Rightarrow>
             if try_count + 1 \<ge> 3 then (Ret (Inl err), s1) else file_state meta (try_count + 1) s1
         | (Ret (Inr st), s1) \<Rightarrow> (Ret (Inr st), s1))
      else (Ret (Inl ''GetFileMetaInfo failed''), s))"
  by pat_completeness auto
termination
  by (relation "measure (\<lambda>(f, t, s). 4 - t)") auto

declare file_state.simps [simp del]

text \<open>
  The submission loop: \<open>submit\<close> is \<open>SubmitFileMeta\<close> of the file.
\<close>

datatype submission = Stored | GaveUp | SubmitPanic

function submit_meta ::
  "('s \<Rightarrow> (string \<times> go_error option) outcome \<times> 's) \<Rightarrow> ('s \<Rightarrow> (go_error + string) outcome \<times> 's)
   \<Rightarrow> nat \<Rightarrow> 's \<Rightarrow> submission \<times> 's" where
  "submit_meta submit meta tryCount s =
     (case submit s of
        (Panic, s1) \<Rightarrow> (SubmitPanic, s1)
      | (Ret (txhash, None), s1) \<Rightarrow> (Stored, s1)
      | (Ret (txhash, Some err), s1) \<Rightarrow>
          if tryCount + 1 > 3 then (GaveUp, s1)
          else
            (case file_state meta 0 s1 of
               (Panic, s2) \<Rightarrow> (SubmitPanic, s2)
             | (Ret (Inr fileState), s2) \<Rightarrow>
                 if fileState = FILE_STATE_ACTIVE then (Stored, s2)
                 else submit_meta submit meta (tryCount + 1) s2
             | (Ret (Inl err), s2) \<Rightarrow> submit_meta submit meta (tryCount + 1) s2))"
  by pat_completeness auto
termination
  by (relation "measure (\<lambda>(f, m, t, s). 4 - t)") auto

declare submit_meta.simps [simp del]

datatype backup_end = NotFound | StillPlacing | Ended submission

definition first_store :: "string \<Rightarrow> int \<Rightarrow> string \<Rightarrow> FileStoreInfo" where
  "first_store fid fsize sched = \<lparr>st_FileId = fid, st_FileState = FILE_STATE_PENDING,
     st_Scheduler = sched, st_FileSize = fsize, st_IsUpload = True, st_IsCheck = True,
     st_IsShard = True, st_IsScheduler = True, st_Miners = []\<rparr>"

text \<open>
  \<open>sched\<close> is the node's own address and port; \<open>submit\<close> is \<open>SubmitFileMeta\<close> on the chain, given the
  file, its size and the blocks, and \<open>meta\<close> is \<open>GetFileMetaInfo\<close> of the file.
\<close>

definition FileBackupManagement ::
  "(bytes \<Rightarrow> string) \<Rightarrow> (bytes \<Rightarrow> bytes) \<Rightarrow> 'c Cacher
   \<Rightarrow> (string \<Rightarrow> u64 \<Rightarrow> BlockInfo list \<Rightarrow> 's \<Rightarrow> (string \<times> go_error option) outcome \<times> 's)
   \<Rightarrow> ('s \<Rightarrow> (go_error + string) outcome \<times> 's) \<Rightarrow> string \<Rightarrow> backup_io list
   \<Rightarrow> string \<Rightarrow> int \<Rightarrow> string list \<Rightarrow> 'c \<times> 's \<Rightarrow> backup_end \<times> 'c \<times> 's" where
  "FileBackupManagement b58enc sum512 C submit meta sched ios fid fsize chunks st =
     (case st of (c, s) \<Rightarrow>
       let f0 = first_store fid fsize sched in
       if length chunks \<le> 0 then (NotFound, save_store C fid (f0\<lparr>st_IsScheduler := False\<rparr>) c, s)
       else
         (case place_chunks b58enc sum512 C fid 0 chunks f0 ios (save_store C fid f0 c) of
            (None, c1) \<Rightarrow> (StillPlacing, c1, s)
          | (Some (chunksInfo, f1), c1) \<Rightarrow>
              (case submit_meta (submit fid (word_of_int fsize) chunksInfo) meta 0 s of
                 (SubmitPanic, s1) \<Rightarrow> (Ended SubmitPanic, c1, s1)
               | (GaveUp, s1) \<Rightarrow> (Ended GaveUp, save_store C fid (f1\<lparr>st_FileState := ERR_Failed\<rparr>) c1, s1)
               | (Stored, s1) \<Rightarrow>
                   (Ended Stored, save_store C fid (f1\<lparr>st_FileState := FILE_STATE_ACTIVE\<rparr>) c1, s1))))"

section \<open>The queries of a file's state\<close>

lemma file_state_answers: "fst (file_state (\<lambda>i. (Ret (attempt i), i + 1)) 0 0) = Ret (GetFileState attempt)"
proof -
  have "t \<le> 3 \<Longrightarrow> fst (file_state (\<lambda>i. (Ret (attempt i), i + 1)) t t) = Ret (GetFileState_loop attempt t)" for t
  proof (induction "4 - t" arbitrary: t)
    case (Suc d)
    then have d: "d = 4 - (t + 1)" by simp
    show ?case
      using Suc.hyps(1) [OF d] Suc.prems
      by (subst file_state.simps, subst GetFileState_loop.simps) (auto split: sum.split)
  qed simp
  from this [of 0] show ?thesis by (simp add: GetFileState_def)
qed

lemma file_state_cases:
  assumes "file_state meta t s = (r, s')" "t \<le> 3"
  shows "r = Ret (Inr st) \<Longrightarrow> \<exists>s0. meta s0 = (Ret (Inr st), s')"
    and "(\<And>s0. P s0 \<Longrightarrow> P (snd (meta s0))) \<Longrightarrow> P s \<Longrightarrow> P s'"
proof -
  obtain q s1 where q: "meta s = (q, s1)" by fastforce
  have both: "(r = Ret (Inr st) \<longrightarrow> (\<exists>s0. meta s0 = (Ret (Inr st), s')))
      \<and> ((\<forall>s0. P s0 \<longrightarrow> P (snd (meta s0))) \<longrightarrow> P s \<longrightarrow> P s')"
    using assms
  proof (induction "4 - t" arbitrary: t s)
    case (Suc d)
    obtain q s1 where q: "meta s = (q, s1)" by fastforce
    have d: "d = 4 - (t + 1)" using Suc.hyps(2) by simp
    consider (last) "(r, s') = (q, s1)" | (again) "t + 1 < 3" "file_state meta (t + 1) s1 = (r, s')"
      using Suc.prems q by (subst (asm) file_state.simps) (auto split: outcome.splits sum.splits if_splits)
    then show ?case
    proof cases
      case last
      then show ?thesis using q by (metis prod.inject snd_conv)
    next
      case again
      have "t + 1 \<le> 3" using again(1) by simp
      from Suc.hyps(1) [OF d again(2) this] q show ?thesis by (metis snd_conv)
    qed
  qed simp
  then show "r = Ret (Inr st) \<Longrightarrow> \<exists>s0. meta s0 = (Ret (Inr st), s')"
    and "(\<And>s0. P s0 \<Longrightarrow> P (snd (meta s0))) \<Longrightarrow> P s \<Longrightarrow> P s'" by blast+
qed

end
