(* ===== verification/BackupProps.thy ===== *)
theory BackupProps
  imports Backup
begin

text \<open>
  What a backup achieves: the block counts, the block information of a placed chunk, the attempts
  that never place one, the submissions, and the record left in the cache.
\<close>

section \<open>Lemmas\<close>

definition describes ::
  "'c Cacher \<Rightarrow> backup_io \<Rightarrow> nat \<Rightarrow> int \<Rightarrow> AccountID list \<Rightarrow> string \<Rightarrow> BlockInfo \<Rightarrow> bool" where
  "describes C io fsize blocknum accs fname b \<longleftrightarrow>
     bi_MinerAcc b \<in> set accs \<and> bo_dial io (bi_MinerAcc b) = Sent None
     \<and> bi_BlockSize b = word_of_nat fsize \<and> bi_BlockNum b = word_of_int blocknum
     \<and> length (bi_BlockId b) = len_FileBlockId
     \<and> (\<exists>k. bi_BlockId b = bytes_of_string (fname @ concat (replicate k ''.000'')))
     \<and> (\<exists>c0 v old mi. cGet C c0 (bi_MinerAcc b) = Inr v \<and> unmarshal_miner v old = (mi, None)
          \<and> word_of_nat fsize \<le> cm_Free mi \<and> bi_MinerId b = cm_Peerid mi
          \<and> miner_address (cm_Ip mi) = Ret (bi_MinerIp b))"

lemma describes_Cons: "describes C io n bn accs f b \<Longrightarrow> describes C io n bn (a # accs) f b"
  by (auto simp: describes_def)

lemma describes_suffix:
  assumes "describes C io n bn accs (f @ ''.000'') b"
  shows "describes C io n bn accs f b"
proof -
  have "\<exists>k. bi_BlockId b = bytes_of_string ((f @ ''.000'') @ concat (replicate k ''.000''))"
    using assms by (simp add: describes_def)
  then have "\<exists>k. bi_BlockId b = bytes_of_string (f @ concat (replicate k ''.000''))"
    by (metis append.assoc concat.simps(2) replicate_Suc)
  with assms show ?thesis by (simp add: describes_def)
qed

lemma try_miners_describes:
  assumes "try_miners C io n bn accs fname m0 c = (Ret b, c')" "bi_MinerId b \<noteq> 0"
  shows "describes C io n bn accs fname b"
  using assms
proof (induction accs arbitrary: fname m0 c)
  case Nil
  then show ?case by (auto simp: zero_BlockInfo_def)
next
  case (Cons acc accs)
  note step = Cons.prems(1)
  show ?case
  proof (cases "cGet C c acc")
    case (Inl e)
    with step Cons.IH [OF _ Cons.prems(2)] show ?thesis by (auto intro: describes_Cons)
  next
    case (Inr v)
    obtain mi r where un: "unmarshal_miner v m0 = (mi, r)" by fastforce
    have next_: "describes C io n bn (acc # accs) fname b"
      if "try_miners C io n bn accs fname mi c0 = (Ret b, c')" for c0
      using Cons.IH [OF that Cons.prems(2)] by (rule describes_Cons)
    show ?thesis
    proof (cases "r \<noteq> None \<or> cm_Free mi < word_of_nat n \<or> bo_resolve io (cm_Ip mi) \<noteq> None")
      case True
      with step Inr un next_ show ?thesis by (cases r) (auto split: if_splits)
    next
      case False
      show ?thesis
      proof (cases "bo_dial io acc")
        case (DialErr e)
        with step Inr un False show ?thesis by simp
      next
        case NotTcp
        with step Inr un False next_ show ?thesis by simp
      next
        case (Sent w)
        show ?thesis
        proof (cases w)
          case (Some e)
          with step Inr un False next_ Sent show ?thesis by simp
        next
          case None
          define f1 where "f1 = (if length fname < len_FileBlockId then fname @ ''.000'' else fname)"
          have step1: "(if length f1 \<noteq> len_FileBlockId then try_miners C io n bn accs f1 mi c
              else (case miner_address (cm_Ip mi) of Panic \<Rightarrow> (Panic, c)
                | Ret ip \<Rightarrow> (Ret \<lparr>bi_MinerId = cm_Peerid mi, bi_BlockSize = word_of_nat n,
                     bi_BlockNum = word_of_int bn, bi_BlockId = bytes_of_string f1,
                     bi_MinerIp = ip, bi_MinerAcc = acc\<rparr>, c))) = (Ret b, c')"
            using step Inr un False Sent None unfolding f1_def by (simp add: Let_def split del: if_split)
          have d1: "describes C io n bn (acc # accs) f1 b"
          proof (cases "length f1 = len_FileBlockId")
            case False
            with step1 Cons.IH [OF _ Cons.prems(2)] show ?thesis by (auto intro: describes_Cons)
          next
            case True
            with step1 obtain ip where ip: "miner_address (cm_Ip mi) = Ret ip"
              and b: "b = \<lparr>bi_MinerId = cm_Peerid mi, bi_BlockSize = word_of_nat n,
                     bi_BlockNum = word_of_int bn, bi_BlockId = bytes_of_string f1,
                     bi_MinerIp = ip, bi_MinerAcc = acc\<rparr>"
              by (auto split: outcome.splits)
            have "\<exists>k. bytes_of_string f1 = bytes_of_string (f1 @ concat (replicate k ''.000''))"
              by (rule exI [of _ 0]) simp
            moreover have "cGet C c acc = Inr v \<and> unmarshal_miner v m0 = (mi, None)
                \<and> word_of_nat n \<le> cm_Free mi"
              using Inr un False by auto
            ultimately show ?thesis
              unfolding describes_def b using True ip Sent None by (auto simp del: bytes_of_string_inject)
          qed
          then show ?thesis using describes_suffix by (auto simp: f1_def split: if_splits)
        qed
      qed
    qed
  qed
qed

lemma backupFile_placed:
  assumes "backupFile C io fpath c = (Some (b, None), c')" "bi_MinerId b \<noteq> 0"
  shows "\<exists>fsize accs. bo_stat io = Inr fsize \<and> 0 < fsize \<and> await_miners (bo_miners io) = Some (Ret accs)
    \<and> describes C io fsize (go_quot (int fsize) (fst (CalcFileBlockSizeAndScanSize (int fsize))))
        accs (filepath_Base fpath) b"
proof -
  from assms obtain fsize where st: "bo_stat io = Inr fsize"
    by (cases "bo_stat io") (auto simp: backupFile_def)
  have nz: "fst (CalcFileBlockSizeAndScanSize (int fsize)) \<noteq> 0"
    using assms st by (auto simp: backupFile_def Let_def zero_BlockInfo_def)
  then have pos: "0 < fsize" by (cases fsize) (auto simp: CalcFileBlockSizeAndScanSize_def size_defs)
  let ?bn = "go_quot (int fsize) (fst (CalcFileBlockSizeAndScanSize (int fsize)))"
  have tag: "(if bo_tagStat io \<noteq> None then bo_requestTag io else Ret None) = Ret None"
    using assms st nz
    by (auto simp: backupFile_def Let_def zero_BlockInfo_def split: outcome.splits option.splits if_splits)
  obtain accs where aw: "await_miners (bo_miners io) = Some (Ret accs)"
    using assms st nz tag
    by (cases "await_miners (bo_miners io)"; cases "the (await_miners (bo_miners io))")
       (auto simp: backupFile_def Let_def zero_BlockInfo_def)
  have sg: "bo_sign io = Ret None"
    using assms st nz tag aw
    by (cases "bo_sign io") (auto simp: backupFile_def Let_def zero_BlockInfo_def split: option.splits)
  obtain r c1 where tr: "try_miners C io fsize ?bn (RandSlice (bo_rnd io) accs) (filepath_Base fpath)
      empty_miner c = (r, c1)" by fastforce
  have "r = Ret b" and "bi_MinerId b \<noteq> 0"
    using assms st nz tag aw sg tr
    by (auto simp: backupFile_def Let_def zero_BlockInfo_def split: outcome.splits if_splits)
  from try_miners_describes [OF tr [unfolded this(1)] this(2)]
  have "describes C io fsize ?bn accs (filepath_Base fpath) b" by (simp add: describes_def)
  with st pos aw show ?thesis by blast
qed

lemma place_chunk_placed:
  assumes "place_chunk C fpath ios c = (Some (b, ios1), c')"
  shows "\<exists>io \<in> set ios. \<exists>c0 c1. backupFile C io fpath c0 = (Some (b, None), c1) \<and> bi_MinerId b \<noteq> 0"
  using assms
proof (induction ios arbitrary: c)
  case (Cons io ios)
  obtain r c1 where bf: "backupFile C io fpath c = (r, c1)" by fastforce
  show ?case
  proof (cases r)
    case None
    with Cons.prems bf show ?thesis by simp
  next
    case (Some p)
    obtain b1 err where p: "p = (b1, err)" by (cases p)
    show ?thesis
    proof (cases "err = None \<and> bi_MinerId b1 \<noteq> 0 \<and> bi_BlockSize b1 \<noteq> 0")
      case True
      with Cons.prems bf Some p show ?thesis by auto
    next
      case False
      with Cons.prems bf Some p have "place_chunk C fpath ios c1 = (Some (b, ios1), c')"
        by (cases err) auto
      from Cons.IH [OF this] show ?thesis by auto
    qed
  qed
qed simp

lemma place_chunk_empty:
  assumes "\<forall>io \<in> set ios. bo_stat io = Inr 0"
  shows "place_chunk C fpath ios c = (None, c)"
  using assms
  by (induction ios)
     (auto simp: backupFile_def CalcFileBlockSizeAndScanSize_def size_defs zero_BlockInfo_def Let_def)

text \<open>The submission loop, over a state that counts the submissions.\<close>

definition counted ::
  "('s \<Rightarrow> (string \<times> go_error option) outcome \<times> 's) \<Rightarrow> 's \<times> nat
   \<Rightarrow> (string \<times> go_error option) outcome \<times> 's \<times> nat" where
  "counted submit st = (case st of (s, n) \<Rightarrow> case submit s of (r, s1) \<Rightarrow> (r, (s1, n + 1)))"

definition uncounted :: "('s \<Rightarrow> 'r \<times> 's) \<Rightarrow> 's \<times> nat \<Rightarrow> 'r \<times> 's \<times> nat" where
  "uncounted query st = (case st of (s, n) \<Rightarrow> case query s of (r, s1) \<Rightarrow> (r, (s1, n)))"

lemma file_state_uncounted:
  assumes "file_state (uncounted meta) t (s, n) = (r, (s', n'))" "t \<le> 3"
  shows "n' = n \<and> (r = Ret (Inr st) \<longrightarrow> (\<exists>s0. meta s0 = (Ret (Inr st), s')))"
  using file_state_cases(1) [OF assms, of st]
    file_state_cases(2) [OF assms, where P = "\<lambda>x. snd x = n"]
  by (force simp: uncounted_def split: prod.splits)

lemma counted_submissions:
  assumes "submit_meta (counted submit) (uncounted meta) t (s, n) = (r, (s', n'))" "t \<le> 3"
  shows "n < n' \<and> n' \<le> n + (4 - t) \<and> (r = GaveUp \<longrightarrow> n' = n + (4 - t))
    \<and> (r = Stored \<longrightarrow> (\<exists>s0 h. submit s0 = (Ret (h, None), s'))
         \<or> (\<exists>s0. meta s0 = (Ret (Inr FILE_STATE_ACTIVE), s')))"
  using assms
proof (induction "4 - t" arbitrary: t s n)
  case (Suc d)
  obtain o1 s1 where sub: "submit s = (o1, s1)" by fastforce
  have c: "counted submit (s, n) = (o1, (s1, n + 1))" by (simp add: counted_def sub)
  show ?case
  proof (cases "\<exists>h e. o1 = Ret (h, Some e) \<and> t + 1 \<le> 3")
    case False
    with Suc.prems c sub show ?thesis
      by (cases o1; subst (asm) submit_meta.simps) (auto split: option.splits)
  next
    case True
    then obtain h e where o1: "o1 = Ret (h, Some e)" and t: "t + 1 \<le> 3" by blast
    obtain q s2 n2 where q: "file_state (uncounted meta) 0 (s1, n + 1) = (q, (s2, n2))" by (metis prod.collapse)
    note fs = file_state_uncounted [OF q]
    have n2: "n2 = n + 1" using fs by simp
    consider (panic) "q = Panic" | (active) "q = Ret (Inr FILE_STATE_ACTIVE)"
      | (again) "submit_meta (counted submit) (uncounted meta) (t + 1) (s2, n2) = (r, (s', n'))" "q \<noteq> Ret (Inr FILE_STATE_ACTIVE)"
      using Suc.prems(1) c o1 t q
      by (subst (asm) submit_meta.simps) (auto split: outcome.splits sum.splits if_splits)
    then show ?thesis
    proof cases
      case again
      have d: "d = 4 - (t + 1)" using Suc.hyps(2) by simp
      from Suc.hyps(1) [OF d again(1) t] n2 t show ?thesis by auto
    qed (use Suc.prems c o1 t q n2 fs [of FILE_STATE_ACTIVE] in \<open>subst (asm) submit_meta.simps, auto\<close>)+
  qed
qed simp

section \<open>Properties\<close>

text \<open>
  For every file that is not empty, below \<open>2 ^ 63\<close> bytes, the block size is positive and the
  number of blocks is at least 1 and fits the 32 bits it is sent in; from 1 KiB to 4 GiB it is
  exactly 16, and a scan block is never larger than a block.
\<close>

theorem block_count_bounds:
  assumes "0 < n" "n < (2 :: int) ^ 63"
  shows "let (block, scan) = CalcFileBlockSizeAndScanSize n in
    0 < block \<and> scan \<le> block \<and> 1 \<le> go_quot n block \<and> go_quot n block < 2 ^ 32
    \<and> (1024 \<le> n \<and> n \<le> 4294967295 \<longrightarrow> go_quot n block = 16)"
proof -
  consider (small) "n < 1024" | (mid) "1024 \<le> n" and "n \<le> 4294967295" | (large) "4294967295 < n" by linarith
  then show ?thesis
  proof cases
    case small
    then show ?thesis using assms
      by (simp add: CalcFileBlockSizeAndScanSize_def size_defs go_quot_pos)
  next
    case mid
    then have q: "0 < n div 16" "(n div 16) div 8 \<le> n div 16" by auto
    have "n div (n div 16) = (n mod 16 + n div 16 * 16) div (n div 16)" by simp
    also have "\<dots> = 16 + n mod 16 div (n div 16)" using q(1) by (subst div_mult_self2) auto
    also have "n mod 16 div (n div 16) = 0"
      by (rule div_pos_pos_trivial) (use mid in auto)
    finally have "n div (n div 16) = 16" by simp
    then show ?thesis using mid assms q
      by (simp add: CalcFileBlockSizeAndScanSize_def size_defs go_quot_pos MaxUint32_def Let_def)
  next
    case large
    then have "1 \<le> n div 4294967295" "n div 4294967295 < 2 ^ 32"
      using assms by auto
    then show ?thesis using large assms
      by (simp add: CalcFileBlockSizeAndScanSize_def size_defs go_quot_pos MaxUint32_def Let_def)
  qed
qed

theorem block_count_bounds_witness: "go_quot 1000000 (fst (CalcFileBlockSizeAndScanSize 1000000)) = 16"
  using block_count_bounds [of 1000000] by (simp add: case_prod_unfold Let_def)

text \<open>A sample attempt: one miner, which takes the chunk.\<close>

definition sample_backup_io :: backup_io where
  "sample_backup_io = \<lparr>bo_stat = Inr 5, bo_tagStat = None, bo_requestTag = Ret None,
     bo_miners = [Ret (Inl ''busy''), Ret (Inr [replicate 32 1])], bo_rnd = (\<lambda>_. 0),
     bo_sign = Ret None, bo_resolve = (\<lambda>_. None), bo_dial = (\<lambda>_. Sent None)\<rparr>"

definition sample_cache :: "((bytes \<times> bytes) list \<times> bool) LevelDB" where
  "sample_cache = mem_db [(replicate 32 1, marshal_miner (miner_record sample_miner))]"

definition sample_name :: string where "sample_name = replicate 64 CHR ''a''"

text \<open>
  The text of a positive miner's address in the cache reads back as the address the chain has:
  the block information sent for a chunk names the miner's own four octets and port.
\<close>

theorem cached_address_roundtrip:
  assumes "length (ip_Value (mi_Ip mi)) = 4"
  shows "miner_address (cm_Ip (miner_record mi))
    = Ret \<lparr>ip_Index = 0, ip_Value = ip_Value (mi_Ip mi), ip_Port = ip_Port (mi_Ip mi)\<rparr>"
proof -
  obtain a b c d where v: "ip_Value (mi_Ip mi) = [a, b, c, d]"
    using assms by (auto simp: length_Suc_conv eval_nat_numeral)
  let ?ip = "show_ipv4 a b c d" and ?port = "show_nat (unat (ip_Port (mi_Ip mi)))"
  have "CHR '':'' \<notin> set ?ip" by (simp add: show_ipv4_def)
  then have sp: "split_char CHR '':'' (?ip @ CHR '':'' # ?port) = [?ip, ?port]"
    by (simp add: split_char_append split_char_no_sep)
  have lt: "unat (ip_Port (mi_Ip mi)) < 2 ^ 63"
    using unsigned_less [of "ip_Port (mi_Ip mi)", where 'a = nat] by simp
  have "(word_of_int (fst (Atoi ?port)) :: u16) = ip_Port (mi_Ip mi)"
    by (simp add: Atoi_show_nat [OF lt])
  with sp v show ?thesis
    by (simp add: miner_address_def miner_record_def miner_ip_def ipv4_octets_show Let_def)
qed

theorem cached_address_roundtrip_witness:
  "miner_address (cm_Ip (miner_record sample_miner))
    = Ret \<lparr>ip_Index = 0, ip_Value = [10, 0, 0, 7], ip_Port = 15001\<rparr>"
  using cached_address_roundtrip [of sample_miner] by (simp add: sample_miner_def)

lemma sample_address: "miner_address (cm_Ip (miner_record sample_miner))
    = Ret \<lparr>ip_Index = 0, ip_Value = [10, 0, 0, 7], ip_Port = 15001\<rparr>"
proof -
  have sp: "split_char CHR '':'' (show_ipv4 10 0 0 7 @ CHR '':'' # show_nat 15001)
      = [show_ipv4 10 0 0 7, show_nat 15001]"
    using split_char_append [of "CHR '':''" "show_ipv4 10 0 0 7" "show_nat 15001"]
    by (simp add: show_ipv4_def split_char_no_sep)
  have "(word_of_int (fst (Atoi (show_nat 15001))) :: u16) = 15001"
    by (simp add: Atoi_show_nat)
  with sp show ?thesis
    by (simp add: miner_address_def miner_record_def miner_ip_def ipv4_octets_show sample_miner_def Let_def)
qed

text \<open>
  When a chunk is placed, the block information is right: the chunk is not empty, the miner is
  one the chain returned, it was sent the chunk without error, its cached record has at least the
  chunk's size free and gives the block's miner number and address, and the block carries the
  chunk's size, its block count and its name, completed to 68 bytes.
\<close>

theorem placed_block_describes_chunk:
  assumes "backupFile C io fpath c = (Some (b, None), c')" "bi_MinerId b \<noteq> 0"
  shows "\<exists>fsize accs k c0 v old mi. bo_stat io = Inr fsize \<and> 0 < fsize
    \<and> await_miners (bo_miners io) = Some (Ret accs) \<and> bi_MinerAcc b \<in> set accs
    \<and> bo_dial io (bi_MinerAcc b) = Sent None
    \<and> cGet C c0 (bi_MinerAcc b) = Inr v \<and> unmarshal_miner v old = (mi, None)
    \<and> word_of_nat fsize \<le> cm_Free mi \<and> bi_MinerId b = cm_Peerid mi
    \<and> miner_address (cm_Ip mi) = Ret (bi_MinerIp b) \<and> bi_BlockSize b = word_of_nat fsize
    \<and> bi_BlockNum b = word_of_int (go_quot (int fsize) (fst (CalcFileBlockSizeAndScanSize (int fsize))))
    \<and> bi_BlockId b = bytes_of_string (filepath_Base fpath @ concat (replicate k ''.000''))
    \<and> length (bi_BlockId b) = 68"
  using backupFile_placed [OF assms] unfolding describes_def len_FileBlockId_def by blast

lemma sample_backup_runs_on:
  assumes get: "cGet mem_cache c (replicate 32 1) = Inr (marshal_miner (miner_record sample_miner))"
  shows "backupFile mem_cache sample_backup_io sample_name c =
     (Some (\<lparr>bi_MinerId = 9, bi_BlockSize = 5, bi_BlockNum = 1,
        bi_BlockId = bytes_of_string (sample_name @ ''.000''),
        bi_MinerIp = \<lparr>ip_Index = 0, ip_Value = [10, 0, 0, 7], ip_Port = 15001\<rparr>,
        bi_MinerAcc = replicate 32 1\<rparr>, None), c)"
proof -
  have base: "filepath_Base sample_name = sample_name"
    by (rule filepath_Base_name(1)) (simp_all add: sample_name_def)
  have shuf: "RandSlice (\<lambda>_. 0) [replicate 32 (1 :: byte)] = [replicate 32 1]"
    using set_RandSlice [of "\<lambda>_. 0" "[replicate 32 (1 :: byte)]"]
      length_RandSlice [of "\<lambda>_. 0" "[replicate 32 (1 :: byte)]"]
    by (cases "RandSlice (\<lambda>_. 0) [replicate 32 (1 :: byte)]") (auto simp del: set_RandSlice length_RandSlice)
  have len: "length sample_name = 64" by (simp add: sample_name_def)
  have free: "cm_Free (miner_record sample_miner) = 60" "cm_Peerid (miner_record sample_miner) = 9"
    by (simp_all add: miner_record_def sample_miner_def big_Uint64_def)
  have tm: "try_miners mem_cache sample_backup_io 5 1 [replicate 32 1] sample_name empty_miner c
      = (Ret \<lparr>bi_MinerId = 9, bi_BlockSize = 5, bi_BlockNum = 1,
          bi_BlockId = bytes_of_string (sample_name @ ''.000''),
          bi_MinerIp = \<lparr>ip_Index = 0, ip_Value = [10, 0, 0, 7], ip_Port = 15001\<rparr>,
          bi_MinerAcc = replicate 32 1\<rparr>, c)"
    by (simp add: get free len sample_address len_FileBlockId_def sample_backup_io_def Let_def
        del: replicate.simps)
  show ?thesis
    using tm base shuf
    by (simp add: backupFile_def sample_backup_io_def CalcFileBlockSizeAndScanSize_def size_defs
        go_quot_def Let_def del: try_miners.simps replicate.simps)
qed

lemma sample_cache_get:
  "cGet mem_cache sample_cache (replicate 32 1) = Inr (marshal_miner (miner_record sample_miner))"
  by (simp add: sample_cache_def mem_db_def LevelDB_defs mem_leveldb_def)

lemmas sample_backup_runs = sample_backup_runs_on [OF sample_cache_get]

theorem placed_block_describes_chunk_witness:
  "\<exists>fsize accs. bo_stat sample_backup_io = Inr fsize \<and> 0 < fsize
    \<and> await_miners (bo_miners sample_backup_io) = Some (Ret accs) \<and> replicate 32 1 \<in> set accs"
  using placed_block_describes_chunk [OF sample_backup_runs] by auto

text \<open>
  The first miner that has room decides an attempt when it cannot be reached: closing the nil
  connection panics, the panic is recovered into no error and the zero block, and no other miner is
  tried.
\<close>

theorem unreachable_miner_ends_attempt:
  assumes "bo_stat io = Inr fsize" "0 < fsize" "bo_tagStat io = None" "bo_sign io = Ret None"
    and "await_miners (bo_miners io) = Some (Ret accs)" "RandSlice (bo_rnd io) accs = acc # rest"
    and "cGet C c acc = Inr v" "unmarshal_miner v empty_miner = (mi, None)"
    and "word_of_nat fsize \<le> cm_Free mi" "bo_resolve io (cm_Ip mi) = None"
    and "bo_dial io acc = DialErr err"
  shows "backupFile C io fpath c = (Some (zero_BlockInfo, None), c)"
proof -
  have "fst (CalcFileBlockSizeAndScanSize (int fsize)) \<noteq> 0"
    using assms(2) by (auto simp: CalcFileBlockSizeAndScanSize_def size_defs MaxUint32_def go_quot_pos Let_def)
  moreover have "\<not> cm_Free mi < word_of_nat fsize" using assms(9) by simp
  ultimately show ?thesis
    using assms by (simp add: backupFile_def Let_def)
qed

theorem unreachable_miner_ends_attempt_witness:
  "backupFile mem_cache (sample_backup_io\<lparr>bo_dial := (\<lambda>_. DialErr ''refused'')\<rparr>) sample_name sample_cache
     = (Some (zero_BlockInfo, None), sample_cache)"
proof -
  have shuf: "RandSlice (\<lambda>_. 0) [replicate 32 (1 :: byte)] = [replicate 32 1]"
    using set_RandSlice [of "\<lambda>_. 0" "[replicate 32 (1 :: byte)]"]
      length_RandSlice [of "\<lambda>_. 0" "[replicate 32 (1 :: byte)]"]
    by (cases "RandSlice (\<lambda>_. 0) [replicate 32 (1 :: byte)]") (auto simp del: set_RandSlice length_RandSlice)
  have get: "cGet mem_cache sample_cache (replicate 32 1) = Inr (marshal_miner (miner_record sample_miner))"
    by (simp add: sample_cache_def mem_db_def LevelDB_defs mem_leveldb_def)
  show ?thesis
    by (rule unreachable_miner_ends_attempt [where fsize = 5 and accs = "[replicate 32 1]" and rest = "[]"
          and acc = "replicate 32 1" and mi = "miner_record sample_miner"
          and v = "marshal_miner (miner_record sample_miner)" and err = "''refused''"])
       (use get shuf in \<open>simp_all add: sample_backup_io_def miner_record_def sample_miner_def big_Uint64_def
          del: replicate.simps\<close>)
qed

text \<open>
  An empty chunk is never placed: its block size is zero, the division panics, the recovered
  call reports no error, and the loop tries again, however often, without touching the cache.
\<close>

theorem empty_chunk_is_never_placed:
  assumes "\<forall>io \<in> set ios. bo_stat io = Inr 0"
  shows "FileBackupManagement b58enc sum512 C submit meta sched ios fid fsize (chunk # chunks) (c, s)
    = (StillPlacing, save_store C fid (first_store fid fsize sched) c, s)"
  using place_chunk_empty [OF assms, of C chunk "save_store C fid (first_store fid fsize sched) c"]
  by (simp add: FileBackupManagement_def Let_def)

theorem empty_chunk_is_never_placed_witness:
  "fst (FileBackupManagement string_of_bytes (\<lambda>_. replicate 64 0) mem_cache
     (\<lambda>_ _ _ s. (Ret (''ab'', None), s)) (\<lambda>s. (Ret (Inl ''none''), s)) ''10.0.0.1:15000''
     (replicate 100 (sample_backup_io\<lparr>bo_stat := Inr 0\<rparr>)) ''f'' 0 [sample_name] (mem_db [], ()))
   = StillPlacing"
  by (subst empty_chunk_is_never_placed) simp_all

text \<open>
  The meta information of a file is submitted at least once and at most four times; the loop
  gives up only after four failed submissions, and the file counts as stored only if the last
  submission reported no error or the chain says the file is active.
\<close>

theorem meta_submissions_bounded:
  assumes "submit_meta (counted submit) (uncounted meta) 0 (s, 0) = (r, (s', n))"
  shows "1 \<le> n \<and> n \<le> 4 \<and> (r = GaveUp \<longrightarrow> n = 4)
    \<and> (r = Stored \<longrightarrow> (\<exists>s0 h. submit s0 = (Ret (h, None), s'))
         \<or> (\<exists>s0. meta s0 = (Ret (Inr FILE_STATE_ACTIVE), s')))"
  using counted_submissions [OF assms] by auto

lemma sample_gives_up:
  "submit_meta (counted (\<lambda>s. (Ret ([], Some ''full''), s))) (uncounted (\<lambda>s. (Ret (Inl ''none''), s))) 0 ((), 0)
     = (GaveUp, ((), 4))"
proof -
  have none: "file_state (uncounted (\<lambda>s. (Ret (Inl ''none''), s))) t ((), n) = (Ret (Inl ''none''), ((), n))" if "t \<le> 3" for t n
    using that
  proof (induction "4 - t" arbitrary: t)
    case (Suc d)
    then have d: "d = 4 - (t + 1)" by simp
    show ?case using Suc.hyps(1) [OF d] Suc.prems by (subst file_state.simps) (simp add: uncounted_def)
  qed simp
  have step: "submit_meta (counted (\<lambda>s. (Ret ([], Some ''full''), s))) (uncounted (\<lambda>s. (Ret (Inl ''none''), s))) t ((), n)
     = (if t + 1 > 3 then (GaveUp, ((), n + 1)) else
        submit_meta (counted (\<lambda>s. (Ret ([], Some ''full''), s))) (uncounted (\<lambda>s. (Ret (Inl ''none''), s))) (t + 1) ((), n + 1))"
    for t n
    by (subst submit_meta.simps) (simp add: counted_def none)
  show ?thesis by (simp add: step)
qed

theorem meta_submissions_bounded_witness:
  "\<exists>n. submit_meta (counted (\<lambda>s. (Ret ([], Some ''full''), s))) (uncounted (\<lambda>s. (Ret (Inl ''none''), s))) 0 ((), 0)
     = (GaveUp, ((), n)) \<and> n = 4"
  using meta_submissions_bounded [OF sample_gives_up] sample_gives_up by simp

subsection \<open>The record of the file\<close>

context reliable_cacher
begin

lemma try_miners_open: "is_open c \<Longrightarrow> is_open (snd (try_miners C io n bn accs fname m0 c))"
proof (induction accs arbitrary: fname m0 c)
  case (Cons acc accs)
  have del: "is_open (fst (cDelete C c acc))" using delete_effect [OF Cons.prems, of acc] by auto
  show ?case
    using Cons.IH [OF Cons.prems] Cons.IH [OF del] Cons.prems
    by (auto simp: Let_def split: sum.splits prod.splits option.splits dialed.splits outcome.splits)
qed simp

lemma backupFile_open: "is_open c \<Longrightarrow> is_open (snd (backupFile C io fpath c))"
  using try_miners_open [of c io]
  by (auto simp: backupFile_def Let_def split: sum.splits outcome.splits option.splits prod.splits)
     (metis snd_conv)+

lemma place_chunk_open: "is_open c \<Longrightarrow> is_open (snd (place_chunk C fpath ios c))"
proof (induction ios arbitrary: c)
  case (Cons io ios)
  obtain r c1 where bf: "backupFile C io fpath c = (r, c1)" by fastforce
  have "is_open c1" using backupFile_open [OF Cons.prems, of io fpath] bf by simp
  with Cons.IH bf show ?case by (auto split: option.splits prod.splits)
qed simp

lemma save_store_effect:
  "is_open c \<Longrightarrow> is_open (save_store C fid f c)
     \<and> contents (save_store C fid f c) (bytes_of_string fid) = Some (marshal_store f)"
  using put_effect [of c "bytes_of_string fid" "marshal_store f"] by (auto simp: save_store_def)

lemma place_chunks_record:
  assumes "is_open c" "place_chunks b58enc sum512 C fid i chunks f ios c = (r, c')"
  shows "is_open c' \<and> (\<forall>bs f'. r = Some (bs, f') \<longrightarrow> length bs = length chunks \<and> st_FileId f' = st_FileId f
     \<and> map fst (st_Miners f') = map fst (st_Miners f) @ [i..<i + length chunks])"
  using assms
proof (induction chunks arbitrary: i f ios c r c')
  case (Cons ch chs)
  obtain r1 c1 where pc: "place_chunk C ch ios c = (r1, c1)" by fastforce
  have o1: "is_open c1" using place_chunk_open [OF Cons.prems(1), of ch ios] pc by simp
  show ?case
  proof (cases r1)
    case None
    with Cons.prems pc o1 show ?thesis by auto
  next
    case (Some p)
    obtain b ios1 where p: "p = (b, ios1)" by (cases p)
    let ?acc = "case EncodePublicKeyAsCessAccount b58enc sum512 (bi_MinerAcc b) of Inl err \<Rightarrow> [] | Inr a \<Rightarrow> a"
    let ?f1 = "f\<lparr>st_Miners := st_Miners f @ [(i, ?acc)]\<rparr>"
    obtain r2 c3 where rest: "place_chunks b58enc sum512 C fid (i + 1) chs ?f1 ios1 (save_store C fid ?f1 c1)
        = (r2, c3)" by fastforce
    from save_store_effect [OF o1] have "is_open (save_store C fid ?f1 c1)" by blast
    note IH = Cons.IH [OF this rest]
    have step: "place_chunks b58enc sum512 C fid i (ch # chs) f ios c
        = (case r2 of None \<Rightarrow> (None, c3) | Some (bs, f2) \<Rightarrow> (Some (b # bs, f2), c3))"
      using pc Some p rest by (simp add: Let_def)
    show ?thesis
    proof (cases r2)
      case None
      with step Cons.prems(2) IH show ?thesis by simp
    next
      case (Some q)
      obtain bs f2 where q: "q = (bs, f2)" by (cases q)
      with step Cons.prems(2) Some have eq: "c' = c3" "r = Some (b # bs, f2)" by simp_all
      have "[i..<i + length (ch # chs)] = i # [i + 1..<i + 1 + length chs]"
        by (subst upt_conv_Cons) simp_all
      with IH Some q show ?thesis unfolding eq by simp
    qed
  qed
qed auto

end


lemma sample_management_on:
  assumes "replicate 32 (1 :: byte) \<noteq> bytes_of_string fid"
  shows "fst (FileBackupManagement string_of_bytes (\<lambda>_. replicate 64 0) mem_cache
     (\<lambda>_ _ _ s. (Ret (''ab'', None), s)) (\<lambda>s. (Ret (Inl ''none''), s)) ''10.0.0.1:15000''
     [sample_backup_io] fid n [sample_name] (sample_cache, ())) = Ended Stored"
proof -
  have get: "cGet mem_cache (save_store mem_cache fid g sample_cache) (replicate 32 1)
      = Inr (marshal_miner (miner_record sample_miner))" for g
    using assms by (simp add: save_store_def sample_cache_def mem_db_def LevelDB_defs mem_leveldb_def
        del: replicate.simps)
  have sub: "submit_meta (\<lambda>s. (Ret (''ab'', None), s)) (\<lambda>s. (Ret (Inl ''none''), s)) 0 () = (Stored, ())"
    by (subst submit_meta.simps) simp
  show ?thesis
    by (simp add: FileBackupManagement_def Let_def sample_backup_runs_on [OF get] sub
        del: replicate.simps split: prod.split)
qed

lemma bytes_of_string_differ: "length s \<noteq> n \<Longrightarrow> replicate n (1 :: byte) \<noteq> bytes_of_string s"
  by (metis length_bytes_of_string length_replicate)

lemmas sample_management = sample_management_on [where fid = "''f''" and n = 5,
  OF bytes_of_string_differ [where s = "''f''" and n = 32, simplified]]


end
