(* ===== verification/Confile.thy ===== *)
theory Confile
  imports Ss58 GoStrings
begin

text \<open>
  The configuration file of the scheduler (pkg/confile/confile.go).  The reader of the file (viper),
  the keyring and the calls of \<open>os\<close> answer through a record of functions; an account is decoded by
  the model of pkg/utils.
\<close>

definition DefaultConfigurationFile :: string where "DefaultConfigurationFile = ''./conf.toml''"
definition ConfigurationFileTemplateName :: string where "ConfigurationFileTemplateName = ''conf_template.toml''"

definition ConfigurationFileTemplete :: string where
  "ConfigurationFileTemplete = (let nl = [CHR 0x0A]; quotes = [CHR 0x22, CHR 0x22] in
     ''# The rpc address of the chain node'' @ nl
     @ ''RpcAddr     = '' @ quotes @ nl
     @ ''# The IP address of the machine'' @ [CHR 0x27] @ ''s public network'' @ nl
     @ ''ServiceAddr = '' @ quotes @ nl
     @ ''# Port number monitored by the scheduler program'' @ nl
     @ ''ServicePort = 15000'' @ nl
     @ ''# Sgx service communication port'' @ nl
     @ ''SgxPort     = 80'' @ nl
     @ ''# Data storage directory'' @ nl
     @ ''DataDir     = '' @ quotes @ nl
     @ ''# Phrase or seed of the controller account'' @ nl
     @ ''CtrlPrk     = '' @ quotes @ nl
     @ ''# The address of stash account'' @ nl
     @ ''StashAcc    = '' @ quotes)"

record confile =
  cf_RpcAddr :: string
  cf_ServiceAddr :: string
  cf_ServicePort :: u32
  cf_SgxPort :: u32
  cf_DataDir :: string
  cf_CtrlPrk :: string
  cf_StashAcc :: string

definition NewConfigfile :: confile where
  "NewConfigfile = \<lparr>cf_RpcAddr = [], cf_ServiceAddr = [], cf_ServicePort = 0, cf_SgxPort = 0,
     cf_DataDir = [], cf_CtrlPrk = [], cf_StashAcc = []\<rparr>"

text \<open>
  \<open>ce_Stat\<close> gives an error or whether the path is a directory; the two calls of viper see the path
  and the type that were set; the keyring gives the public key and the URI of a secret.
\<close>

record conf_env =
  ce_Stat :: "string \<Rightarrow> go_error + bool"
  ce_ReadInConfig :: "string \<Rightarrow> string \<Rightarrow> go_error option"
  ce_Unmarshal :: "string \<Rightarrow> string \<Rightarrow> confile \<Rightarrow> confile \<times> go_error option"
  ce_KeyringPair :: "string \<Rightarrow> go_error + bytes \<times> string"
  ce_MkdirAll :: "string \<Rightarrow> go_error option"
  ce_b58dec :: "string \<Rightarrow> bytes"
  ce_sum512 :: "bytes \<Rightarrow> bytes"

text \<open>The checks of the values that were read, in their order.\<close>

definition check_values :: "conf_env \<Rightarrow> confile \<Rightarrow> go_error option" where
  "check_values E c =
     (case ce_KeyringPair E (cf_CtrlPrk c) of Inl err \<Rightarrow> Some (''Secret: '' @ err)
      | Inr _ \<Rightarrow>
     (case DecodePublicKeyOfCessAccount (ce_b58dec E) (ce_sum512 E) (cf_StashAcc c) of Inl err \<Rightarrow> Some (''Decode: '' @ err)
      | Inr _ \<Rightarrow>
        if cf_DataDir c = [] \<or> cf_RpcAddr c = [] \<or> cf_ServiceAddr c = []
        then Some ''The configuration file cannot have empty entries''
        else if cf_ServicePort c < 1024
        then Some (''Prohibit the use of system reserved port: '' @ show_nat (unat (cf_ServicePort c)))
        else if cf_ServicePort c > 65535 then Some ''The port number cannot exceed 65535''
        else if cf_SgxPort c = 0 \<or> cf_SgxPort c > 65535 then Some ''Illegal sgx service port''
        else None))"

text \<open>The data directory is there or is made.\<close>

definition check_DataDir :: "conf_env \<Rightarrow> confile \<Rightarrow> go_error option \<times> string list" where
  "check_DataDir E c =
     (case ce_Stat E (cf_DataDir c) of
        Inl _ \<Rightarrow> (case ce_MkdirAll E (cf_DataDir c) of Some err \<Rightarrow> (Some err, []) | None \<Rightarrow> (None, [cf_DataDir c]))
      | Inr dir \<Rightarrow> (if dir then None else Some (''The '' @ [CHR 0x27] @ cf_DataDir c @ [CHR 0x27] @ '' is not a directory''), []))"

text \<open>
  \<open>Parse\<close>: its error, the configuration, and the directories it has made.  A path without an
  extension panics, at \<open>path.Ext(confilePath)[1:]\<close>.
\<close>

definition parse_file :: "conf_env \<Rightarrow> string \<Rightarrow> confile \<Rightarrow> go_error option outcome \<times> confile \<times> string list" where
  "parse_file E confilePath c =
     (case ce_Stat E confilePath of
        Inl err \<Rightarrow> (Ret (Some (''Parse: '' @ err)), c, [])
      | Inr dir \<Rightarrow>
          if dir then (Ret (Some (''The '' @ [CHR 0x27] @ confilePath @ [CHR 0x27] @ '' is not a file'')), c, [])
          else (case filepath_Ext confilePath of
             [] \<Rightarrow> (Panic, c, [])
           | _ # ext \<Rightarrow>
               (case ce_ReadInConfig E confilePath ext of
                  Some err \<Rightarrow> (Ret (Some (''ReadInConfig: '' @ err)), c, [])
                | None \<Rightarrow>
                    (case ce_Unmarshal E confilePath ext c of
                       (c', Some err) \<Rightarrow> (Ret (Some (''Unmarshal: '' @ err)), c', [])
                     | (c', None) \<Rightarrow>
                         (case check_values E c' of
                            Some err \<Rightarrow> (Ret (Some err), c', [])
                          | None \<Rightarrow> (case check_DataDir E c' of (err, made) \<Rightarrow> (Ret err, c', made)))))))"

definition Parse :: "conf_env \<Rightarrow> string \<Rightarrow> confile \<Rightarrow> go_error option outcome \<times> confile \<times> string list" where
  "Parse E fpath c = parse_file E (if fpath = [] then DefaultConfigurationFile else fpath) c"

definition GetRpcAddr :: "confile \<Rightarrow> string" where "GetRpcAddr c = cf_RpcAddr c"
definition GetServiceAddr :: "confile \<Rightarrow> string" where "GetServiceAddr c = cf_ServiceAddr c"
definition GetServicePort :: "confile \<Rightarrow> u32" where "GetServicePort c = cf_ServicePort c"
definition GetSgxPort :: "confile \<Rightarrow> u32" where "GetSgxPort c = cf_SgxPort c"
definition GetDataDir :: "confile \<Rightarrow> string" where "GetDataDir c = cf_DataDir c"
definition GetCtrlPrk :: "confile \<Rightarrow> string" where "GetCtrlPrk c = cf_CtrlPrk c"
definition GetStashAcc :: "confile \<Rightarrow> string" where "GetStashAcc c = cf_StashAcc c"

lemmas confile_getters = GetRpcAddr_def GetServiceAddr_def GetServicePort_def GetSgxPort_def
  GetDataDir_def GetCtrlPrk_def GetStashAcc_def

section \<open>What a configuration that is accepted says\<close>

definition valid_values :: "conf_env \<Rightarrow> confile \<Rightarrow> bool" where
  "valid_values E c =
     ((\<exists>k. ce_KeyringPair E (cf_CtrlPrk c) = Inr k) \<and>
      (\<exists>pk. DecodePublicKeyOfCessAccount (ce_b58dec E) (ce_sum512 E) (cf_StashAcc c) = Inr pk) \<and>
      cf_DataDir c \<noteq> [] \<and> cf_RpcAddr c \<noteq> [] \<and> cf_ServiceAddr c \<noteq> [] \<and>
      1024 \<le> unat (cf_ServicePort c) \<and> unat (cf_ServicePort c) \<le> 65535 \<and>
      1 \<le> unat (cf_SgxPort c) \<and> unat (cf_SgxPort c) \<le> 65535)"

lemma port_bounds:
  "(p :: u32) < 1024 \<longleftrightarrow> unat p < 1024" "(p :: u32) > 65535 \<longleftrightarrow> unat p > 65535" "(p :: u32) = 0 \<longleftrightarrow> unat p = 0"
  by (simp_all add: word_less_nat_alt unat_eq_0)

lemma check_values_None: "check_values E c = None \<longleftrightarrow> valid_values E c"
  by (auto simp: check_values_def valid_values_def port_bounds not_less Suc_le_eq split: sum.splits)

lemma check_DataDir_ok:
  "check_DataDir E c = (None, made) \<longleftrightarrow>
     ce_Stat E (cf_DataDir c) = Inr True \<and> made = [] \<or>
     (\<exists>err. ce_Stat E (cf_DataDir c) = Inl err) \<and> ce_MkdirAll E (cf_DataDir c) = None \<and> made = [cf_DataDir c]"
  by (auto simp: check_DataDir_def split: sum.splits option.splits if_splits)


text \<open>
  The values of the template, as a reader of the format gives them: a start with them is refused
  before any directory is made, whatever the keyring and the decoder say of the empty texts.
\<close>

definition template_values :: confile where
  "template_values = \<lparr>cf_RpcAddr = [], cf_ServiceAddr = [], cf_ServicePort = 15000, cf_SgxPort = 80,
     cf_DataDir = [], cf_CtrlPrk = [], cf_StashAcc = []\<rparr>"

theorem template_must_be_filled_in:
  assumes "\<And>p ext. ce_Unmarshal E p ext c0 = (template_values, None)"
  shows "fst (Parse E fpath c0) \<noteq> Ret None" and "snd (snd (Parse E fpath c0)) = []"
proof -
  have "check_values E template_values \<noteq> None" by (simp add: check_values_None valid_values_def template_values_def)
  then show "fst (Parse E fpath c0) \<noteq> Ret None" "snd (snd (Parse E fpath c0)) = []"
    using assms by (auto simp: Parse_def parse_file_def split: sum.split list.split option.split)
qed

end
