(* ===== verification/FillerGen.thy ===== *)
theory FillerGen
  imports GoJson GoBase64 GoFiles Utils Podr2 Confile Steps
begin

text \<open>
  The generation of fillers and of their tags (node/sub_filler.go) and the callback that brings
  the tags (node/route.go).  The tags are computed by another process, asked over HTTP; what it
  posts to the callback is an argument.
\<close>

section \<open>The content of a filler\<close>

text \<open>
  \<open>generateFiller\<close> writes rows of random text; the errors of \<open>WriteString\<close> are not looked at, so
  the environment says of each row whether it was written.
\<close>

record filler_io =
  fio_open :: "go_error option"
  fio_src :: "nat \<Rightarrow> nat \<Rightarrow> u64"
  fio_written :: "nat \<Rightarrow> bool"
  fio_sync :: "go_error option"
  fio_hash :: "go_error option"
  fio_rename :: "go_error option"

definition filler_row :: "(nat \<Rightarrow> u64) \<Rightarrow> bytes" where
  "filler_row src = bytes_of_string (RandStr src (FillerLineLength - 1) @ [CHR 0x0A])"

definition filler_rows :: "filler_io \<Rightarrow> nat \<Rightarrow> bytes" where
  "filler_rows io rows =
     concat (map (\<lambda>i. if fio_written io i then filler_row (fio_src io i) else []) [0..<rows])"

definition generateFiller :: "filler_io \<Rightarrow> string \<Rightarrow> nat \<Rightarrow> disk \<Rightarrow> disk \<times> go_error option" where
  "generateFiller io fpath fsize d =
     (case fio_open io of
        Some err \<Rightarrow> (d, Some err)
      | None \<Rightarrow>
          let d1 = put_file fpath (filler_rows io (fsize div FillerLineLength)) d in
          (case fio_sync io of
             Some err \<Rightarrow> (remove_file fpath d1, Some err)
           | None \<Rightarrow> (d1, None)))"

text \<open>
  The name of the temporary file is the time; the loop waits while a file of that name exists.
  \<open>times\<close> are the readings of the clock, and no name comes out if they run out first.
\<close>

fun free_name :: "string \<Rightarrow> disk \<Rightarrow> nat list \<Rightarrow> string option" where
  "free_name dir d [] = None"
| "free_name dir d (t # ts) =
     (let fpath = filepath_Join [dir, show_nat t] in
      case content d fpath of None \<Rightarrow> Some fpath | Some _ \<Rightarrow> free_name dir d ts)"

text \<open>\<open>os.Rename\<close> replaces the file of the new name.\<close>

definition rename_file :: "string \<Rightarrow> string \<Rightarrow> disk \<Rightarrow> disk" where
  "rename_file old new d =
     (case content d old of None \<Rightarrow> d | Some bs \<Rightarrow> remove_file old (put_file new bs d))"

text \<open>
  The deferred \<open>os.Remove(fpath)\<close> runs on every path after the name is chosen.  A file without
  status has a nil \<open>FileInfo\<close>, whose \<open>Size\<close> panics.
\<close>

definition GenerateFiller ::
  "(bytes \<Rightarrow> bytes) \<Rightarrow> filler_io \<Rightarrow> string \<Rightarrow> string \<Rightarrow> disk \<Rightarrow> (go_error + string) outcome \<times> disk" where
  "GenerateFiller sha256 io dir fpath d =
     (case generateFiller io fpath FillerSize d of
        (d1, Some err) \<Rightarrow> (Ret (Inl err), remove_file fpath d1)
      | (d1, None) \<Rightarrow>
          (case content d1 fpath of
             None \<Rightarrow> (Panic, remove_file fpath d1)
           | Some bs \<Rightarrow>
               if length bs \<noteq> FillerSize then (Ret (Inl ''size error''), remove_file fpath d1)
               else
                 (case fio_hash io of
                    Some err \<Rightarrow> (Ret (Inl err), remove_file fpath d1)
                  | None \<Rightarrow>
                      let newPath = filepath_Join [dir, CalcFileSHA256 sha256 bs] in
                      (case fio_rename io of
                         Some err \<Rightarrow> (Ret (Inl err), remove_file fpath d1)
                       | None \<Rightarrow> (Ret (Inr newPath), remove_file fpath (rename_file fpath newPath d1))))))"

section \<open>The posted tag (route.go)\<close>

record PoDR2PubData =
  pd_Name :: string
  pd_N :: int
  pd_U :: string
  pd_SigAbove :: string
  pd_Phi :: "string list"
  pd_SigRootHash :: string
  pd_E :: string
  pd_KeyN :: string
  pd_StatusCode :: nat
  pd_StatusMsg :: string

definition zero_tag :: PoDR2PubData where
  "zero_tag = \<lparr>pd_Name = [], pd_N = 0, pd_U = [], pd_SigAbove = [], pd_Phi = [], pd_SigRootHash = [],
     pd_E = [], pd_KeyN = [], pd_StatusCode = 0, pd_StatusMsg = []\<rparr>"

text \<open>\<open>ParseInt(lit, 10, 64)\<close>.\<close>

definition get_int64 :: "json \<Rightarrow> go_error + int option" where
  "get_int64 v =
     (case v of
        JNum l \<Rightarrow>
          (let neg = (l \<noteq> [] \<and> hd l = CHR ''-''); ds = (if neg then tl l else l);
               x = (if neg then - int (dec_val 0 ds) else int (dec_val 0 ds)) in
           if list_all is_digit ds \<and> - (2 ^ 63) \<le> x \<and> x < 2 ^ 63 then Inr (Some x) else Inl type_error)
      | JNull \<Rightarrow> Inr None
      | _ \<Rightarrow> Inl type_error)"

text \<open>A struct inside a struct: its members, unless the value is null or no object.\<close>

definition set_struct ::
  "json \<Rightarrow> (string \<times> json \<Rightarrow> 'r \<times> go_error option \<Rightarrow> 'r \<times> go_error option) \<Rightarrow> 'r \<times> go_error option \<Rightarrow> 'r \<times> go_error option" where
  "set_struct v member st =
     (case v of
        JObj ms \<Rightarrow> fold member ms st
      | JNull \<Rightarrow> st
      | _ \<Rightarrow> set_field (Inl type_error) (\<lambda>(_ :: unit) r. r) st)"

text \<open>
  A slice of strings: a null element, or one of the wrong type, is the empty string, or what an
  earlier member with the same key left there.
\<close>

fun string_elems :: "json list \<Rightarrow> nat \<Rightarrow> string list \<Rightarrow> go_error option \<Rightarrow> string list \<times> go_error option" where
  "string_elems [] i old err = ([], err)"
| "string_elems (v # vs) i old err =
     (let before = (if i < length old then old ! i else []);
          (s, err1) = set_field (get_string v) (\<lambda>s _. s) (before, err);
          (ss, err2) = string_elems vs (i + 1) old err1 in
      (s # ss, err2))"

definition set_strings :: "json \<Rightarrow> PoDR2PubData \<times> go_error option \<Rightarrow> PoDR2PubData \<times> go_error option" where
  "set_strings v st =
     (case st of (r, err) \<Rightarrow>
       (case v of
          JArr vs \<Rightarrow> (case string_elems vs 0 (pd_Phi r) err of (ss, e) \<Rightarrow> (r\<lparr>pd_Phi := ss\<rparr>, e))
        | JNull \<Rightarrow> (r\<lparr>pd_Phi := []\<rparr>, err)
        | _ \<Rightarrow> set_field (Inl type_error) (\<lambda>(_ :: unit) r. r) st))"

fun tag_member :: "string \<times> json \<Rightarrow> PoDR2PubData \<times> go_error option \<Rightarrow> PoDR2PubData \<times> go_error option" where
  "tag_member (k, v) st =
     (if same_key k ''name'' then set_field (get_string v) (\<lambda>s r. r\<lparr>pd_Name := s\<rparr>) st
      else if same_key k ''n'' then set_field (get_int64 v) (\<lambda>i r. r\<lparr>pd_N := i\<rparr>) st
      else if same_key k ''u'' then set_field (get_string v) (\<lambda>s r. r\<lparr>pd_U := s\<rparr>) st
      else st)"

fun t_member :: "string \<times> json \<Rightarrow> PoDR2PubData \<times> go_error option \<Rightarrow> PoDR2PubData \<times> go_error option" where
  "t_member (k, v) st =
     (if same_key k ''tag'' then set_struct v tag_member st
      else if same_key k ''sig_above'' then set_field (get_string v) (\<lambda>s r. r\<lparr>pd_SigAbove := s\<rparr>) st
      else st)"

fun spk_member :: "string \<times> json \<Rightarrow> PoDR2PubData \<times> go_error option \<Rightarrow> PoDR2PubData \<times> go_error option" where
  "spk_member (k, v) st =
     (if same_key k ''e'' then set_field (get_string v) (\<lambda>s r. r\<lparr>pd_E := s\<rparr>) st
      else if same_key k ''n'' then set_field (get_string v) (\<lambda>s r. r\<lparr>pd_KeyN := s\<rparr>) st
      else st)"

fun result_member :: "string \<times> json \<Rightarrow> PoDR2PubData \<times> go_error option \<Rightarrow> PoDR2PubData \<times> go_error option" where
  "result_member (k, v) st =
     (if same_key k ''t'' then set_struct v t_member st
      else if same_key k ''phi'' then set_strings v st
      else if same_key k ''sig_root_hash'' then set_field (get_string v) (\<lambda>s r. r\<lparr>pd_SigRootHash := s\<rparr>) st
      else if same_key k ''spk'' then set_struct v spk_member st
      else st)"

fun status_member :: "string \<times> json \<Rightarrow> PoDR2PubData \<times> go_error option \<Rightarrow> PoDR2PubData \<times> go_error option" where
  "status_member (k, v) st =
     (if same_key k ''status_code'' then set_field (get_uint 64 v) (\<lambda>n r. r\<lparr>pd_StatusCode := n\<rparr>) st
      else if same_key k ''status_msg'' then set_field (get_string v) (\<lambda>s r. r\<lparr>pd_StatusMsg := s\<rparr>) st
      else st)"

fun pubdata_member :: "string \<times> json \<Rightarrow> PoDR2PubData \<times> go_error option \<Rightarrow> PoDR2PubData \<times> go_error option" where
  "pubdata_member (k, v) st =
     (if same_key k ''result'' then set_struct v result_member st
      else if same_key k ''status'' then set_struct v status_member st
      else st)"

definition unmarshal_pubdata :: "bytes \<Rightarrow> go_error + PoDR2PubData" where
  "unmarshal_pubdata bs =
     (case parse_json (string_of_bytes bs) of
        None \<Rightarrow> Inl ''json: syntax error''
      | Some v \<Rightarrow>
          (case set_struct v pubdata_member (zero_tag, None) of
             (r, None) \<Rightarrow> Inr r
           | (_, Some err) \<Rightarrow> Inl err))"

text \<open>
  \<open>GetTag\<close>: the HTTP status, and the tag its goroutine will put on the channel, if any.
\<close>

definition GetTag :: "go_error + bytes \<Rightarrow> nat \<times> PoDR2PubData option" where
  "GetTag body =
     (case body of
        Inl err \<Rightarrow> (400, None)
      | Inr val \<Rightarrow>
          (case unmarshal_pubdata val of
             Inl err \<Rightarrow> (400, None)
           | Inr result \<Rightarrow>
               if pd_StatusCode result \<noteq> SgxReportSuc then (200, None) else (200, Some result)))"

section \<open>The tag channel\<close>

text \<open>
  \<open>Ch_Tag\<close> holds one tag.  Each accepted callback starts a goroutine that looks at the length,
  takes the tag out when there is one, and puts its own in; the steps of several goroutines and of
  the receiver interleave.  \<open>Checking\<close>, \<open>Draining\<close> and \<open>Putting\<close> are the places in that
  code; a step that finds the channel as it must not be waits.
\<close>

datatype place = Checking | Draining | Putting

record tag_chan =
  tc_buf :: "PoDR2PubData option"
  tc_go :: "(place \<times> PoDR2PubData) list"

datatype tag_event = Post PoDR2PubData | Internal | Receive PoDR2PubData

inductive tag_step :: "tag_chan \<Rightarrow> tag_event \<Rightarrow> tag_chan \<Rightarrow> bool" where
  post: "tag_step s (Post r) (s\<lparr>tc_go := tc_go s @ [(Checking, r)]\<rparr>)"
| check: "tc_go s = xs @ (Checking, r) # ys \<Longrightarrow>
    tag_step s Internal (s\<lparr>tc_go := xs @ (if tc_buf s \<noteq> None then Draining else Putting, r) # ys\<rparr>)"
| drain: "tc_go s = xs @ (Draining, r) # ys \<Longrightarrow> tc_buf s = Some old \<Longrightarrow>
    tag_step s Internal (s\<lparr>tc_buf := None, tc_go := xs @ (Putting, r) # ys\<rparr>)"
| put: "tc_go s = xs @ (Putting, r) # ys \<Longrightarrow> tc_buf s = None \<Longrightarrow>
    tag_step s Internal (s\<lparr>tc_buf := Some r, tc_go := xs @ ys\<rparr>)"
| receive: "tc_buf s = Some r \<Longrightarrow> tag_step s (Receive r) (s\<lparr>tc_buf := None\<rparr>)"

inductive_cases tag_stepE: "tag_step s e s'"

section \<open>Asking for a tag\<close>

record StorageTagType =
  st_Name :: bytes
  st_N :: int
  st_U :: bytes
  st_SigAbove :: bytes
  st_Phi :: "bytes list"
  st_SigRootHash :: bytes
  st_E :: string
  st_KeyN :: string

text \<open>The slices of a tag come from decoders and are never nil; the list of \<open>phi\<close> may be.\<close>

definition json_slice :: "bytes \<Rightarrow> json" where
  "json_slice bs = JStr (b64_encode bs)"

definition json_of_tag :: "StorageTagType \<Rightarrow> json" where
  "json_of_tag tag = JObj
     [(''T'', JObj [(''name'', json_slice (st_Name tag)), (''n'', json_int (st_N tag)),
        (''u'', json_slice (st_U tag)), (''SigAbove'', json_slice (st_SigAbove tag))]),
      (''phi'', if st_Phi tag = [] then JNull else JArr (map json_slice (st_Phi tag))),
      (''sig_root_hash'', json_slice (st_SigRootHash tag)),
      (''e'', JStr (st_E tag)), (''n'', JStr (st_KeyN tag))]"

record save_io =
  sv_open :: "go_error option"
  sv_write :: "go_error option"
  sv_sync :: "go_error option"

text \<open>A failed write leaves the file that was opened; the caller removes it.\<close>

definition saveTagToFile :: "save_io \<Rightarrow> string \<Rightarrow> StorageTagType \<Rightarrow> disk \<Rightarrow> disk \<times> go_error option" where
  "saveTagToFile io fpath tag d =
     (case sv_open io of
        Some err \<Rightarrow> (d, Some err)
      | None \<Rightarrow>
          (case sv_write io of
             Some err \<Rightarrow> (put_file fpath [] d, Some err)
           | None \<Rightarrow> (put_file fpath (bytes_of_string (print_json (json_of_tag tag))) d, sv_sync io)))"

text \<open>
  The request to the enclave.  \<open>http_post\<close> is the client: the error, if any, of posting a body to a
  URL.  The status of the answer is not looked at.  \<open>NewRequest\<close> does not fail on the URL that is
  built here, a constant with a port.
\<close>

record PubRSARequest =
  rq_FilePath :: string
  rq_BlockSize :: int
  rq_CallbackUrl :: string

definition json_of_request :: "PubRSARequest \<Rightarrow> json" where
  "json_of_request param = JObj
     [(''file_path'', JStr (rq_FilePath param)), (''block_size'', json_int (rq_BlockSize param)),
      (''callback_url'', JStr (rq_CallbackUrl param))]"

type_synonym http_post = "string \<Rightarrow> bytes \<Rightarrow> go_error option"

definition getTagReq ::
  "http_post \<Rightarrow> string \<Rightarrow> int \<Rightarrow> nat \<Rightarrow> string \<Rightarrow> string \<Rightarrow> string \<Rightarrow> go_error option" where
  "getTagReq http fpath blocksize callbackPort callUrl callbackRouter callbackIp =
     (let callbackurl = ''http://'' @ callbackIp @ '':'' @ show_nat callbackPort @ callbackRouter;
          param = \<lparr>rq_FilePath = SgxMappingPath @ fpath, rq_BlockSize = blocksize, rq_CallbackUrl = callbackurl\<rparr>
      in http callUrl (bytes_of_string (print_json (json_of_request param))))"

definition callTagUrl :: "confile \<Rightarrow> string" where
  "callTagUrl conf = Localhost @ '':'' @ show_nat (unat (GetSgxPort conf)) @ GetTagRoute"

text \<open>\<open>big.Int.Bytes\<close> of each element; one that is no number is a nil pointer, and panics.\<close>

fun phi_bytes :: "string list \<Rightarrow> bytes list outcome" where
  "phi_bytes [] = Ret []"
| "phi_bytes (v # vs) =
     (case SetString10 v of
        None \<Rightarrow> Panic
      | Some phi_big \<Rightarrow> bind_outcome (phi_bytes vs) (\<lambda>r. Ret (big_Bytes (nat \<bar>phi_big\<bar>) # r)))"

text \<open>The tag that is saved, from the posted one: the decoding errors in the order of the code.\<close>

definition tag_of_post :: "PoDR2PubData \<Rightarrow> (go_error + StorageTagType) outcome" where
  "tag_of_post tag =
     (case b64_decode (pd_U tag) of
        None \<Rightarrow> Ret (Inl ''illegal base64 data'')
      | Some u \<Rightarrow>
          (case b64_decode (pd_Name tag) of
             None \<Rightarrow> Ret (Inl ''illegal base64 data'')
           | Some nm \<Rightarrow>
               (case hex_DecodeString (pd_SigAbove tag) of
                  Inl err \<Rightarrow> Ret (Inl err)
                | Inr sig \<Rightarrow>
                    (case phi_bytes (pd_Phi tag) of
                       Panic \<Rightarrow> Panic
                     | Ret phi \<Rightarrow>
                         (case hex_DecodeString (pd_SigRootHash tag) of
                            Inl err \<Rightarrow> Ret (Inl err)
                          | Inr root \<Rightarrow> Ret (Inr
                              \<lparr>st_Name = nm, st_N = pd_N tag, st_U = u, st_SigAbove = sig, st_Phi = phi,
                               st_SigRootHash = root, st_E = pd_E tag, st_KeyN = pd_KeyN tag\<rparr>))))))"

text \<open>The key of a tag is put into the cache and loaded when no key can be had.\<close>

definition adopt_key :: "'c Cacher \<Rightarrow> PoDR2PubData \<Rightarrow> 'c \<times> RSAKeyPair \<Rightarrow> 'c \<times> RSAKeyPair" where
  "adopt_key C tag st =
     (case st of (c, key) \<Rightarrow>
       (case GetKey C (Some c) key of
          (key1, None) \<Rightarrow> (c, key1)
        | (key1, Some err) \<Rightarrow>
            let c1 = fst (cPut C c (bytes_of_string SigKey_E) (bytes_of_string (pd_E tag)));
                c2 = fst (cPut C c1 (bytes_of_string SigKey_N) (bytes_of_string (pd_KeyN tag))) in
            (c2, fst (SetKey C (Some c2) key1))))"

record 'c tag_state =
  ts_disk :: disk
  ts_cache :: 'c
  ts_key :: RSAKeyPair
  ts_ch :: "PoDR2PubData option"

record tag_io =
  ti_http :: http_post
  ti_arrives :: "PoDR2PubData option"
  ti_save :: save_io

text \<open>
  \<open>RequestAndSaveTag\<close>, which runs with \<open>workLock\<close> held and releases it on every path.  The tag
  is what the channel holds, or what arrives before the timeout; nothing ties it to \<open>fpath\<close>.
\<close>

definition RequestAndSaveTag ::
  "confile \<Rightarrow> 'c Cacher \<Rightarrow> tag_io \<Rightarrow> string \<Rightarrow> string \<Rightarrow> 'c tag_state \<Rightarrow> go_error option outcome \<times> 'c tag_state" where
  "RequestAndSaveTag conf C io fpath tagpath s =
     (case getTagReq (ti_http io) fpath (int BlockSize) SgxCallBackPort (callTagUrl conf)
             GetTagRoute_Callback (GetServiceAddr conf) of
        Some err \<Rightarrow> (Ret (Some err), s)
      | None \<Rightarrow>
          (case (case ts_ch s of Some tag \<Rightarrow> Some tag | None \<Rightarrow> ti_arrives io) of
             None \<Rightarrow> (Ret (Some ''Timeout waiting for calculation tag''), s)
           | Some tag \<Rightarrow>
               let s1 = s\<lparr>ts_ch := None\<rparr> in
               (case tag_of_post tag of
                  Panic \<Rightarrow> (Panic, s1)
                | Ret (Inl err) \<Rightarrow> (Ret (Some err), s1)
                | Ret (Inr tagSave) \<Rightarrow>
                    (case saveTagToFile (ti_save io) tagpath tagSave (ts_disk s1) of
                       (d, Some err) \<Rightarrow> (Ret (Some err), s1\<lparr>ts_disk := remove_file tagpath d\<rparr>)
                     | (d, None) \<Rightarrow>
                         (case adopt_key C tag (ts_cache s1, ts_key s1) of
                            (c, key) \<Rightarrow>
                              (if SetString10 (pd_E tag) = None then Panic else Ret None,
                               s1\<lparr>ts_disk := d, ts_cache := c, ts_key := key\<rparr>))))))"

section \<open>The task\<close>

record Filler =
  f_Hash :: string
  f_FillerPath :: string
  f_TagPath :: string

text \<open>
  One pass of the inner loop: a filler and its tag, and the element for \<open>C_Filler\<close>.  \<open>Panic\<close>
  ends the task, which the manager starts again.
\<close>

record pass_io =
  pi_fpath :: string
  pi_filler :: filler_io
  pi_tag :: tag_io

definition filler_pass ::
  "(bytes \<Rightarrow> bytes) \<Rightarrow> confile \<Rightarrow> 'c Cacher \<Rightarrow> string \<Rightarrow> pass_io \<Rightarrow> 'c tag_state \<Rightarrow> Filler option outcome \<times> 'c tag_state" where
  "filler_pass sha256 conf C dir io s =
     (case GenerateFiller sha256 (pi_filler io) dir (pi_fpath io) (ts_disk s) of
        (Panic, d) \<Rightarrow> (Panic, s\<lparr>ts_disk := d\<rparr>)
      | (Ret (Inl err), d) \<Rightarrow> (Ret None, s\<lparr>ts_disk := d\<rparr>)
      | (Ret (Inr fillerpath), d) \<Rightarrow>
          (case RequestAndSaveTag conf C (pi_tag io) fillerpath (fillerpath @ TagFileExt) (s\<lparr>ts_disk := d\<rparr>) of
             (Panic, s1) \<Rightarrow> (Panic, s1)
           | (Ret (Some err), s1) \<Rightarrow> (Ret None, s1\<lparr>ts_disk := remove_file fillerpath (ts_disk s1)\<rparr>)
           | (Ret None, s1) \<Rightarrow>
               (Ret (Some \<lparr>f_Hash = filepath_Base fillerpath, f_FillerPath = fillerpath,
                           f_TagPath = fillerpath @ TagFileExt\<rparr>), s1)))"

text \<open>The inner loop runs while the channel has room; \<open>ios\<close> are the passes it makes.\<close>

fun task_GenerateFiller ::
  "(bytes \<Rightarrow> bytes) \<Rightarrow> confile \<Rightarrow> 'c Cacher \<Rightarrow> string \<Rightarrow> pass_io list \<Rightarrow> Filler list \<Rightarrow> 'c tag_state
   \<Rightarrow> unit outcome \<times> Filler list \<times> 'c tag_state" where
  "task_GenerateFiller sha256 conf C dir [] ch s = (Ret (), ch, s)"
| "task_GenerateFiller sha256 conf C dir (io # ios) ch s =
     (if length ch < Num_Filler_Reserved then
        (case filler_pass sha256 conf C dir io s of
           (Panic, s1) \<Rightarrow> (Panic, ch, s1)
         | (Ret None, s1) \<Rightarrow> task_GenerateFiller sha256 conf C dir ios ch s1
         | (Ret (Some f), s1) \<Rightarrow> task_GenerateFiller sha256 conf C dir ios (ch @ [f]) s1)
      else task_GenerateFiller sha256 conf C dir ios ch s)"

end
