(* ===== verification/FillerProps.thy ===== *)
theory FillerProps
  imports FillerGen
begin

text \<open>
  What the generation of fillers leaves on the disk, what a tag request saves, and what the tag
  channel may do with the tags posted to it.
\<close>

section \<open>Files and names\<close>

definition filler_row_count :: nat where "filler_row_count = FillerSize div FillerLineLength"

lemma filler_row_count [simp]: "filler_row_count = 2048"
  by (simp add: filler_row_count_def size_defs)

lemma length_filler_row [simp]: "length (filler_row src) = FillerLineLength"
  by (simp add: filler_row_def FillerLineLength_def)

lemma length_filler_rows:
  "length (filler_rows io n) = FillerLineLength * length (filter (fio_written io) [0..<n])"
  by (induction n) (simp_all add: filler_rows_def)

lemma filler_rows_full:
  "length (filler_rows io filler_row_count) = FillerSize \<longleftrightarrow> (\<forall>i < 2048. fio_written io i)"
proof -
  have "length (filter P [0..<n]) = n \<longleftrightarrow> (\<forall>i < n. P i)" for P and n :: nat
  proof -
    have "length (filter P [0..<n]) = length [0..<n] \<longleftrightarrow> filter P [0..<n] = [0..<n]"
      by (metis length_filter_less linorder_neq_iff filter_id_conv)
    then show ?thesis by (auto simp: filter_id_conv)
  qed
  from this [where P = "fio_written io" and n = 2048] show ?thesis
    by (simp add: length_filler_rows size_defs)
qed

lemma hex_char_plain: "d < 16 \<Longrightarrow> hex_char d \<notin> {CHR ''/'', CHR ''.''}"
  by (auto simp: hex_char_def char_of_eq_iff take_bit_nat_def)

lemma hex_plain: "set (hex_EncodeToString bs) \<inter> {CHR ''/'', CHR ''.''} = {}"
proof -
  have "unat (b :: byte) div 16 < 16" for b using unat_byte_lt [of b] by linarith
  then have "set (hex_byte b) \<inter> {CHR ''/'', CHR ''.''} = {}" for b
    using hex_char_plain [of "unat b div 16"] hex_char_plain [of "unat b mod 16"] by (simp add: hex_byte_def)
  then show ?thesis by (auto simp: hex_EncodeToString_def)
qed

lemma simple_names:
  "simple_name (show_nat n)" "length h = 32 \<Longrightarrow> simple_name (hex_EncodeToString h)"
proof -
  show "simple_name (show_nat n)"
    using sep_notin_show_nat(1,3) [of n] by (cases "show_nat n") (auto simp: simple_name_def)
  show "simple_name (hex_EncodeToString h)" if "length h = 32"
  proof -
    have "length (hex_EncodeToString h) = 64" using that by simp
    then have "hex_EncodeToString h \<noteq> []" by (metis list.size(3) zero_neq_numeral)
    then show ?thesis using hex_plain [of h] by (auto simp: simple_name_def)
  qed
qed

text \<open>A time has at most 19 digits, a digest 64: the temporary name is never the final one.\<close>

lemma filler_names_differ:
  assumes "clean_dir dir" "t < 2 ^ 63" "length h = 32"
  shows "filepath_Join [dir, show_nat t] \<noteq> filepath_Join [dir, hex_EncodeToString h]"
proof -
  have "length (show_nat t) \<le> 19"
  proof (rule length_show_nat)
    have "(2 :: nat) ^ 63 < 10 ^ 19" by simp
    with assms(2) show "t < 10 ^ 19" by (rule less_trans)
  qed simp
  moreover have "length (hex_EncodeToString h) = 64" using assms(3) by simp
  ultimately show ?thesis
    using Join_simple [OF assms(1) simple_names(1)] Join_simple [OF assms(1) simple_names(2) [OF assms(3)]]
    by auto
qed

definition filler_ok :: "filler_io \<Rightarrow> bool" where
  "filler_ok io = (fio_open io = None \<and> fio_sync io = None \<and> (\<forall>i < 2048. fio_written io i)
     \<and> fio_hash io = None \<and> fio_rename io = None)"

definition filler_path :: "(bytes \<Rightarrow> bytes) \<Rightarrow> string \<Rightarrow> filler_io \<Rightarrow> string" where
  "filler_path sha256 dir io = filepath_Join [dir, CalcFileSHA256 sha256 (filler_rows io 2048)]"

lemma content_rename [simp]:
  "content (rename_file a b d) q =
     (case content d a of None \<Rightarrow> content d q | Some bs \<Rightarrow> if q = a then None else if q = b then Some bs else content d q)"
  by (simp add: rename_file_def split: option.split)

section \<open>Properties of fillers\<close>

text \<open>
  With no fault the filler that is generated has 8 MiB: 2048 rows of 4095 letters and a line
  break.  It lies in the directory under its SHA-256 digest, and no other file has changed.  With
  a fault, a row that was not written included, there is an error and nothing is left behind.
\<close>

theorem filler_is_complete_or_absent:
  assumes "clean_dir dir" "t < 2 ^ 63" "\<And>bs. length (sha256 bs) = 32"
    and "content d (filepath_Join [dir, show_nat t]) = None"
  shows "(filler_ok io \<longrightarrow> (\<exists>D. GenerateFiller sha256 io dir (filepath_Join [dir, show_nat t]) d
              = (Ret (Inr (filler_path sha256 dir io)), D)
            \<and> content D = (content d)(filler_path sha256 dir io \<mapsto> concat (map (\<lambda>i. filler_row (fio_src io i)) [0..<2048]))
            \<and> length (concat (map (\<lambda>i. filler_row (fio_src io i)) [0..<2048])) = FillerSize))
       \<and> (\<not> filler_ok io \<longrightarrow> (\<exists>err D. GenerateFiller sha256 io dir (filepath_Join [dir, show_nat t]) d = (Ret (Inl err), D)
            \<and> content D = content d))"
proof (intro conjI impI)
  let ?p = "filepath_Join [dir, show_nat t]" and ?bs = "filler_rows io 2048"
  have rows: "FillerSize div FillerLineLength = 2048" by (simp add: size_defs)
  have size: "length ?bs = FillerSize \<longleftrightarrow> (\<forall>i < 2048. fio_written io i)"
    using filler_rows_full [of io] by simp
  have differ: "?p \<noteq> filler_path sha256 dir io"
    using filler_names_differ [OF assms(1-3)] by (simp add: filler_path_def CalcFileSHA256_def)
  show "\<exists>D. GenerateFiller sha256 io dir ?p d = (Ret (Inr (filler_path sha256 dir io)), D)
      \<and> content D = (content d)(filler_path sha256 dir io \<mapsto> concat (map (\<lambda>i. filler_row (fio_src io i)) [0..<2048]))
      \<and> length (concat (map (\<lambda>i. filler_row (fio_src io i)) [0..<2048])) = FillerSize"
    if ok: "filler_ok io"
  proof -
    have all: "?bs = concat (map (\<lambda>i. filler_row (fio_src io i)) [0..<2048])"
      unfolding filler_rows_def by (rule arg_cong [where f = concat]) (use ok in \<open>auto simp: filler_ok_def\<close>)
    have len: "length ?bs = FillerSize" using size ok by (simp add: filler_ok_def)
    show ?thesis
      unfolding all [symmetric]
      using ok len differ assms(4)
      by (auto simp: GenerateFiller_def generateFiller_def filler_ok_def rows Let_def filler_path_def fun_eq_iff)
  qed
  show "\<exists>err D. GenerateFiller sha256 io dir ?p d = (Ret (Inl err), D) \<and> content D = content d"
    if bad: "\<not> filler_ok io"
  proof -
    show ?thesis
      using bad size assms(4)
      by (auto simp: GenerateFiller_def generateFiller_def filler_ok_def rows Let_def fun_eq_iff split: option.split)
  qed
qed

definition calm_filler :: filler_io where
  "calm_filler = \<lparr>fio_open = None, fio_src = (\<lambda>_ _. 0), fio_written = (\<lambda>_. True), fio_sync = None,
     fio_hash = None, fio_rename = None\<rparr>"

theorem filler_is_complete_or_absent_witness:
  "\<exists>D. GenerateFiller (\<lambda>_. replicate 32 0) calm_filler ''/filler'' (filepath_Join [''/filler'', show_nat 5]) []
      = (Ret (Inr (filler_path (\<lambda>_. replicate 32 0) ''/filler'' calm_filler)), D)
    \<and> content D = (content [])(filler_path (\<lambda>_. replicate 32 0) ''/filler'' calm_filler
        \<mapsto> concat (map (\<lambda>i. filler_row (fio_src calm_filler i)) [0..<2048]))"
proof -
  have "clean_dir ''/filler''"
    unfolding clean_dir_def by (rule exI [of _ "[''filler'']"]) (simp add: simple_name_def)
  moreover have "filler_ok calm_filler" by (simp add: calm_filler_def filler_ok_def)
  moreover have "content [] p = None" for p by (simp add: content_def)
  ultimately show ?thesis
    using filler_is_complete_or_absent [of "''/filler''" 5 "\<lambda>_. replicate 32 0" "[]" calm_filler] by auto
qed

section \<open>The tag channel\<close>

fun posted :: "tag_event list \<Rightarrow> PoDR2PubData list" where
  "posted [] = []"
| "posted (Post r # es) = r # posted es"
| "posted (_ # es) = posted es"

fun received :: "tag_event list \<Rightarrow> PoDR2PubData list" where
  "received [] = []"
| "received (Receive r # es) = r # received es"
| "received (_ # es) = received es"

definition empty_chan :: tag_chan where "empty_chan = \<lparr>tc_buf = None, tc_go = []\<rparr>"

definition in_chan :: "tag_chan \<Rightarrow> PoDR2PubData multiset" where
  "in_chan s = mset (map snd (tc_go s)) + mset (case tc_buf s of None \<Rightarrow> [] | Some r \<Rightarrow> [r])"

lemma posted_append: "posted (es @ fs) = posted es @ posted fs"
  by (induction es rule: posted.induct) simp_all

lemma received_append: "received (es @ fs) = received es @ received fs"
  by (induction es rule: received.induct) simp_all

lemma tag_step_conserves:
  "tag_step s e s' \<Longrightarrow> mset (received [e]) + in_chan s' \<subseteq># mset (posted [e]) + in_chan s"
  by (erule tag_stepE) (simp_all add: in_chan_def)

interpretation tags: conserving tag_step in_chan posted received
  by unfold_locales (rule tag_step_conserves posted_append received_append; assumption?)+



text \<open>
  A goroutine that is overtaken by a request, between its look at the channel and its taking
  the old tag out, waits; when a later callback has put its tag, the waiting one takes that out
  and puts its own, older tag.  The next request gets the older tag, and the newer is lost.
\<close>

theorem older_tag_replaces_newer:
  "\<exists>es s. runs tag_step empty_chan es s \<and> posted es = [r0, r1, r2] \<and> received es = [r0]
     \<and> s = \<lparr>tc_buf = Some r1, tc_go = []\<rparr>"
proof -
  let ?go = "\<lambda>b gs. \<lparr>tc_buf = b, tc_go = gs\<rparr>"
  have 1: "tag_step empty_chan (Post r0) (?go None [(Checking, r0)])"
    using tag_step.post [of empty_chan r0] by (simp add: empty_chan_def)
  have 2: "tag_step (?go None [(Checking, r0)]) Internal (?go None [(Putting, r0)])"
    using tag_step.check [of "?go None [(Checking, r0)]" "[]" r0 "[]"] by simp
  have 3: "tag_step (?go None [(Putting, r0)]) Internal (?go (Some r0) [])"
    using tag_step.put [of "?go None [(Putting, r0)]" "[]" r0 "[]"] by simp
  have 4: "tag_step (?go (Some r0) []) (Post r1) (?go (Some r0) [(Checking, r1)])"
    using tag_step.post [of "?go (Some r0) []" r1] by simp
  have 5: "tag_step (?go (Some r0) [(Checking, r1)]) Internal (?go (Some r0) [(Draining, r1)])"
    using tag_step.check [of "?go (Some r0) [(Checking, r1)]" "[]" r1 "[]"] by simp
  have 6: "tag_step (?go (Some r0) [(Draining, r1)]) (Receive r0) (?go None [(Draining, r1)])"
    using tag_step.receive [of "?go (Some r0) [(Draining, r1)]" r0] by simp
  have 7: "tag_step (?go None [(Draining, r1)]) (Post r2) (?go None [(Draining, r1), (Checking, r2)])"
    using tag_step.post [of "?go None [(Draining, r1)]" r2] by simp
  have 8: "tag_step (?go None [(Draining, r1), (Checking, r2)]) Internal (?go None [(Draining, r1), (Putting, r2)])"
    using tag_step.check [of "?go None [(Draining, r1), (Checking, r2)]" "[(Draining, r1)]" r2 "[]"] by simp
  have 9: "tag_step (?go None [(Draining, r1), (Putting, r2)]) Internal (?go (Some r2) [(Draining, r1)])"
    using tag_step.put [of "?go None [(Draining, r1), (Putting, r2)]" "[(Draining, r1)]" r2 "[]"] by simp
  have 10: "tag_step (?go (Some r2) [(Draining, r1)]) Internal (?go None [(Putting, r1)])"
    using tag_step.drain [of "?go (Some r2) [(Draining, r1)]" "[]" r1 "[]" r2] by simp
  have 11: "tag_step (?go None [(Putting, r1)]) Internal (?go (Some r1) [])"
    using tag_step.put [of "?go None [(Putting, r1)]" "[]" r1 "[]"] by simp
  note steps = runs_more [OF 1 runs_more [OF 2 runs_more [OF 3 runs_more [OF 4
    runs_more [OF 5 runs_more [OF 6 runs_more [OF 7 runs_more [OF 8
    runs_more [OF 9 runs_more [OF 10 runs_one [where step = tag_step, OF 11]]]]]]]]]]]
  show ?thesis by (intro exI conjI, rule steps) simp_all
qed

section \<open>The tag request\<close>

lemma valid_number_minus: "valid_number l \<Longrightarrow> is_digit (hd l) \<Longrightarrow> valid_number (CHR ''-'' # l)"
  using not_digit_sign by (cases l) (auto simp: valid_number_def num_char_def)

lemma json_ok_int [simp]: "json_ok (json_int i)"
proof -
  have "is_digit (hd (show_nat n))" for n
    using list_all_is_digit_show_nat [of n] show_nat_nonempty [of n] by (cases "show_nat n") auto
  then show ?thesis by (simp add: json_int_def valid_number_minus)
qed

lemma parse_saved_tag: "parse_json (print_json (json_of_tag tag)) = Some (json_of_tag tag)"
  by (rule parse_json_print) (auto simp: json_of_tag_def json_slice_def)

lemma phi_bytes_show: "phi_bytes (map show_nat phi) = Ret (map big_Bytes phi)"
  by (induction phi) simp_all

text \<open>A posted tag whose texts encode the bytes and numbers of a tag.\<close>

definition encodes :: "PoDR2PubData \<Rightarrow> StorageTagType \<Rightarrow> nat list \<Rightarrow> bool" where
  "encodes post tag phi \<longleftrightarrow>
     pd_U post = b64_encode (st_U tag) \<and> pd_Name post = b64_encode (st_Name tag) \<and> pd_N post = st_N tag
     \<and> pd_SigAbove post = hex_EncodeToString (st_SigAbove tag)
     \<and> pd_Phi post = map show_nat phi \<and> st_Phi tag = map big_Bytes phi
     \<and> pd_SigRootHash post = hex_EncodeToString (st_SigRootHash tag)
     \<and> pd_E post = st_E tag \<and> pd_KeyN post = st_KeyN tag"

lemma tag_of_post_encodes: "encodes post tag phi \<Longrightarrow> tag_of_post post = Ret (Inr tag)"
  by (simp add: encodes_def tag_of_post_def phi_bytes_show)

definition save_succeeds :: "save_io \<Rightarrow> bool" where
  "save_succeeds io = (sv_open io = None \<and> sv_write io = None \<and> sv_sync io = None)"

text \<open>
  The body of a request, as the enclave reads it: the file under the mapping path, blocks of two
  kilobytes, and the callback at the address of the service.
\<close>

definition asks_tag :: "confile \<Rightarrow> string \<Rightarrow> bytes \<Rightarrow> bool" where
  "asks_tag conf fpath body \<longleftrightarrow>
     parse_json (string_of_bytes body) = Some (JObj
       [(''file_path'', JStr (''/sgx'' @ fpath)), (''block_size'', json_int 2048),
        (''callback_url'', JStr (''http://'' @ cf_ServiceAddr conf @ '':15001/tag''))])"

text \<open>The enclave takes every request for the tag of the file.\<close>

definition enclave_takes :: "confile \<Rightarrow> tag_io \<Rightarrow> string \<Rightarrow> bool" where
  "enclave_takes conf io fpath \<longleftrightarrow>
     (\<forall>body. asks_tag conf fpath body \<longrightarrow>
        ti_http io (''http://localhost:'' @ show_nat (unat (cf_SgxPort conf)) @ ''/process_data'') body = None)"

lemma getTagReq_taken:
  assumes "enclave_takes conf io fpath"
  shows "getTagReq (ti_http io) fpath (int BlockSize) SgxCallBackPort (callTagUrl conf)
     GetTagRoute_Callback (GetServiceAddr conf) = None"
proof -
  have port: "show_nat 15001 = ''15001''" by (simp add: show_nat.simps digit_char_def char_of_eq_iff take_bit_nat_def)
  have ok: "json_ok (json_of_request param)" for param by (simp add: json_of_request_def)
  have "asks_tag conf fpath (bytes_of_string (print_json (json_of_request
      \<lparr>rq_FilePath = SgxMappingPath @ fpath, rq_BlockSize = int BlockSize,
       rq_CallbackUrl = ''http://'' @ GetServiceAddr conf @ '':'' @ show_nat SgxCallBackPort @ GetTagRoute_Callback\<rparr>)))"
    unfolding asks_tag_def string_of_bytes_of_string parse_json_print [OF ok]
    by (simp add: json_of_request_def GetServiceAddr_def route_defs size_defs port)
  then show ?thesis
    using assms by (simp add: getTagReq_def enclave_takes_def callTagUrl_def confile_getters route_defs)
qed

text \<open>What a request leaves when a tag comes and is saved.\<close>

lemma RequestAndSaveTag_saves:
  assumes "enclave_takes conf io fpath" "save_succeeds (ti_save io)" "tag_of_post post = Ret (Inr tag)"
    and "ts_ch s = Some post \<or> ts_ch s = None \<and> ti_arrives io = Some post"
  shows "RequestAndSaveTag conf C io fpath tagpath s
    = (if SetString10 (pd_E post) = None then Panic else Ret None,
       s\<lparr>ts_ch := None, ts_disk := put_file tagpath (bytes_of_string (print_json (json_of_tag tag))) (ts_disk s),
         ts_cache := fst (adopt_key C post (ts_cache s, ts_key s)),
         ts_key := snd (adopt_key C post (ts_cache s, ts_key s))\<rparr>)"
  using assms(2-) getTagReq_taken [OF assms(1)]
  by (auto simp: RequestAndSaveTag_def saveTagToFile_def save_succeeds_def Let_def split: prod.split option.splits)

lemma adopt_key_known: "\<not> key_unset key \<Longrightarrow> adopt_key C post (c, key) = (c, key)"
  by (simp add: adopt_key_def)

text \<open>
  C35: When the enclave takes the request, whose body names the file under the mapping path, the block
  size and the callback of this scheduler, and its tag is posted while it is waited for, the tag is
  saved: the tag file holds JSON text that parses to the decoded name, number, points and signatures.
  The channel is empty again, no other file has changed, and a key that is known is kept.
\<close>

theorem requested_tag_is_saved:
  assumes "enclave_takes conf io fpath" "save_succeeds (ti_save io)" "encodes post tag phi" "st_E tag = show_nat e"
    and "ts_ch s = None" "ti_arrives io = Some post" "\<not> key_unset (ts_key s)"
  shows "\<exists>D bs. RequestAndSaveTag conf C io fpath tagpath s = (Ret None, s\<lparr>ts_disk := D\<rparr>)
     \<and> content D = (content (ts_disk s))(tagpath \<mapsto> bs)
     \<and> parse_json (string_of_bytes bs) = Some (json_of_tag tag)"
proof -
  have e: "pd_E post = show_nat e" using assms(3,4) by (simp add: encodes_def)
  let ?bs = "bytes_of_string (print_json (json_of_tag tag))"
  have empty: "s\<lparr>ts_ch := None, ts_disk := d, ts_cache := ts_cache s, ts_key := ts_key s\<rparr> = s\<lparr>ts_disk := d\<rparr>" for d
    using assms(5) by (cases s) simp
  have "RequestAndSaveTag conf C io fpath tagpath s = (Ret None, s\<lparr>ts_disk := put_file tagpath ?bs (ts_disk s)\<rparr>)"
    using RequestAndSaveTag_saves [OF assms(1,2) tag_of_post_encodes [OF assms(3)], of s C tagpath]
      assms(5,6) adopt_key_known [OF assms(7), of C post] e empty by simp
  moreover have "content (put_file tagpath ?bs (ts_disk s)) = (content (ts_disk s))(tagpath \<mapsto> ?bs)" by auto
  moreover have "parse_json (string_of_bytes ?bs) = Some (json_of_tag tag)" by (simp add: parse_saved_tag)
  ultimately show ?thesis by blast
qed

definition demo_tag :: StorageTagType where
  "demo_tag = \<lparr>st_Name = [1], st_N = 2, st_U = [3, 4], st_SigAbove = [5], st_Phi = [big_Bytes 300],
     st_SigRootHash = [6], st_E = show_nat 3, st_KeyN = show_nat 33\<rparr>"

definition demo_post :: PoDR2PubData where
  "demo_post = \<lparr>pd_Name = b64_encode [1], pd_N = 2, pd_U = b64_encode [3, 4],
     pd_SigAbove = hex_EncodeToString [5], pd_Phi = [show_nat 300], pd_SigRootHash = hex_EncodeToString [6],
     pd_E = show_nat 3, pd_KeyN = show_nat 33, pd_StatusCode = 100000, pd_StatusMsg = []\<rparr>"

lemma demo_encodes: "encodes demo_post demo_tag [300]"
  by (simp add: encodes_def demo_post_def demo_tag_def)

definition demo_conf :: confile where
  "demo_conf = NewConfigfile\<lparr>cf_ServiceAddr := ''10.0.0.1'', cf_SgxPort := 80\<rparr>"

definition demo_io :: "PoDR2PubData option \<Rightarrow> tag_io" where
  "demo_io arrives = \<lparr>ti_http = (\<lambda>_ _. None), ti_arrives = arrives,
     ti_save = \<lparr>sv_open = None, sv_write = None, sv_sync = None\<rparr>\<rparr>"

lemma demo_taken [simp]: "enclave_takes demo_conf (demo_io arrives) fpath"
  "ti_arrives (demo_io arrives) = arrives" "save_succeeds (ti_save (demo_io arrives))"
  by (simp_all add: enclave_takes_def demo_io_def save_succeeds_def)

theorem requested_tag_is_saved_witness:
  "\<exists>D bs. RequestAndSaveTag demo_conf mem_cache (demo_io (Some demo_post)) ''f'' ''f.tag''
       \<lparr>ts_disk = [], ts_cache = mem_db [], ts_key = \<lparr>spk_N = Some 33, spk_E = 3\<rparr>, ts_ch = None\<rparr>
      = (Ret None, \<lparr>ts_disk = D, ts_cache = mem_db [], ts_key = \<lparr>spk_N = Some 33, spk_E = 3\<rparr>, ts_ch = None\<rparr>)
     \<and> content D = (content [])(''f.tag'' \<mapsto> bs)
     \<and> parse_json (string_of_bytes bs) = Some (json_of_tag demo_tag)"
  using requested_tag_is_saved [of demo_conf "demo_io (Some demo_post)" "''f''" demo_post demo_tag "[300]" 3
    "\<lparr>ts_disk = [], ts_cache = mem_db [], ts_key = \<lparr>spk_N = Some 33, spk_E = 3\<rparr>, ts_ch = None\<rparr>" mem_cache "''f.tag''"] demo_encodes
  by (simp add: demo_tag_def [THEN arg_cong [where f = st_E]] key_unset_def)

text \<open>
  The tag of one file is saved as the tag of another.  When the tag of a file comes after its
  request has timed out, the channel keeps it, and the next request, whatever its file, takes it
  without waiting and saves it.
\<close>

theorem late_tag_is_saved_for_next_file:
  assumes "enclave_takes conf io1 fileA" "ti_arrives io1 = None" "ts_ch s = None"
    and "enclave_takes conf io2 fileB" "save_succeeds (ti_save io2)" "encodes late tag phi"
  shows "fst (RequestAndSaveTag conf C io1 fileA tagA s) = Ret (Some ''Timeout waiting for calculation tag'')
     \<and> content (ts_disk (snd (RequestAndSaveTag conf C io2 fileB tagB
          ((snd (RequestAndSaveTag conf C io1 fileA tagA s))\<lparr>ts_ch := Some late\<rparr>)))) tagB
        = Some (bytes_of_string (print_json (json_of_tag tag)))"
proof
  have first: "RequestAndSaveTag conf C io1 fileA tagA s = (Ret (Some ''Timeout waiting for calculation tag''), s)"
    using assms(2,3) getTagReq_taken [OF assms(1)] by (simp add: RequestAndSaveTag_def)
  then show "fst (RequestAndSaveTag conf C io1 fileA tagA s) = Ret (Some ''Timeout waiting for calculation tag'')"
    by simp
  show "content (ts_disk (snd (RequestAndSaveTag conf C io2 fileB tagB
        ((snd (RequestAndSaveTag conf C io1 fileA tagA s))\<lparr>ts_ch := Some late\<rparr>)))) tagB
      = Some (bytes_of_string (print_json (json_of_tag tag)))"
    using RequestAndSaveTag_saves [OF assms(4,5) tag_of_post_encodes [OF assms(6)], of "s\<lparr>ts_ch := Some late\<rparr>" C tagB]
    by (simp add: first)
qed

theorem late_tag_is_saved_for_next_file_witness:
  "content (ts_disk (snd (RequestAndSaveTag demo_conf mem_cache (demo_io None) ''b'' ''b.tag''
      ((snd (RequestAndSaveTag demo_conf mem_cache (demo_io None) ''a'' ''a.tag''
          \<lparr>ts_disk = [], ts_cache = mem_db [], ts_key = init_key, ts_ch = None\<rparr>))\<lparr>ts_ch := Some demo_post\<rparr>)))) ''b.tag''
    = Some (bytes_of_string (print_json (json_of_tag demo_tag)))"
  using late_tag_is_saved_for_next_file [of demo_conf "demo_io None" "''a''" "\<lparr>ts_disk = [], ts_cache = mem_db [], ts_key = init_key, ts_ch = None\<rparr>"
      "demo_io None" "''b''" demo_post demo_tag "[300]" mem_cache "''a.tag''" "''b.tag''"] demo_encodes
  by simp

text \<open>
  The first tag brings the verification key.  When no key is known and the cache has none, the
  exponent and the modulus of the tag are stored in the cache and become the key.
\<close>

theorem first_tag_installs_key:
  assumes "cacher C ct op" "op (ts_cache s)"
    and "ct (ts_cache s) (bytes_of_string SigKey_E) = None" "ts_key s = init_key"
    and "enclave_takes conf io fpath" "save_succeeds (ti_save io)" "encodes post tag phi"
    and "ts_ch s = None" "ti_arrives io = Some post"
    and "st_E tag = show_nat e" "st_KeyN tag = show_nat n" "e < 2 ^ 63"
    and "cPut C (ts_cache s) (bytes_of_string SigKey_E) (bytes_of_string (show_nat e)) = (c1, None)"
    and "cPut C c1 (bytes_of_string SigKey_N) (bytes_of_string (show_nat n)) = (c2, None)"
  shows "\<exists>s'. RequestAndSaveTag conf C io fpath tagpath s = (Ret None, s')
     \<and> ts_cache s' = c2 \<and> ts_key s' = \<lparr>spk_N = Some (int n), spk_E = int e\<rparr>"
proof -
  have p: "pd_E post = show_nat e" "pd_KeyN post = show_nat n" using assms(7,10,11) by (simp_all add: encodes_def)
  have get: "GetKey C (Some (ts_cache s)) (ts_key s) = (init_key, Some not_found)"
    using cacher.get_contents [OF assms(1,2), of "bytes_of_string SigKey_E"] assms(3,4)
    by (simp add: GetKey_def SetKey_def init_key_def key_unset_def)
  have "GetKey C (Some c2) init_key = (\<lparr>spk_N = Some (int n), spk_E = int e\<rparr>, None)"
    by (rule stored_key_is_loaded [OF assms(1,2,13,14,12)])
  then have set: "SetKey C (Some c2) init_key = (\<lparr>spk_N = Some (int n), spk_E = int e\<rparr>, None)"
    by (simp add: GetKey_def init_key_def key_unset_def)
  have "adopt_key C post (ts_cache s, ts_key s) = (c2, \<lparr>spk_N = Some (int n), spk_E = int e\<rparr>)"
    using get assms(13,14) p set by (simp add: adopt_key_def)
  then show ?thesis
    using RequestAndSaveTag_saves [OF assms(5,6) tag_of_post_encodes [OF assms(7)], of s C tagpath] assms(8,9) p
    by simp
qed

theorem first_tag_installs_key_witness:
  "\<exists>s'. RequestAndSaveTag demo_conf mem_cache (demo_io (Some demo_post)) ''f'' ''f.tag''
      \<lparr>ts_disk = [], ts_cache = mem_db [], ts_key = init_key, ts_ch = None\<rparr> = (Ret None, s')
     \<and> ts_cache s' = mem_db [(bytes_of_string SigKey_N, bytes_of_string (show_nat 33)),
         (bytes_of_string SigKey_E, bytes_of_string (show_nat 3))]
     \<and> ts_key s' = \<lparr>spk_N = Some (int 33), spk_E = int 3\<rparr>"
proof -
  let ?s = "\<lparr>ts_disk = [], ts_cache = mem_db [], ts_key = init_key, ts_ch = None\<rparr>"
  have e: "encodes demo_post demo_tag [300]" by (rule demo_encodes)
  have k: "st_E demo_tag = show_nat 3" "st_KeyN demo_tag = show_nat 33" by (simp_all add: demo_tag_def)
  have put1: "cPut mem_cache (mem_db []) (bytes_of_string SigKey_E) (bytes_of_string (show_nat 3))
      = (mem_db [(bytes_of_string SigKey_E, bytes_of_string (show_nat 3))], None)"
    by (simp add: mem_db_def LevelDB_defs mem_leveldb_def)
  have put2: "cPut mem_cache (mem_db [(bytes_of_string SigKey_E, bytes_of_string (show_nat 3))])
        (bytes_of_string SigKey_N) (bytes_of_string (show_nat 33))
      = (mem_db [(bytes_of_string SigKey_N, bytes_of_string (show_nat 33)),
          (bytes_of_string SigKey_E, bytes_of_string (show_nat 3))], None)"
    by (simp add: mem_db_def LevelDB_defs mem_leveldb_def key_defs)
  show ?thesis
    using first_tag_installs_key [OF mem.ldb.cacher_axioms, of ?s demo_conf "demo_io (Some demo_post)" "''f''" demo_post demo_tag "[300]"
        3 33 _ _ "''f.tag''"] e k put1 put2
    by (simp add: mem_db_def)
qed

end
