(* ===== verification/Space.thy ===== *)
theory Space
  imports Backup MinerCache FillerGen
begin

text \<open>
  The distribution of fillers to the miners (node/sub_space.go) and the list of miners that failed
  (node/param.go).  Dialing, signing and \<open>SendFile\<close> answer through the environment.
\<close>

section \<open>Failed miners\<close>

type_synonym blacklist = "u64 \<rightharpoonup> int"

text \<open>Entries are Unix seconds; the clock is read in nanoseconds.\<close>

definition black_Add :: "int \<Rightarrow> u64 \<Rightarrow> blacklist \<Rightarrow> blacklist" where
  "black_Add now peerid b = b(peerid \<mapsto> now div 1000000000)"

definition black_Delete :: "u64 \<Rightarrow> blacklist \<Rightarrow> blacklist" where
  "black_Delete peerid b = b(peerid := None)"

definition black_IsExist :: "int \<Rightarrow> u64 \<Rightarrow> blacklist \<Rightarrow> bool \<times> blacklist" where
  "black_IsExist now peerid b =
     (case b peerid of
        None \<Rightarrow> (False, b)
      | Some v \<Rightarrow>
          if now - v * 1000000000 > 10 * 1000000000 then (False, b(peerid := None)) else (True, b))"

section \<open>Dialing\<close>

text \<open>
  \<open>dialTcpServer\<close> over the network package: the address that a text resolves to, as text again, the connection
  that dialing within a time gives, and whether it is one of TCP.  The result and the connections
  that were closed.
\<close>

definition dialTcpServer ::
  "(string \<Rightarrow> go_error + string) \<Rightarrow> (nat \<Rightarrow> string \<Rightarrow> go_error + 'c) \<Rightarrow> ('c \<Rightarrow> bool) \<Rightarrow> string
   \<Rightarrow> (go_error + 'c) \<times> 'c list" where
  "dialTcpServer ResolveTCPAddr Dial isTCP address =
     (case ResolveTCPAddr address of
        Inl err \<Rightarrow> (Inl err, [])
      | Inr tcpAddr \<Rightarrow>
          (case Dial Tcp_Dial_Timeout tcpAddr of
             Inl err \<Rightarrow> (Inl err, [])
           | Inr netCon \<Rightarrow>
               if \<not> isTCP netCon then (Inl ''network conversion failed'', [netCon]) else (Inr netCon, [])))"

text \<open>Every connection that was made is returned or closed.\<close>

lemma dialTcpServer_leaks_none:
  "dialTcpServer R Dial isTCP address = (r, closed) \<Longrightarrow> R address = Inr a \<Longrightarrow> Dial Tcp_Dial_Timeout a = Inr c \<Longrightarrow>
   r = Inr c \<and> closed = [] \<and> isTCP c \<or> (\<exists>err. r = Inl err) \<and> closed = [c]"
  by (auto simp: dialTcpServer_def split: if_splits)

section \<open>One miner\<close>

text \<open>
  The submission loop ends with the first call that returns a hash, whatever its error; a loop
  that does not end is \<open>None\<close>.  \<open>submit i\<close> is what the i-th call returns.
\<close>

partial_function (option) submit_filler ::
  "(nat \<Rightarrow> (string \<times> go_error option) outcome) \<Rightarrow> nat \<Rightarrow> string outcome option" where
  "submit_filler submit i =
     (case submit i of
        Panic \<Rightarrow> Some Panic
      | Ret (txhash, err) \<Rightarrow> if txhash = [] then submit_filler submit (i + 1) else Some (Ret txhash))"

record space_io =
  sp_sign :: "go_error option outcome"
  sp_status :: bool
  sp_dial :: "go_error option"
  sp_send :: "go_error option outcome"
  sp_submit :: "nat \<Rightarrow> (string \<times> go_error option) outcome"
  sp_now :: int

record 'c space_state =
  ss_cache :: 'c
  ss_disk :: disk
  ss_black :: blacklist
  ss_locked :: bool

text \<open>
  What the goroutine of a miner sends on the channel of the task.  A panic is recovered and
  nothing is sent.
\<close>

datatype reply = Reply bool | Silent

definition zero_miner :: Cache_MinerInfo where
  "zero_miner = \<lparr>cm_Peerid = 0, cm_Ip = [], cm_Free = 0\<rparr>"

definition remove_filler :: "string \<Rightarrow> FillerMetaInfo \<Rightarrow> disk \<Rightarrow> disk" where
  "remove_filler dir meta d =
     (let fpath = filepath_Join [dir, string_of_bytes (fi_Hash meta)] in
      remove_file (fpath @ TagFileExt) (remove_file fpath d))"

text \<open>
  What follows the taking of \<open>workLock\<close>.  The deferred unlock runs on every return and panic; a
  submission loop that does not end keeps the lock.
\<close>

definition deliver_filler ::
  "string \<Rightarrow> space_io \<Rightarrow> AccountID \<Rightarrow> string list \<Rightarrow> Cache_MinerInfo \<Rightarrow> 'c space_state \<Rightarrow> (reply \<times> 'c space_state) option" where
  "deliver_filler dir io pkey fillers minerinfo s =
     (let blacken = s\<lparr>ss_black := black_Add (sp_now io) (cm_Peerid minerinfo) (ss_black s)\<rparr> in
      if sp_dial io \<noteq> None then Some (Reply False, blacken)
      else case sp_send io of
             Panic \<Rightarrow> Some (Silent, s)
           | Ret (Some err) \<Rightarrow> Some (Reply False, blacken)
           | Ret None \<Rightarrow>
               if fillers = [] then Some (Silent, s)
               else
                 (case combineFillerMeta (TrimSuffix (filepath_Base (hd fillers)) TagFileExt) pkey of
                    Panic \<Rightarrow> Some (Silent, s)
                  | Ret meta \<Rightarrow>
                      (case submit_filler (sp_submit io) 0 of
                         None \<Rightarrow> None
                       | Some Panic \<Rightarrow> Some (Silent, s)
                       | Some (Ret txhash) \<Rightarrow>
                           Some (Reply True, s\<lparr>ss_disk := remove_filler dir meta (ss_disk s)\<rparr>))))"

definition storagefiller ::
  "'c Cacher \<Rightarrow> string \<Rightarrow> space_io \<Rightarrow> AccountID \<Rightarrow> string list \<Rightarrow> 'c space_state \<Rightarrow> (reply \<times> 'c space_state) option" where
  "storagefiller C dir io pkey fillers s =
     (case sp_sign io of
        Panic \<Rightarrow> Some (Silent, s)
      | Ret (Some err) \<Rightarrow> Some (Reply False, s)
      | Ret None \<Rightarrow>
          if \<not> sp_status io then Some (Reply False, s)
          else case cGet C (ss_cache s) pkey of
                 Inl err \<Rightarrow> Some (Reply False, s)
               | Inr minercache \<Rightarrow>
                   (case unmarshal_miner minercache zero_miner of
                      (_, Some err) \<Rightarrow>
                        Some (Reply False, s\<lparr>ss_cache := fst (cDelete C (ss_cache s) pkey)\<rparr>)
                    | (minerinfo, None) \<Rightarrow>
                        if ss_locked s then None
                        else deliver_filler dir io pkey fillers minerinfo s))"

section \<open>The task\<close>

text \<open>
  One pass over the shuffled miners.  \<open>queue\<close> is what \<open>C_Filler\<close> yields.  The task waits for the
  answer of each goroutine before the next miner: after a silent one, or one that does not end, it
  waits for ever.  It also waits when the queue is empty.
\<close>

record 'c space_task =
  sk_fillers :: "string list"
  sk_queue :: "Filler list"
  sk_state :: "'c space_state"

datatype 'c space_run = Passed "'c space_task" | NoFiller "'c space_task" | Stuck "'c space_task"

definition take_filler :: "'c space_task \<Rightarrow> 'c space_task option" where
  "take_filler t =
     (if sk_fillers t \<noteq> [] then Some t
      else case sk_queue t of
             [] \<Rightarrow> None
           | f # q \<Rightarrow> Some (t\<lparr>sk_fillers := [f_TagPath f, f_FillerPath f], sk_queue := q\<rparr>))"

fun space_pass :: "'c Cacher \<Rightarrow> string \<Rightarrow> (space_io \<times> AccountID) list \<Rightarrow> 'c space_task \<Rightarrow> 'c space_run" where
  "space_pass C dir [] t = Passed t"
| "space_pass C dir ((io, pkey) # miners) t =
     (case take_filler t of
        None \<Rightarrow> NoFiller t
      | Some t1 \<Rightarrow>
          (case storagefiller C dir io pkey (sk_fillers t1) (sk_state t1) of
             None \<Rightarrow> Stuck t1
           | Some (Silent, s) \<Rightarrow> Stuck (t1\<lparr>sk_state := s\<rparr>)
           | Some (Reply result, s) \<Rightarrow>
               space_pass C dir miners
                 (t1\<lparr>sk_state := s, sk_fillers := (if result then [] else sk_fillers t1)\<rparr>)))"

text \<open>The passes: the miners of each, or the error of \<open>GetAllStorageMiner\<close>.\<close>

fun task_Space :: "'c Cacher \<Rightarrow> string \<Rightarrow> (go_error + (space_io \<times> AccountID) list) list \<Rightarrow> 'c space_task \<Rightarrow> 'c space_run" where
  "task_Space C dir [] t = Passed t"
| "task_Space C dir (Inl err # passes) t = task_Space C dir passes t"
| "task_Space C dir (Inr miners # passes) t =
     (case space_pass C dir miners t of
        Passed t1 \<Rightarrow> task_Space C dir passes t1
      | r \<Rightarrow> r)"

end
