(* ===== verification/SpaceProps.thy ===== *)
theory SpaceProps
  imports Space
begin

text \<open>
  What the space task does with its fillers: when the goroutine of a miner answers, what it leaves
  on the disk, in the cache and in the list of failed miners, and how the task can come to a halt.
\<close>

section \<open>The submission loop\<close>

lemma submit_filler_hash:
  "submit i = Ret (h, err) \<Longrightarrow> h \<noteq> [] \<Longrightarrow> submit_filler submit i = Some (Ret h)"
  by (subst submit_filler.simps) simp

lemma submit_filler_retry:
  "submit i = Ret ([], err) \<Longrightarrow> submit_filler submit i = submit_filler submit (i + 1)"
  by (subst submit_filler.simps) simp

lemma submit_filler_panic: "submit i = Panic \<Longrightarrow> submit_filler submit i = Some Panic"
  by (subst submit_filler.simps) simp

text \<open>The loop passes over the calls without a hash and ends with the first other one.\<close>

lemma submit_filler_first:
  "(\<And>j. i \<le> j \<Longrightarrow> j < i + n \<Longrightarrow> \<exists>err. submit j = Ret ([], err)) \<Longrightarrow>
   submit_filler submit i = submit_filler submit (i + n)"
proof (induction n arbitrary: i)
  case (Suc n)
  obtain err where "submit i = Ret ([], err)" using Suc.prems [of i] by auto
  then have "submit_filler submit i = submit_filler submit (i + 1)" by (rule submit_filler_retry)
  also have "\<dots> = submit_filler submit (i + 1 + n)" by (rule Suc.IH) (use Suc.prems in auto)
  finally show ?case by simp
qed simp

text \<open>What holds of the call that ends the loop, and that a loop without such a call has no end.\<close>

definition ends_with :: "(nat \<Rightarrow> (string \<times> go_error option) outcome) \<Rightarrow> nat \<Rightarrow> string outcome \<Rightarrow> bool" where
  "ends_with submit n r =
     ((\<forall>j < n. \<exists>err. submit j = Ret ([], err))
      \<and> (case r of Panic \<Rightarrow> submit n = Panic | Ret h \<Rightarrow> h \<noteq> [] \<and> (\<exists>err. submit n = Ret (h, err))))"

definition hash_less :: "(nat \<Rightarrow> (string \<times> go_error option) outcome) \<Rightarrow> nat \<Rightarrow> bool" where
  "hash_less submit i = (\<exists>err. submit i = Ret ([], err))"

lemma submit_filler_None:
  assumes "\<And>i. hash_less submit i"
  shows "submit_filler submit i = None"
proof -
  have "False" if "submit_filler submit i = Some r" for i r
  proof -
    have "submit \<noteq> submit"
    proof (rule submit_filler.raw_induct [where P = "\<lambda>sub i r. sub \<noteq> submit", OF _ that])
      fix loop sub and i :: nat and r
      assume IH: "\<And>sub i r. loop sub i = Some r \<Longrightarrow> sub \<noteq> submit"
        and step: "(case sub i of Panic \<Rightarrow> Some Panic
          | Ret (txhash, err) \<Rightarrow> if txhash = [] then loop sub (i + 1) else Some (Ret txhash)) = Some r"
      show "sub \<noteq> submit"
      proof
        assume "sub = submit"
        moreover obtain err where "submit i = Ret ([], err)" using assms [of i] by (auto simp: hash_less_def)
        ultimately show False using step IH [of sub "i + 1" r] by simp
      qed
    qed
    then show False by simp
  qed
  then show ?thesis by (cases "submit_filler submit i") auto
qed

lemma submit_filler_Some:
  "submit_filler submit 0 = Some r \<longleftrightarrow> (\<exists>n. ends_with submit n r)"
proof
  assume "\<exists>n. ends_with submit n r"
  then obtain n where n: "ends_with submit n r" by blast
  then have "submit_filler submit 0 = submit_filler submit n"
    using submit_filler_first [of 0 n submit] by (simp add: ends_with_def)
  then show "submit_filler submit 0 = Some r"
    using n submit_filler_panic [of submit n] submit_filler_hash [of submit n]
    by (cases r) (auto simp: ends_with_def)
next
  assume some: "submit_filler submit 0 = Some r"
  then have ex: "\<exists>i. \<not> hash_less submit i" using submit_filler_None [of submit 0] by auto
  define n where "n = (LEAST i. \<not> hash_less submit i)"
  have n: "\<not> hash_less submit n" unfolding n_def by (rule LeastI_ex) (rule ex)
  have before: "hash_less submit j" if "j < n" for j using not_less_Least [OF that [unfolded n_def]] by blast
  have "submit_filler submit 0 = submit_filler submit n"
    using submit_filler_first [of 0 n submit] before by (simp add: hash_less_def)
  then have "ends_with submit n r"
    using some n before submit_filler_panic [of submit n] submit_filler_hash [of submit n]
    by (cases "submit n") (auto simp: ends_with_def hash_less_def)
  then show "\<exists>n. ends_with submit n r" by blast
qed

section \<open>One miner\<close>

text \<open>A miner that can be asked: the signature, the chain and its record in the cache.\<close>

definition reachable_miner :: "'c Cacher \<Rightarrow> space_io \<Rightarrow> AccountID \<Rightarrow> Cache_MinerInfo \<Rightarrow> 'c space_state \<Rightarrow> bool" where
  "reachable_miner C io pkey mi s \<longleftrightarrow> sp_sign io = Ret None \<and> sp_status io \<and> \<not> ss_locked s
     \<and> (\<exists>bs. cGet C (ss_cache s) pkey = Inr bs \<and> unmarshal_miner bs zero_miner = (mi, None))"

lemma storagefiller_reachable:
  "reachable_miner C io pkey mi s \<Longrightarrow> storagefiller C dir io pkey fillers s = deliver_filler dir io pkey fillers mi s"
  by (auto simp: reachable_miner_def storagefiller_def)

lemma storagefiller_cases:
  assumes "storagefiller C dir io pkey fillers s = Some (r, s')"
  obtains mi where "reachable_miner C io pkey mi s" and "deliver_filler dir io pkey fillers mi s = Some (r, s')"
  | "r \<noteq> Reply True" and "ss_disk s' = ss_disk s" and "ss_black s' = ss_black s" and "ss_locked s' = ss_locked s"
proof -
  note a = assms [unfolded storagefiller_def]
  show thesis
  proof (cases "sp_sign io = Ret None \<and> sp_status io \<and> \<not> ss_locked s \<and>
      (\<exists>bs mi. cGet C (ss_cache s) pkey = Inr bs \<and> unmarshal_miner bs zero_miner = (mi, None))")
    case True
    then obtain mi where mi: "reachable_miner C io pkey mi s" by (auto simp: reachable_miner_def)
    show thesis by (rule that(1) [OF mi]) (use assms storagefiller_reachable [OF mi] in simp)
  next
    case False
    show thesis
      by (rule that(2); use a False in \<open>auto split: outcome.splits option.splits if_splits sum.splits prod.splits\<close>)
  qed
qed

text \<open>A filler handed over: its files are gone, in both cases under the name the chain was told.\<close>

definition filler_of :: "string list \<Rightarrow> string" where
  "filler_of fillers = TrimSuffix (filepath_Base (hd fillers)) TagFileExt"

lemma deliver_filler_true:
  assumes "deliver_filler dir io pkey fillers mi s = Some (Reply True, s')"
  obtains n h meta where "sp_dial io = None" and "sp_send io = Ret None"
    and "ends_with (sp_submit io) n (Ret h)" and "combineFillerMeta (filler_of fillers) pkey = Ret meta"
    and "s' = s\<lparr>ss_disk := remove_filler dir meta (ss_disk s)\<rparr>"
proof -
  from assms obtain h meta where "sp_dial io = None" "sp_send io = Ret None"
    "submit_filler (sp_submit io) 0 = Some (Ret h)" "combineFillerMeta (filler_of fillers) pkey = Ret meta"
    "s' = s\<lparr>ss_disk := remove_filler dir meta (ss_disk s)\<rparr>"
    by (auto simp: deliver_filler_def filler_of_def Let_def split: if_splits outcome.splits option.splits)
  moreover from this(3) obtain n where "ends_with (sp_submit io) n (Ret h)"
    unfolding submit_filler_Some by blast
  ultimately show thesis using that by blast
qed

lemma deliver_filler_other:
  assumes "deliver_filler dir io pkey fillers mi s = Some (r, s')" "r \<noteq> Reply True"
  shows "s' = s \<and> r = Silent \<or> s' = s\<lparr>ss_black := black_Add (sp_now io) (cm_Peerid mi) (ss_black s)\<rparr>
    \<and> r = Reply False \<and> (sp_dial io \<noteq> None \<or> (\<exists>err. sp_send io = Ret (Some err)))"
  using assms by (auto simp: deliver_filler_def Let_def split: if_splits outcome.splits option.splits)

lemma combineFillerMeta_hash: "combineFillerMeta h pkey = Ret meta \<Longrightarrow> fi_Hash meta = bytes_of_string (take 64 h)"
  by (auto simp: combineFillerMeta_def Let_def split: if_splits sum.splits)

text \<open>A miner that takes the files: the answer depends on the submission alone.\<close>

definition takes_filler :: "'c Cacher \<Rightarrow> space_io \<Rightarrow> AccountID \<Rightarrow> string list \<Rightarrow> 'c space_state \<Rightarrow> bool" where
  "takes_filler C io pkey fillers s \<longleftrightarrow> (\<exists>mi. reachable_miner C io pkey mi s) \<and> sp_dial io = None \<and> sp_send io = Ret None
     \<and> fillers \<noteq> [] \<and> 64 \<le> length (filler_of fillers) \<and> length pkey = 32"

lemma storagefiller_submits:
  assumes "takes_filler C io pkey fillers s"
  shows "\<exists>meta. fi_Hash meta = bytes_of_string (take 64 (filler_of fillers))
    \<and> storagefiller C dir io pkey fillers s =
        (case submit_filler (sp_submit io) 0 of
           None \<Rightarrow> None
         | Some Panic \<Rightarrow> Some (Silent, s)
         | Some (Ret h) \<Rightarrow> Some (Reply True, s\<lparr>ss_disk := remove_filler dir meta (ss_disk s)\<rparr>))"
proof -
  obtain mi where mi: "reachable_miner C io pkey mi s" using assms by (auto simp: takes_filler_def)
  obtain meta where m: "combineFillerMeta (filler_of fillers) pkey = Ret meta"
    using assms by (simp add: combineFillerMeta_def NewAccountID_def Let_def takes_filler_def)
  show ?thesis
    using assms m combineFillerMeta_hash [OF m]
    by (intro exI [of _ meta])
      (simp add: storagefiller_reachable [OF mi] takes_filler_def deliver_filler_def filler_of_def Let_def)
qed

section \<open>Properties\<close>

text \<open>
  C14: A filler leaves the disk only when it was handed over and told to the chain.  If the goroutine of a
  miner answers true, the miner was dialed and took the files, and the first submission that gave a
  hash, after any number that gave none, told the chain the digest in the name of the tag file; the
  two files of that digest are gone and no other file changed.  Every other answer, and a panic,
  leaves all files; only a miner that could not be dialed or refused the files is put on the list.
\<close>

theorem filler_removed_only_when_told:
  assumes "storagefiller C dir io pkey fillers s = Some (r, s')"
  shows "(r = Reply True \<longrightarrow> sp_dial io = None \<and> sp_send io = Ret None \<and>
      (\<exists>n h err. h \<noteq> [] \<and> sp_submit io n = Ret (h, err) \<and> (\<forall>j < n. \<exists>e. sp_submit io j = Ret ([], e))) \<and>
      (\<forall>q. content (ss_disk s') q =
        (let p = filepath_Join [dir, take 64 (filler_of fillers)] in
         if q = p \<or> q = p @ TagFileExt then None else content (ss_disk s) q)))
    \<and> (r \<noteq> Reply True \<longrightarrow> ss_disk s' = ss_disk s)
    \<and> (ss_black s' \<noteq> ss_black s \<longrightarrow> r = Reply False \<and> (sp_dial io \<noteq> None \<or> (\<exists>err. sp_send io = Ret (Some err))))
    \<and> ss_locked s' = ss_locked s"
  using assms
proof (rule storagefiller_cases)
  fix mi
  assume d: "deliver_filler dir io pkey fillers mi s = Some (r, s')"
  show ?thesis
  proof (cases "r = Reply True")
    case True
    with d obtain n h meta where c: "sp_dial io = None" "sp_send io = Ret None"
      "ends_with (sp_submit io) n (Ret h)" "combineFillerMeta (filler_of fillers) pkey = Ret meta"
      "s' = s\<lparr>ss_disk := remove_filler dir meta (ss_disk s)\<rparr>"
      by (metis deliver_filler_true)
    have "\<exists>n h err. h \<noteq> [] \<and> sp_submit io n = Ret (h, err) \<and> (\<forall>j < n. \<exists>e. sp_submit io j = Ret ([], e))"
      using c(3) by (auto simp: ends_with_def)
    then show ?thesis
      using c True combineFillerMeta_hash [OF c(4)] by (simp add: remove_filler_def Let_def)
  next
    case False
    then show ?thesis using deliver_filler_other [OF d False] by auto
  qed
qed simp

definition calm_space :: space_io where
  "calm_space = \<lparr>sp_sign = Ret None, sp_status = True, sp_dial = None, sp_send = Ret None,
     sp_submit = (\<lambda>i. if i = 0 then Ret ([], None) else Ret (''0x1'', None)), sp_now = 0\<rparr>"

definition demo_space :: "((bytes \<times> bytes) list \<times> bool) LevelDB space_state" where
  "demo_space = \<lparr>ss_cache = mem_db [(replicate 32 1, marshal_miner zero_miner)], ss_disk = [],
     ss_black = Map.empty, ss_locked = False\<rparr>"

definition demo_fillers :: "string list" where
  "demo_fillers = [''/f/'' @ replicate 64 CHR ''a'' @ ''.tag'', ''/f/'' @ replicate 64 CHR ''a'']"

lemma demo_reachable: "reachable_miner mem_cache calm_space (replicate 32 1) zero_miner demo_space"
proof -
  have "cGet mem_cache (ss_cache demo_space) (replicate 32 1) = Inr (marshal_miner zero_miner)"
    by (simp add: demo_space_def mem_db_def LevelDB_defs mem_leveldb_def)
  then show ?thesis by (simp add: reachable_miner_def calm_space_def demo_space_def)
qed

lemma demo_filler_name: "filler_of demo_fillers = replicate 64 CHR ''a''"
proof -
  have "filepath_Base (''/f'' @ CHR ''/'' # (replicate 64 CHR ''a'' @ ''.tag'')) = replicate 64 CHR ''a'' @ ''.tag''"
    by (rule filepath_Base_name(2)) auto
  then show ?thesis
    using TrimSuffix_append [of "replicate 64 CHR ''a''" "''.tag''"]
    by (simp add: filler_of_def demo_fillers_def TagFileExt_def)
qed

lemma demo_takes:
  "takes_filler mem_cache (calm_space\<lparr>sp_submit := f\<rparr>) (replicate 32 1) demo_fillers demo_space"
proof -
  have "reachable_miner mem_cache (calm_space\<lparr>sp_submit := f\<rparr>) (replicate 32 1) zero_miner demo_space"
    using demo_reachable by (simp add: reachable_miner_def)
  moreover have "demo_fillers \<noteq> []" by (simp add: demo_fillers_def)
  ultimately show ?thesis using demo_filler_name by (auto simp: takes_filler_def calm_space_def)
qed

lemma demo_delivered:
  "\<exists>s'. storagefiller mem_cache ''/f'' calm_space (replicate 32 1) demo_fillers demo_space = Some (Reply True, s')"
proof -
  have "submit_filler (sp_submit calm_space) 0 = Some (Ret ''0x1'')"
    unfolding submit_filler_Some
    by (intro exI [of _ 1]) (simp add: ends_with_def calm_space_def)
  then show ?thesis
    using storagefiller_submits [OF demo_takes [of "sp_submit calm_space"], of "''/f''"] by auto
qed

theorem filler_removed_only_when_told_witness:
  "\<exists>s'. storagefiller mem_cache ''/f'' calm_space (replicate 32 1) demo_fillers demo_space = Some (Reply True, s')
     \<and> ss_locked s' = ss_locked demo_space"
proof -
  obtain s' where s': "storagefiller mem_cache ''/f'' calm_space (replicate 32 1) demo_fillers demo_space = Some (Reply True, s')"
    using demo_delivered by blast
  then show ?thesis using filler_removed_only_when_told [OF s'] by blast
qed

text \<open>
  A failed transaction counts as a stored filler.  When the submission returns a hash together with
  an error, which is how a transaction without its event ends, the goroutine answers true and the
  filler and its tag are removed, though the chain did not record them.
\<close>

theorem failed_submission_drops_filler:
  assumes "takes_filler C io pkey fillers s"
    and "sp_submit io 0 = Ret (txhash, Some err)" "txhash \<noteq> []"
  shows "\<exists>s'. storagefiller C dir io pkey fillers s = Some (Reply True, s')
     \<and> content (ss_disk s') (filepath_Join [dir, take 64 (filler_of fillers)]) = None"
proof -
  have "submit_filler (sp_submit io) 0 = Some (Ret txhash)"
    using submit_filler_hash [of "sp_submit io" 0 txhash "Some err"] assms(2,3) by blast
  then show ?thesis
    using storagefiller_submits [OF assms(1), of dir] by (auto simp: remove_filler_def Let_def)
qed

theorem failed_submission_drops_filler_witness:
  "\<exists>s'. storagefiller mem_cache ''/f'' (calm_space\<lparr>sp_submit := (\<lambda>i. Ret (''0x1'', Some ''failed''))\<rparr>)
       (replicate 32 1) demo_fillers demo_space = Some (Reply True, s')
     \<and> content (ss_disk s') (filepath_Join [''/f'', take 64 (filler_of demo_fillers)]) = None"
  by (rule failed_submission_drops_filler [where txhash = "''0x1''" and err = "''failed''", OF demo_takes]) simp_all

text \<open>
  While the submission of a filler gives no hash, as it does when the chain cannot be reached, the
  goroutine goes on submitting and does not answer; it holds \<open>workLock\<close>, and the space task, which
  waits for the answer, serves no other miner.
\<close>

theorem refused_filler_halts_task:
  assumes "takes_filler C io pkey (sk_fillers t) (sk_state t)"
    and "\<And>i. \<exists>err. sp_submit io i = Ret ([], err)"
  shows "storagefiller C dir io pkey (sk_fillers t) (sk_state t) = None
     \<and> task_Space C dir (Inr ((io, pkey) # miners) # passes) t = Stuck t"
proof -
  have "submit_filler (sp_submit io) 0 = None"
    by (rule submit_filler_None) (use assms(2) in \<open>simp add: hash_less_def\<close>)
  then have "storagefiller C dir io pkey (sk_fillers t) (sk_state t) = None"
    using storagefiller_submits [OF assms(1), of dir] by auto
  then show ?thesis using assms(1) by (simp add: take_filler_def takes_filler_def)
qed

definition demo_task :: "((bytes \<times> bytes) list \<times> bool) LevelDB space_task" where
  "demo_task = \<lparr>sk_fillers = demo_fillers, sk_queue = [], sk_state = demo_space\<rparr>"

theorem refused_filler_halts_task_witness:
  "task_Space mem_cache ''/f'' [Inr [(calm_space\<lparr>sp_submit := (\<lambda>i. Ret ([], Some ''failed''))\<rparr>, replicate 32 1)], Inr []]
     demo_task = Stuck demo_task"
proof -
  have "takes_filler mem_cache (calm_space\<lparr>sp_submit := (\<lambda>i. Ret ([], Some ''failed''))\<rparr>) (replicate 32 1)
      (sk_fillers demo_task) (sk_state demo_task)"
    using demo_takes by (simp add: demo_task_def)
  from refused_filler_halts_task [OF this, of "''/f''" "[]" "[Inr []]"] show ?thesis by simp
qed

text \<open>
  A panic in the goroutine of a miner, be it in signing or in sending the files, is recovered
  without an answer: the space task waits for ever, whatever miners and passes were to come, and is not
  started again, because it has not ended.
\<close>

theorem silent_miner_halts_task:
  assumes "sk_fillers t \<noteq> []"
    and "sp_sign io = Panic \<or> (\<exists>mi. reachable_miner C io pkey mi (sk_state t)) \<and> sp_dial io = None \<and> sp_send io = Panic"
  shows "task_Space C dir (Inr ((io, pkey) # miners) # passes) t = Stuck t"
proof -
  have "storagefiller C dir io pkey (sk_fillers t) (sk_state t) = Some (Silent, sk_state t)"
    using assms(2)
  proof
    assume "sp_sign io = Panic"
    then show ?thesis by (simp add: storagefiller_def)
  next
    assume a: "(\<exists>mi. reachable_miner C io pkey mi (sk_state t)) \<and> sp_dial io = None \<and> sp_send io = Panic"
    then obtain mi where "reachable_miner C io pkey mi (sk_state t)" by blast
    with a show ?thesis by (simp add: storagefiller_reachable deliver_filler_def)
  qed
  then show ?thesis using assms(1) by (simp add: take_filler_def)
qed

theorem silent_miner_halts_task_witness:
  "task_Space mem_cache ''/f'' [Inr [(calm_space\<lparr>sp_send := Panic\<rparr>, replicate 32 1), (calm_space, replicate 32 2)]]
     demo_task = Stuck demo_task"
proof -
  have "reachable_miner mem_cache (calm_space\<lparr>sp_send := Panic\<rparr>) (replicate 32 1) zero_miner (sk_state demo_task)"
    using demo_reachable by (simp add: reachable_miner_def demo_task_def)
  moreover have "sk_fillers demo_task \<noteq> []" by (simp add: demo_task_def demo_fillers_def)
  ultimately show ?thesis
    using silent_miner_halts_task [of demo_task "calm_space\<lparr>sp_send := Panic\<rparr>" mem_cache "replicate 32 1" "''/f''"
      "[(calm_space, replicate 32 2)]" "[]"] by (auto simp: calm_space_def)
qed

end
