(* ===== verification/Tasks.thy ===== *)
theory Tasks
  imports TcpTransfer ChainTypes Steps
begin

text \<open>
  The manager that starts the five tasks again when they end (node/sub_main.go), the task that
  watches the balance (node/sub_common.go) and the loop that accepts connections (node/node.go).
\<close>

section \<open>The manager\<close>

datatype task = Task_MinerCache | Task_ValidateProof | Task_GenerateFiller | Task_Common | Task_Space

text \<open>
  For each task: its goroutines that run, those that have ended and wait to send on the channel of
  the task, and what the channel, of capacity one, holds.  A task ends by a return or by a panic.
\<close>

record manager =
  running :: "task \<Rightarrow> nat"
  ending :: "task \<Rightarrow> nat"
  signal :: "task \<Rightarrow> nat"

definition started :: manager where
  "started = \<lparr>running = (\<lambda>_. 1), ending = (\<lambda>_. 0), signal = (\<lambda>_. 0)\<rparr>"

datatype task_event = Ends task | Signals task | Restarts task

inductive mgr_step :: "manager \<Rightarrow> task_event \<Rightarrow> manager \<Rightarrow> bool" where
  ends: "running s t > 0 \<Longrightarrow>
    mgr_step s (Ends t) (s\<lparr>running := (running s)(t := running s t - 1), ending := (ending s)(t := ending s t + 1)\<rparr>)"
| signals: "ending s t > 0 \<Longrightarrow> signal s t < 1 \<Longrightarrow>
    mgr_step s (Signals t) (s\<lparr>ending := (ending s)(t := ending s t - 1), signal := (signal s)(t := signal s t + 1)\<rparr>)"
| restarts: "signal s t > 0 \<Longrightarrow>
    mgr_step s (Restarts t) (s\<lparr>signal := (signal s)(t := signal s t - 1), running := (running s)(t := running s t + 1)\<rparr>)"

inductive_cases mgr_stepE: "mgr_step s e s'"

section \<open>The balance\<close>

text \<open>
  One answer of \<open>GetAccountInfo\<close> for each minute; the process exits at the first that is below the
  minimum, and errors are passed over.  The result is the number of answers that were read.
\<close>

definition balance_low :: "go_error + AccountInfo \<Rightarrow> bool" where
  "balance_low ans = (case ans of Inl err \<Rightarrow> False | Inr info \<Rightarrow> unat (ai_Free info) < MinimumBalance)"

fun task_Common :: "(go_error + AccountInfo) list \<Rightarrow> nat \<Rightarrow> nat option" where
  "task_Common [] n = None"
| "task_Common (a # as) n = (if balance_low a then Some n else task_Common as (n + 1))"

section \<open>Accepting connections\<close>

text \<open>
  What \<open>AcceptTCP\<close> gives: an error, of a closed listener or another, or a connection with the chain
  status at that time and the bytes it will deliver.  The result is the streams a server is started
  on, and whether the process exits.
\<close>

datatype accept = AcceptError bool | Accepted bool bytes

fun Run :: "accept list \<Rightarrow> bytes list \<times> bool" where
  "Run [] = ([], False)"
| "Run (AcceptError is_closed # as) = (if is_closed then ([], True) else Run as)"
| "Run (Accepted status bs # as) =
     (if \<not> status then Run as
      else case ConnectionFiltering bs of
             (False, _) \<Rightarrow> Run as
           | (True, rest) \<Rightarrow> (case Run as of (ss, x) \<Rightarrow> (rest # ss, x)))"

section \<open>Lemmas\<close>

definition one_instance :: "manager \<Rightarrow> bool" where
  "one_instance s = (\<forall>t. running s t + ending s t + signal s t = 1)"

lemma mgr_step_one: "mgr_step s e s' \<Longrightarrow> one_instance s \<Longrightarrow> one_instance s'"
  unfolding one_instance_def
proof
  fix u
  assume step: "mgr_step s e s'" and one: "\<forall>t. running s t + ending s t + signal s t = 1"
  from one have "running s u + ending s u + signal s u = 1" by blast
  with step show "running s' u + ending s' u + signal s' u = 1" by (cases rule: mgr_step.cases) auto
qed

interpretation instances: labelled_stable mgr_step one_instance "\<lambda>_. True"
  by unfold_locales (auto intro: mgr_step_one)

text \<open>The events of one task do not touch the others, and alternate.\<close>

lemma mgr_step_other:
  "mgr_step s e s' \<Longrightarrow> e \<notin> {Ends t, Signals t, Restarts t} \<Longrightarrow>
   running s' t = running s t \<and> ending s' t = ending s t \<and> signal s' t = signal s t"
  by (erule mgr_stepE) auto

lemma started_one: "one_instance started"
  by (simp add: one_instance_def started_def)

text \<open>The next signal and the next restart of a task.\<close>

lemma task_signals:
  assumes "one_instance s" "ending s t > 0"
  shows "\<exists>s'. mgr_step s (Signals t) s' \<and> ending s' t = 0 \<and> signal s' t = 1"
proof -
  have "running s t + ending s t + signal s t = 1" using assms(1) by (simp add: one_instance_def)
  then show ?thesis using mgr_step.signals [OF assms(2)] assms(2) by fastforce
qed

lemma task_restarts: "signal s t > 0 \<Longrightarrow> \<exists>s'. mgr_step s (Restarts t) s' \<and> running s' t = running s t + 1"
  using mgr_step.restarts [of s t] by fastforce

lemma task_comes_back:
  assumes "one_instance s"
  shows "\<exists>fs s'. runs mgr_step s fs s' \<and> length fs \<le> 2 \<and> set fs \<subseteq> {Signals t, Restarts t} \<and> running s' t = 1"
proof -
  have one: "running u t + ending u t + signal u t = 1" if "one_instance u" for u
    using that by (simp add: one_instance_def)
  have restart: "\<exists>s'. mgr_step u (Restarts t) s' \<and> running s' t = 1" if "one_instance u" "signal u t > 0" for u
    using task_restarts [OF that(2)] one [OF that(1)] that(2) by auto
  consider "running s t = 1" | "ending s t > 0" | "signal s t > 0" using one [OF assms] by linarith
  then show ?thesis
  proof cases
    case 1
    then show ?thesis by (intro exI [of _ "[]"] exI [of _ s]) simp
  next
    case 2
    then obtain u where u: "mgr_step s (Signals t) u" "signal u t = 1" using task_signals [OF assms] by blast
    then obtain s' where "mgr_step u (Restarts t) s'" "running s' t = 1"
      using restart [OF mgr_step_one [OF u(1) assms]] by auto
    with u(1) show ?thesis by (intro exI [of _ "[Signals t, Restarts t]"] exI [of _ s']) (auto simp: runs_Cons)
  next
    case 3
    then obtain s' where "mgr_step s (Restarts t) s'" "running s' t = 1" using restart [OF assms] by blast
    then show ?thesis by (intro exI [of _ "[Restarts t]"] exI [of _ s']) (auto simp: runs_Cons)
  qed
qed

section \<open>Properties\<close>

text \<open>
  C36: However the tasks end, each is present once: it runs, or its ended goroutine is about to
  signal, or its signal waits.  The signal of an ended task never has to wait for room, and from
  every reachable state the task runs again after at most two more steps, which are its own.
\<close>

theorem every_task_is_restarted:
  assumes "runs mgr_step started es s"
  shows "running s t + ending s t + signal s t = 1
     \<and> (ending s t > 0 \<longrightarrow> (\<exists>s'. mgr_step s (Signals t) s' \<and> signal s' t = 1))
     \<and> (\<exists>fs s'. runs mgr_step s fs s' \<and> length fs \<le> 2 \<and> set fs \<subseteq> {Signals t, Restarts t} \<and> running s' t = 1)"
proof -
  have one: "one_instance s" by (rule instances.runs_stay [OF assms started_one])
  then have "running s t + ending s t + signal s t = 1" by (simp add: one_instance_def)
  then show ?thesis using task_signals [OF one] task_comes_back [OF one] by blast
qed

theorem every_task_is_restarted_witness:
  "\<exists>s. runs mgr_step started [Ends Task_Space] s \<and> running s Task_Space = 0
     \<and> (\<exists>fs s'. runs mgr_step s fs s' \<and> length fs \<le> 2 \<and> running s' Task_Space = 1)"
proof -
  have "mgr_step started (Ends Task_Space) (started\<lparr>running := (running started)(Task_Space := 0),
      ending := (ending started)(Task_Space := 1)\<rparr>)"
    using mgr_step.ends [of started Task_Space] by (simp add: started_def)
  then have steps: "runs mgr_step started [Ends Task_Space] (started\<lparr>running := (running started)(Task_Space := 0),
      ending := (ending started)(Task_Space := 1)\<rparr>)"
    by (rule runs_one)
  obtain s where s: "runs mgr_step started [Ends Task_Space] s" "running s Task_Space = 0"
    using steps by auto
  then show ?thesis using every_task_is_restarted [OF s(1), of Task_Space] by blast
qed

end
