(* ===== verification/WorkLock.thy ===== *)
theory WorkLock
  imports Steps
begin

text \<open>
  The mutex \<open>workLock\<close> (node/param.go) and the four places that take it: a validation round
  (node/sub_verifyProofs.go), the sending of a chunk to a miner (\<open>backupFile\<close> of node/handler.go), the
  request of a tag (node/sub_filler.go) and the sending of a filler (node/sub_space.go).  Each use is a
  goroutine, named by a number, with the place it runs; the scheduler decides who moves.
\<close>

section \<open>The users of the lock\<close>

datatype lock_user = Validation_round | Backup_send | Tag_request | Filler_send

text \<open>
  Whether \<open>Unlock\<close> is deferred, so that a panic releases the lock: the tag request and the filler
  defer it, the validation round and the backup call it on their normal paths only.
\<close>

definition unlock_deferred :: "lock_user \<Rightarrow> bool" where
  "unlock_deferred u = (case u of Validation_round \<Rightarrow> False | Backup_send \<Rightarrow> False | Tag_request \<Rightarrow> True | Filler_send \<Rightarrow> True)"

datatype lock_phase = Outside | Waiting | Inside | Ended

record work_state =
  wl_lock :: bool
  wl_phase :: "nat \<Rightarrow> lock_phase"

definition wl_init :: work_state where
  "wl_init = \<lparr>wl_lock = False, wl_phase = (\<lambda>_. Outside)\<rparr>"

datatype lock_event = Asks nat | Locks nat | Unlocks nat | Panics nat

text \<open>\<open>who i\<close> is the place that goroutine \<open>i\<close> runs.\<close>

inductive wl_step :: "(nat \<Rightarrow> lock_user) \<Rightarrow> work_state \<Rightarrow> lock_event \<Rightarrow> work_state \<Rightarrow> bool" for who where
  asks: "wl_phase s i = Outside \<Longrightarrow> wl_step who s (Asks i) (s\<lparr>wl_phase := (wl_phase s)(i := Waiting)\<rparr>)"
| locks: "wl_phase s i = Waiting \<Longrightarrow> \<not> wl_lock s \<Longrightarrow>
    wl_step who s (Locks i) (s\<lparr>wl_lock := True, wl_phase := (wl_phase s)(i := Inside)\<rparr>)"
| unlocks: "wl_phase s i = Inside \<Longrightarrow>
    wl_step who s (Unlocks i) (s\<lparr>wl_lock := False, wl_phase := (wl_phase s)(i := Outside)\<rparr>)"
| panics: "wl_phase s i = Inside \<Longrightarrow>
    wl_step who s (Panics i)
      (s\<lparr>wl_lock := (if unlock_deferred (who i) then False else wl_lock s), wl_phase := (wl_phase s)(i := Ended)\<rparr>)"

inductive_cases wl_stepE: "wl_step who s e s'"

section \<open>Mutual exclusion\<close>

text \<open>Whoever is inside is alone there and the lock is taken.\<close>

definition exclusive :: "work_state \<Rightarrow> bool" where
  "exclusive s = (\<forall>i. wl_phase s i = Inside \<longrightarrow> wl_lock s \<and> (\<forall>j. wl_phase s j = Inside \<longrightarrow> j = i))"

lemma exclusive_init: "exclusive wl_init"
  by (simp add: exclusive_def wl_init_def)

lemma exclusive_step: "wl_step who s e s' \<Longrightarrow> exclusive s \<Longrightarrow> exclusive s'"
  by (erule wl_stepE) (auto simp: exclusive_def)

interpretation mutex: labelled_stable "wl_step who" exclusive "\<lambda>_. True" for who
  by unfold_locales (auto intro: exclusive_step)

section \<open>A lock that is lost\<close>

text \<open>The lock is taken and nobody is inside: nobody ever will be.\<close>

definition lost :: "work_state \<Rightarrow> bool" where
  "lost s = (wl_lock s \<and> (\<forall>i. wl_phase s i \<noteq> Inside))"

lemma lost_step: "wl_step who s e s' \<Longrightarrow> lost s \<Longrightarrow> lost s' \<and> (\<exists>i. e = Asks i)"
  by (erule wl_stepE) (auto simp: lost_def)

interpretation loss: labelled_stable "wl_step who" lost "\<lambda>e. \<exists>i. e = Asks i" for who
  by unfold_locales (blast dest: lost_step)+

text \<open>Whoever waits for a lost lock waits for ever.\<close>

interpretation stuck: labelled_stable "wl_step who" "\<lambda>s. lost s \<and> wl_phase s j = Waiting" "\<lambda>_. True" for who j
proof
  show "lost s' \<and> wl_phase s' j = Waiting" if "wl_step who s e s'" "lost s \<and> wl_phase s j = Waiting" for s e s'
    using that by (elim wl_stepE) (auto simp: lost_def)
qed simp

lemma panic_loses_lock:
  assumes "exclusive s" "wl_step who s (Panics i) s'" "\<not> unlock_deferred (who i)"
  shows "lost s'"
  using assms(2,1,3) by cases (auto simp: lost_def exclusive_def)

lemma lost_after_panic:
  assumes "runs (wl_step who) wl_init es s" "Panics i \<in> set es" "\<not> unlock_deferred (who i)"
  shows "lost s"
proof -
  obtain es1 es2 where es: "es = es1 @ Panics i # es2" using assms(2) by (auto simp: in_set_conv_decomp)
  obtain s1 s2 where run: "runs (wl_step who) wl_init es1 s1" "wl_step who s1 (Panics i) s2" "runs (wl_step who) s2 es2 s"
    using assms(1) by (auto simp: es runs_append runs_Cons)
  show ?thesis
    by (rule loss.runs_stay [OF run(3) panic_loses_lock
          [OF mutex.runs_stay [OF run(1) exclusive_init] run(2) assms(3)]])
qed

text \<open>The lock is lost only by a panic of a user that does not defer.\<close>

lemma lost_from_step:
  assumes "wl_step who s e s'" "lost s'" "\<not> lost s"
  shows "\<exists>i. e = Panics i \<and> \<not> unlock_deferred (who i)"
  using assms(1)
proof cases
  case (asks i)
  have "\<not> lost s'" using assms(3) asks by (auto simp: lost_def) (metis lock_phase.distinct(3))
  with assms(2) show ?thesis by simp
qed (use assms(2,3) in \<open>auto simp: lost_def split: if_splits\<close>)

lemma lost_origin:
  "runs (wl_step who) s es s' \<Longrightarrow> \<not> lost s \<Longrightarrow> lost s' \<Longrightarrow> \<exists>i. Panics i \<in> set es \<and> \<not> unlock_deferred (who i)"
proof (induction rule: runs.induct)
  case (runs_more s e s1 es s2)
  then show ?case using lost_from_step [OF runs_more.hyps(1)] by (cases "lost s1") auto
qed simp

text \<open>
  the work lock.  In every interleaving at most one of the four kinds of users is inside its critical
  section.  From a panic of a validation round or of a chunk transfer inside it, nothing is ever done
  under the lock again: every later event, of whatever goroutine, is one that starts to wait, so no
  proof is validated, no tag requested and no chunk or filler sent until the process is restarted.
  Without such a panic the lock is never lost: a goroutine that waits for a free lock can take it, and
  one that is inside can leave.
\<close>
theorem work_lock_is_lost_by_panics:
  assumes "runs (wl_step who) wl_init es s"
  shows "(\<forall>i j. wl_phase s i = Inside \<and> wl_phase s j = Inside \<longrightarrow> i = j) \<and>
    (\<forall>i s1 es2 s2. \<not> unlock_deferred (who i) \<and> wl_step who s (Panics i) s1 \<and> runs (wl_step who) s1 es2 s2 \<longrightarrow>
       (\<forall>e \<in> set es2. \<exists>j. e = Asks j) \<and> (\<forall>j. wl_phase s2 j \<noteq> Inside)) \<and>
    ((\<forall>i. Panics i \<in> set es \<longrightarrow> unlock_deferred (who i)) \<longrightarrow>
       (\<forall>j. wl_phase s j = Waiting \<longrightarrow> (\<exists>es' s'. runs (wl_step who) s es' s' \<and> wl_phase s' j = Inside)))"
proof -
  have ex: "exclusive s" using mutex.runs_stay [OF assms exclusive_init] .
  have A: "(\<forall>e \<in> set es2. \<exists>j. e = Asks j) \<and> (\<forall>j. wl_phase s2 j \<noteq> Inside)"
    if "\<not> unlock_deferred (who i)" "wl_step who s (Panics i) s1" "runs (wl_step who) s1 es2 s2" for i s1 es2 s2
    using loss.runs_stay [OF that(3) panic_loses_lock [OF ex that(2,1)]]
      loss.runs_allowed [OF that(3) panic_loses_lock [OF ex that(2,1)]] by (simp add: lost_def)
  have B: "\<exists>es' s'. runs (wl_step who) s es' s' \<and> wl_phase s' j = Inside"
    if none: "\<forall>i. Panics i \<in> set es \<longrightarrow> unlock_deferred (who i)" and j: "wl_phase s j = Waiting" for j
  proof (cases "wl_lock s")
    case True
    have "\<not> lost wl_init" by (simp add: lost_def wl_init_def)
    then have "\<not> lost s" using lost_origin [OF assms] none by blast
    then obtain i where i: "wl_phase s i = Inside" using True by (auto simp: lost_def)
    let ?s1 = "s\<lparr>wl_lock := False, wl_phase := (wl_phase s)(i := Outside)\<rparr>"
    let ?s2 = "?s1\<lparr>wl_lock := True, wl_phase := (wl_phase ?s1)(j := Inside)\<rparr>"
    have "i \<noteq> j" using i j by auto
    then have "wl_step who ?s1 (Locks j) ?s2" using j by (intro locks) auto
    then have "runs (wl_step who) s [Unlocks i, Locks j] ?s2" using unlocks [OF i] by (blast intro: runs_none runs_more)
    then show ?thesis by (intro exI conjI) auto
  next
    case False
    let ?s2 = "s\<lparr>wl_lock := True, wl_phase := (wl_phase s)(j := Inside)\<rparr>"
    have "runs (wl_step who) s [Locks j] ?s2" using locks [OF j False] by (blast intro: runs_none runs_more)
    then show ?thesis by (intro exI conjI) auto
  qed
  show ?thesis using ex A B unfolding exclusive_def by blast
qed

lemma work_lock_is_lost_by_panics_witness:
  "\<exists>s1. wl_step (\<lambda>_. Validation_round) (wl_init\<lparr>wl_lock := True, wl_phase := (\<lambda>_. Outside)(0 := Inside)\<rparr>) (Panics 0) s1 \<and>
     (\<forall>es2 s2. runs (wl_step (\<lambda>_. Validation_round)) s1 es2 s2 \<longrightarrow> (\<forall>j. wl_phase s2 j \<noteq> Inside))"
proof -
  let ?s = "wl_init\<lparr>wl_lock := True, wl_phase := (\<lambda>_. Outside)(0 := Inside)\<rparr>"
  let ?w = "wl_init\<lparr>wl_phase := (wl_phase wl_init)(0 := Waiting)\<rparr>"
  have s: "?s = ?w\<lparr>wl_lock := True, wl_phase := (wl_phase ?w)(0 := Inside)\<rparr>" by (simp add: wl_init_def fun_eq_iff)
  have "wl_step (\<lambda>_. Validation_round) wl_init (Asks 0) ?w" by (rule asks) (simp add: wl_init_def)
  moreover have "wl_step (\<lambda>_. Validation_round) ?w (Locks 0) ?s"
    unfolding s by (rule locks) (simp_all add: wl_init_def)
  ultimately have run: "runs (wl_step (\<lambda>_. Validation_round)) wl_init [Asks 0, Locks 0] ?s"
    by (blast intro: runs_none runs_more)
  let ?s1 = "?s\<lparr>wl_lock := (if unlock_deferred Validation_round then False else wl_lock ?s), wl_phase := (wl_phase ?s)(0 := Ended)\<rparr>"
  have p: "wl_step (\<lambda>_. Validation_round) ?s (Panics 0) ?s1" by (rule panics) simp
  have "\<not> unlock_deferred Validation_round" by (simp add: unlock_deferred_def)
  with work_lock_is_lost_by_panics [OF run] p
  have "\<forall>es2 s2. runs (wl_step (\<lambda>_. Validation_round)) ?s1 es2 s2 \<longrightarrow> (\<forall>j. wl_phase s2 j \<noteq> Inside)" by meson
  with p show ?thesis by blast
qed

end
