(* ===== verification/NodeLock.thy ===== *)
theory NodeLock
  imports Tasks WorkLock
begin

text \<open>
  The task manager (node/sub_main.go) and \<open>workLock\<close> together.  A panic of a validation round inside the
  lock is recovered by the deferred function of \<open>task_ValidateProof\<close> (node/sub_verifyProofs.go), which
  signals the manager; it is one event of both systems.  All other events belong to one of them.
\<close>

datatype node_event = Manager task_event | Lock lock_event | Round_panics nat

fun manager_events :: "node_event \<Rightarrow> task_event list" where
  "manager_events (Manager e) = [e]"
| "manager_events (Lock e) = []"
| "manager_events (Round_panics i) = [Ends Task_ValidateProof]"

fun lock_events :: "node_event \<Rightarrow> lock_event list" where
  "lock_events (Manager e) = []"
| "lock_events (Lock e) = [e]"
| "lock_events (Round_panics i) = [Panics i]"

inductive node_step ::
    "(nat \<Rightarrow> lock_user) \<Rightarrow> manager \<times> work_state \<Rightarrow> node_event \<Rightarrow> manager \<times> work_state \<Rightarrow> bool" for who where
  manager_moves: "mgr_step m e m' \<Longrightarrow> node_step who (m, w) (Manager e) (m', w)"
| lock_moves: "wl_step who w e w' \<Longrightarrow> (\<And>i. e = Panics i \<Longrightarrow> who i \<noteq> Validation_round) \<Longrightarrow>
    node_step who (m, w) (Lock e) (m, w')"
| round_panics: "who i = Validation_round \<Longrightarrow> mgr_step m (Ends Task_ValidateProof) m' \<Longrightarrow>
    wl_step who w (Panics i) w' \<Longrightarrow> node_step who (m, w) (Round_panics i) (m', w')"

inductive_cases node_stepE: "node_step who s e s'"

section \<open>The two parts\<close>

text \<open>Seen from one side, a run of both is a run of that side; the manager moves freely beside the lock.\<close>

interpretation manager_side: simulation "node_step who" mgr_step fst manager_events for who
  by unfold_locales (auto elim!: node_stepE simp: runs_Cons)

interpretation lock_side: simulation "node_step who" "wl_step who" snd lock_events for who
  by unfold_locales (auto elim!: node_stepE simp: runs_Cons)

interpretation manager_alone: simulation mgr_step "node_step who" "\<lambda>m. (m, w)" "\<lambda>e. [Manager e]" for who w
  by unfold_locales (auto intro: runs_one manager_moves)

lemma round_panics_event: "node_step who s (Round_panics i) s' \<Longrightarrow> who i = Validation_round"
  by (auto elim: node_stepE)

lemma round_panics_user:
  "runs (node_step who) s es s' \<Longrightarrow> Round_panics i \<in> set es \<Longrightarrow> who i = Validation_round"
  by (induction rule: runs.induct) (auto dest: round_panics_event)

text \<open>
  C29: The restart of tasks does not undo a lost lock.  Once a validation round has panicked inside
  \<open>workLock\<close>, the manager still has every task once and brings \<open>task_ValidateProof\<close> back within two of its
  own steps; but in no continuation is anybody inside the lock, and each goroutine that waits for it,
  the restarted round among them, waits for ever.
\<close>
theorem restart_does_not_revive_validation:
  assumes "runs (node_step who) (started, wl_init) es (m, w)" "Round_panics i \<in> set es"
  shows "(\<forall>t. running m t + ending m t + signal m t = 1)
    \<and> (\<exists>fs m'. runs (node_step who) (m, w) (map Manager fs) (m', w) \<and> length fs \<le> 2 \<and> running m' Task_ValidateProof = 1)
    \<and> (\<forall>fs m' w' j. runs (node_step who) (m, w) fs (m', w') \<longrightarrow>
         wl_phase w' j \<noteq> Inside \<and> (wl_phase w j = Waiting \<longrightarrow> wl_phase w' j = Waiting))"
proof -
  have one: "one_instance m"
    using instances.runs_stay [OF manager_side.runs_simulate [OF assms(1)]] started_one by simp
  obtain fs m' where again: "runs mgr_step m fs m'" "length fs \<le> 2" "running m' Task_ValidateProof = 1"
    using task_comes_back [OF one] by blast
  have "Panics i \<in> set (concat (map lock_events es))" using assms(2) by force
  moreover have "\<not> unlock_deferred (who i)"
    using round_panics_user [OF assms] by (simp add: unlock_deferred_def)
  ultimately have lost: "lost w"
    using lost_after_panic lock_side.runs_simulate [OF assms(1)] by simp
  have "wl_phase w' j \<noteq> Inside \<and> (wl_phase w j = Waiting \<longrightarrow> wl_phase w' j = Waiting)"
    if "runs (node_step who) (m, w) fs (m', w')" for fs m' w' j
  proof -
    have run: "runs (wl_step who) w (concat (map lock_events fs)) w'"
      using lock_side.runs_simulate [OF that] by simp
    show ?thesis
      using loss.runs_stay [OF run lost] stuck.runs_stay [OF run, of j] lost by (auto simp: lost_def)
  qed
  moreover have "runs (node_step who) (m, w) (map Manager fs) (m', w)"
    using manager_alone.runs_simulate [OF again(1), of who w] by (simp add: concat_map_singleton)
  ultimately show ?thesis using again one unfolding one_instance_def by blast
qed

lemma restart_does_not_revive_validation_witness:
  "\<exists>m w. runs (node_step (\<lambda>_. Validation_round)) (started, wl_init)
       [Lock (Asks 0), Lock (Locks 0), Lock (Asks 1), Round_panics 0] (m, w)
     \<and> wl_phase w 1 = Waiting
     \<and> (\<forall>fs m' w'. runs (node_step (\<lambda>_. Validation_round)) (m, w) fs (m', w') \<longrightarrow> wl_phase w' 1 = Waiting)"
proof -
  let ?who = "\<lambda>_ :: nat. Validation_round"
  let ?w1 = "wl_init\<lparr>wl_phase := (wl_phase wl_init)(0 := Waiting)\<rparr>"
  let ?w2 = "?w1\<lparr>wl_lock := True, wl_phase := (wl_phase ?w1)(0 := Inside)\<rparr>"
  let ?w3 = "?w2\<lparr>wl_phase := (wl_phase ?w2)(1 := Waiting)\<rparr>"
  let ?w4 = "?w3\<lparr>wl_lock := (if unlock_deferred (?who 0) then False else wl_lock ?w3), wl_phase := (wl_phase ?w3)(0 := Ended)\<rparr>"
  let ?t = Task_ValidateProof
  let ?m = "started\<lparr>running := (running started)(?t := running started ?t - 1),
    ending := (ending started)(?t := ending started ?t + 1)\<rparr>"
  have m: "mgr_step started (Ends ?t) ?m" by (rule mgr_step.ends) (simp add: started_def)
  have w1: "wl_step ?who wl_init (Asks 0) ?w1" by (rule asks) (simp add: wl_init_def)
  have w2: "wl_step ?who ?w1 (Locks 0) ?w2" by (rule locks) (simp_all add: wl_init_def)
  have w3: "wl_step ?who ?w2 (Asks 1) ?w3" by (rule asks) (simp add: wl_init_def)
  have w4: "wl_step ?who ?w3 (Panics 0) ?w4" by (rule panics) simp
  have n1: "node_step ?who (started, wl_init) (Lock (Asks 0)) (started, ?w1)" by (rule lock_moves [OF w1]) simp
  have n2: "node_step ?who (started, ?w1) (Lock (Locks 0)) (started, ?w2)" by (rule lock_moves [OF w2]) simp
  have n3: "node_step ?who (started, ?w2) (Lock (Asks 1)) (started, ?w3)" by (rule lock_moves [OF w3]) simp
  have n4: "node_step ?who (started, ?w3) (Round_panics 0) (?m, ?w4)" by (rule round_panics [OF refl m w4])
  have run: "runs (node_step ?who) (started, wl_init)
      [Lock (Asks 0), Lock (Locks 0), Lock (Asks 1), Round_panics 0] (?m, ?w4)"
    by (rule runs_more [where step = "node_step ?who", OF n1 runs_more [where step = "node_step ?who", OF n2
      runs_more [where step = "node_step ?who", OF n3 runs_one [where step = "node_step ?who", OF n4]]]])
  have "wl_phase ?w4 1 = Waiting" by simp
  with restart_does_not_revive_validation [OF run] run show ?thesis by fastforce
qed

end
