(* ===== verification/GoFloat.thy ===== *)
theory GoFloat
  imports Prelude "HOL-Library.Log_Nat"
begin

text \<open>
  The float64 arithmetic of the language on positive values: a number is a rational, and an
  operation is the exact one rounded to 53 significant bits, ties to even.  Values near the ends of
  the exponent range do not occur in the program.
\<close>

definition p2 :: "int \<Rightarrow> rat" where
  "p2 e = (if 0 \<le> e then 2 ^ nat e else 1 / 2 ^ nat (- e))"

text \<open>The exponent of the leading bit of a positive rational.\<close>

definition lead_exp :: "rat \<Rightarrow> int" where
  "lead_exp x =
     (case quotient_of x of (a, b) \<Rightarrow>
        let k = bitlen a - bitlen b in if p2 k \<le> x then k else k - 1)"

definition half_even :: "rat \<Rightarrow> int" where
  "half_even y =
     (let f = \<lfloor>y\<rfloor>; r = y - of_int f in
      if r < 1 / 2 then f else if r > 1 / 2 then f + 1 else if even f then f else f + 1)"

definition f64 :: "rat \<Rightarrow> rat" where
  "f64 x = (if x = 0 then 0 else let u = p2 (lead_exp x - 52) in of_int (half_even (x / u)) * u)"

definition f64_of_int :: "int \<Rightarrow> rat" where "f64_of_int i = f64 (of_int i)"
definition f64_div :: "rat \<Rightarrow> rat \<Rightarrow> rat" where "f64_div x y = f64 (x / y)"
definition f64_mult :: "rat \<Rightarrow> rat \<Rightarrow> rat" where "f64_mult x y = f64 (x * y)"
definition f64_Ceil :: "rat \<Rightarrow> rat" where "f64_Ceil x = of_int \<lceil>x\<rceil>"

section \<open>Exact values\<close>

lemma p2_pos [simp]: "0 < p2 e"
  by (simp add: p2_def)

lemma p2_nonzero [simp]: "p2 e \<noteq> 0"
  using p2_pos [of e] by linarith

lemma p2_add: "p2 (a + b) = p2 a * p2 b"
proof -
  have p2: "p2 e = 2 powi e" for e by (simp add: p2_def power_int_def field_simps)
  show ?thesis unfolding p2 by (simp add: power_int_add)
qed

lemma p2_less_iff: "p2 a < p2 b \<longleftrightarrow> a < b"
proof -
  have p2: "p2 e = 2 powi e" for e by (simp add: p2_def power_int_def field_simps)
  have "a < b \<Longrightarrow> p2 a < p2 b" for a b unfolding p2 by (rule power_int_strict_increasing) simp_all
  then show ?thesis by (metis linorder_neqE not_less_iff_gr_or_eq)
qed

lemma p2_nat: "0 \<le> e \<Longrightarrow> p2 e = of_int (2 ^ nat e)"
  by (simp add: p2_def)

lemma lead_exp_le:
  assumes "0 < x"
  shows "p2 (lead_exp x) \<le> x"
proof -
  obtain a b where ab: "quotient_of x = (a, b)" by (cases "quotient_of x")
  then have b: "0 < b" and x: "x = of_int a / of_int b"
    by (simp_all add: quotient_of_denom_pos quotient_of_div)
  have a: "0 < a" using assms x b by (simp add: zero_less_divide_iff)
  have la: "2 ^ nat (bitlen a - 1) \<le> a" using bitlen_bounds [of a] a by simp
  have lb: "b < 2 ^ nat (bitlen b)" using bitlen_bounds [of b] b by simp
  have na: "1 \<le> bitlen a" using a by (auto simp: bitlen_alt_def)
  have "p2 (bitlen a - 1) \<le> of_int a" using la na by (simp add: p2_nat) 
  moreover have "of_int b < p2 (bitlen b)" using lb bitlen_nonneg [of b] by (simp add: p2_nat)
  ultimately have "p2 (bitlen a - 1) * of_int b \<le> of_int a * p2 (bitlen b)"
    using a b by (intro mult_mono) auto
  moreover have "p2 (bitlen a - 1) = p2 (bitlen a - bitlen b - 1) * p2 (bitlen b)"
    by (simp add: p2_add [symmetric])
  ultimately have "p2 (bitlen a - bitlen b - 1) * of_int b \<le> of_int a"
    by (simp add: mult.assoc mult.commute [of "p2 (bitlen b)"])
  then have "p2 (bitlen a - bitlen b - 1) \<le> x"
    using b by (simp add: x pos_le_divide_eq)
  then show ?thesis using ab by (simp add: lead_exp_def Let_def)
qed

lemma half_even_of_int [simp]: "half_even (of_int i) = i"
  by (simp add: half_even_def)

text \<open>A number of at most 53 bits is a float64.\<close>

lemma f64_exact:
  assumes "0 < n" "n < 2 ^ 53"
  shows "f64 (of_int n * p2 (- k)) = of_int n * p2 (- k)"
proof -
  let ?x = "of_int n * p2 (- k)"
  have pos: "0 < ?x" using assms(1) by simp
  have "p2 (lead_exp ?x) \<le> ?x" by (rule lead_exp_le [OF pos])
  also have "?x < p2 53 * p2 (- k)"
    using assms(2) by (intro mult_strict_right_mono) (simp_all add: p2_nat)
  also have "\<dots> = p2 (53 - k)" by (simp add: p2_add [symmetric])
  finally have e: "lead_exp ?x \<le> 52 - k" by (simp add: p2_less_iff)
  define u where "u = lead_exp ?x - 52"
  have "?x = of_int (n * 2 ^ nat (- k - u)) * p2 u"
  proof -
    have "p2 (- k) = p2 (- k - u) * p2 u" by (simp add: p2_add [symmetric])
    moreover have "p2 (- k - u) = of_int (2 ^ nat (- k - u))" by (rule p2_nat) (use e in \<open>simp add: u_def\<close>)
    ultimately show ?thesis by simp
  qed
  then have "?x / p2 u = of_int (n * 2 ^ nat (- k - u))"
    by (metis nonzero_mult_div_cancel_right p2_nonzero)
  then have "of_int (half_even (?x / p2 u)) * p2 u = ?x"
    by (simp only: half_even_of_int) (metis nonzero_eq_divide_eq p2_nonzero)
  then show ?thesis using pos by (simp add: f64_def u_def Let_def)
qed

lemma f64_exact_int: "0 < n \<Longrightarrow> n < 2 ^ 53 \<Longrightarrow> f64 (of_int n) = of_int n"
  using f64_exact [of n 0] by (simp add: p2_def)

lemma f64_exact_half: "0 < n \<Longrightarrow> n < 2 ^ 53 \<Longrightarrow> f64 (of_int n / 2) = of_int n / 2"
  using f64_exact [of n 1] by (simp add: p2_def)

lemma f64_exact_quarter: "0 < n \<Longrightarrow> n < 2 ^ 53 \<Longrightarrow> f64 (of_int n / 4) = of_int n / 4"
  using f64_exact [of n 2] by (simp add: p2_def)

end
