(* ===== verification/Erasure.thy ===== *)
theory Erasure
  imports GoFloat GoFiles Configs
begin

text \<open>
  pkg/erasure/reedsolomon.go: how a file is cut into shard files with redundancy and restored from
  them.  The coder of klauspost/reedsolomon is a parameter, a record with one field for each of its
  calls; a nil or empty shard is the empty list, a nil reader is \<open>None\<close>.  Which file operations
  fail is decided by the environment.
\<close>

section \<open>How many shards\<close>

text \<open>\<open>datachunk\<close> before the last correction; a file of more than a kilobyte counts gigabytes.\<close>

definition data_chunks :: "int \<Rightarrow> int" where
  "data_chunks fsize =
     (let datachunk =
        (if fsize \<le> int SIZE_1KiB then 2
         else let count = fsize div int SIZE_1GiB in
           if count \<le> 1 then 4 else if count mod 2 = 0 then count + 4 else count + 3) in
      if datachunk > 20 then 20 else datachunk)"

text \<open>\<open>math.Ceil(float64(fsize)/float64(datachunk)*float64(datachunk+rdchunks)) > float64(fsize)*1.5\<close>.\<close>

definition over_half :: "int \<Rightarrow> int \<Rightarrow> bool" where
  "over_half fsize datachunk =
     (let rdchunks = datachunk div 2 in
      f64_Ceil (f64_mult (f64_div (f64_of_int fsize) (f64_of_int datachunk)) (f64_of_int (datachunk + rdchunks)))
        > f64_mult (f64_of_int fsize) (3 / 2))"

definition reedSolomonRule :: "int \<Rightarrow> int \<times> int" where
  "reedSolomonRule fsize =
     (if fsize \<le> int SIZE_1KiB \<and> fsize \<le> 1 then (1, 0)
      else let datachunk = data_chunks fsize;
               datachunk = (if over_half fsize datachunk then datachunk - 1 else datachunk) in
        (datachunk, datachunk div 2))"

section \<open>The coder and the file system\<close>

record coder =
  rs_New :: "int \<Rightarrow> int \<Rightarrow> go_error option"
  rs_Split :: "int \<Rightarrow> int \<Rightarrow> bytes \<Rightarrow> go_error + bytes list"
  rs_Encode :: "int \<Rightarrow> int \<Rightarrow> bytes list \<Rightarrow> bytes list \<times> go_error option"
  rs_Verify :: "int \<Rightarrow> int \<Rightarrow> bytes list \<Rightarrow> bool \<times> go_error option"
  rs_Reconstruct :: "int \<Rightarrow> int \<Rightarrow> bytes list \<Rightarrow> bytes list \<times> go_error option"
  rs_Join :: "int \<Rightarrow> int \<Rightarrow> bytes list \<Rightarrow> int \<Rightarrow> bytes \<times> go_error option"
  rs_NewStream :: "int \<Rightarrow> int \<Rightarrow> go_error option"
  rs_SplitS :: "int \<Rightarrow> int \<Rightarrow> bytes \<Rightarrow> int \<Rightarrow> bytes list \<times> go_error option"
  rs_EncodeS :: "int \<Rightarrow> int \<Rightarrow> bytes list \<Rightarrow> bytes list \<times> go_error option"
  rs_VerifyS :: "int \<Rightarrow> int \<Rightarrow> bytes option list \<Rightarrow> bool \<times> go_error option"
  rs_ReconstructS :: "int \<Rightarrow> int \<Rightarrow> bytes option list \<Rightarrow> bool list \<Rightarrow> bytes list \<times> go_error option"
  rs_JoinS :: "int \<Rightarrow> int \<Rightarrow> bytes option list \<Rightarrow> int \<Rightarrow> bytes \<times> go_error option"

text \<open>
  A file operation fails on a path, at its first, second or third use there, or it does not; a
  failing write has put some of its bytes.
\<close>

record file_io =
  io_stat :: "nat \<Rightarrow> string \<Rightarrow> go_error option"
  io_open :: "nat \<Rightarrow> string \<Rightarrow> go_error option"
  io_create :: "string \<Rightarrow> go_error option"
  io_write :: "string \<Rightarrow> (go_error \<times> nat) option"
  io_close :: "string \<Rightarrow> go_error option"
  io_rename :: "string \<Rightarrow> go_error option"

definition no_file :: "string \<Rightarrow> string \<Rightarrow> go_error" where
  "no_file what p = what @ '' '' @ p @ '': no such file or directory''"

definition os_Open :: "file_io \<Rightarrow> nat \<Rightarrow> disk \<Rightarrow> string \<Rightarrow> go_error + bytes" where
  "os_Open io k d p =
     (case io_open io k p of
        Some e \<Rightarrow> Inl e
      | None \<Rightarrow> (case content d p of None \<Rightarrow> Inl (no_file ''open'' p) | Some bs \<Rightarrow> Inr bs))"

definition os_Stat :: "file_io \<Rightarrow> disk \<Rightarrow> string \<Rightarrow> go_error + int" where
  "os_Stat io d p =
     (case io_stat io 0 p of
        Some e \<Rightarrow> Inl e
      | None \<Rightarrow> (case content d p of None \<Rightarrow> Inl (no_file ''stat'' p) | Some bs \<Rightarrow> Inr (int (length bs))))"

definition os_Create :: "file_io \<Rightarrow> string \<Rightarrow> disk \<Rightarrow> go_error + disk" where
  "os_Create io p d = (case io_create io p of Some e \<Rightarrow> Inl e | None \<Rightarrow> Inr (put_file p [] d))"

text \<open>\<open>ioutil.WriteFile\<close> creates or truncates the file before it writes.\<close>

definition WriteFile :: "file_io \<Rightarrow> string \<Rightarrow> bytes \<Rightarrow> disk \<Rightarrow> disk \<times> go_error option" where
  "WriteFile io p bs d =
     (case os_Create io p d of
        Inl e \<Rightarrow> (d, Some e)
      | Inr d1 \<Rightarrow> (case io_write io p of
          Some (e, n) \<Rightarrow> (put_file p (take n bs) d1, Some e)
        | None \<Rightarrow> (put_file p bs d1, None)))"

definition os_Rename :: "file_io \<Rightarrow> string \<Rightarrow> string \<Rightarrow> disk \<Rightarrow> disk \<times> go_error option" where
  "os_Rename io old new d =
     (case io_rename io old of
        Some e \<Rightarrow> (d, Some e)
      | None \<Rightarrow> (case content d old of
          None \<Rightarrow> (d, Some (''rename '' @ old @ '' '' @ new @ '': no such file or directory''))
        | Some bs \<Rightarrow> (if old = new then d else put_file new bs (remove_file old d), None)))"

definition filepath_Split :: "string \<Rightarrow> string \<times> string" where
  "filepath_Split p = (let file = last_elem p in (take (length p - length file) p, file))"

text \<open>\<open>"%s.00%d"\<close> below ten, \<open>"%s.0%d"\<close> from ten on.\<close>

definition shard_name :: "string \<Rightarrow> nat \<Rightarrow> string" where
  "shard_name f i = (if i < 10 then f @ ''.00'' @ show_nat i else f @ ''.0'' @ show_nat i)"

section \<open>ReedSolomon\<close>

text \<open>The loop that writes the shards; the index of the next one and the names so far are carried.\<close>

fun write_shards :: "file_io \<Rightarrow> string \<Rightarrow> nat \<Rightarrow> string list \<Rightarrow> bytes list \<Rightarrow> disk
    \<Rightarrow> (string list \<times> go_error option) \<times> disk" where
  "write_shards io fpath i done [] d = ((done, None), d)"
| "write_shards io fpath i done (shard # rest) d =
     (let outfn = fpath @ ''.00'' @ show_nat i in
      case WriteFile io outfn shard d of
        (d', Some e) \<Rightarrow> ((done, Some e), d')
      | (d', None) \<Rightarrow> write_shards io fpath (Suc i) (done @ [outfn]) rest d')"

definition encode_in_memory ::
    "coder \<Rightarrow> file_io \<Rightarrow> string \<Rightarrow> int \<Rightarrow> int \<Rightarrow> disk \<Rightarrow> (string list \<times> go_error option) \<times> disk" where
  "encode_in_memory C io fpath dn rn d =
     (case rs_New C dn rn of
        Some e \<Rightarrow> (([], Some e), d)
      | None \<Rightarrow> (case os_Open io 0 d fpath of
          Inl e \<Rightarrow> (([], Some e), d)
        | Inr b \<Rightarrow> (case rs_Split C dn rn b of
            Inl e \<Rightarrow> (([], Some e), d)
          | Inr shards \<Rightarrow> (case rs_Encode C dn rn shards of
              (_, Some e) \<Rightarrow> (([], Some e), d)
            | (shards, None) \<Rightarrow> write_shards io fpath 0 [] shards d))))"

fun create_all :: "file_io \<Rightarrow> string list \<Rightarrow> string list \<Rightarrow> disk \<Rightarrow> (string list \<times> go_error option) \<times> disk" where
  "create_all io done [] d = ((done, None), d)"
| "create_all io done (p # ps) d =
     (case os_Create io p d of
        Inl e \<Rightarrow> ((done, Some e), d)
      | Inr d' \<Rightarrow> create_all io (done @ [p]) ps d')"

text \<open>What the coder has written on each of its writers is in their files.\<close>

fun fill_files :: "(string \<times> bytes) list \<Rightarrow> disk \<Rightarrow> disk" where
  "fill_files [] d = d"
| "fill_files ((p, bs) # rest) d = fill_files rest (put_file p bs d)"

fun open_all :: "file_io \<Rightarrow> nat \<Rightarrow> disk \<Rightarrow> string list \<Rightarrow> go_error + bytes list" where
  "open_all io k d [] = Inr []"
| "open_all io k d (p # ps) =
     (case os_Open io k d p of
        Inl e \<Rightarrow> Inl e
      | Inr b \<Rightarrow> bind_result (open_all io k d ps) (\<lambda>bs. Inr (b # bs)))"

definition encode_stream ::
    "coder \<Rightarrow> file_io \<Rightarrow> string \<Rightarrow> int \<Rightarrow> int \<Rightarrow> disk \<Rightarrow> (string list \<times> go_error option) \<times> disk" where
  "encode_stream C io fpath dn rn d =
     (case rs_NewStream C dn rn of
        Some e \<Rightarrow> (([], Some e), d)
      | None \<Rightarrow> (case os_Open io 0 d fpath of
          Inl e \<Rightarrow> (([], Some e), d)
        | Inr b \<Rightarrow> (case io_stat io 1 fpath of
            Some e \<Rightarrow> (([], Some e), d)
          | None \<Rightarrow>
              let (dir, file) = filepath_Split fpath;
                  outs = map (\<lambda>i. filepath_Join [dir, shard_name file i]) [0..<nat (dn + rn)];
                  datas = take (nat dn) outs; parities = drop (nat dn) outs in
              case create_all io [] outs d of
                ((shardspath, Some e), d1) \<Rightarrow> ((shardspath, Some e), d1)
              | ((shardspath, None), d1) \<Rightarrow>
                  let b1 = (case content d1 fpath of None \<Rightarrow> b | Some b1 \<Rightarrow> b1) in
                  case rs_SplitS C dn rn b1 (int (length b)) of
                    (ws, Some e) \<Rightarrow> ((shardspath, Some e), fill_files (zip datas ws) d1)
                  | (ws, None) \<Rightarrow>
                      let d2 = fill_files (zip datas ws) d1 in
                      case open_all io 1 d2 datas of
                        Inl e \<Rightarrow> ((shardspath, Some e), d2)
                      | Inr input \<Rightarrow> (case rs_EncodeS C dn rn input of
                          (ps, err) \<Rightarrow> ((shardspath, err), fill_files (zip parities ps) d2)))))"

definition ReedSolomon ::
    "coder \<Rightarrow> file_io \<Rightarrow> string \<Rightarrow> disk \<Rightarrow> (string list \<times> int \<times> int \<times> go_error option) \<times> disk" where
  "ReedSolomon C io fpath d =
     (case os_Stat io d fpath of
        Inl e \<Rightarrow> (([], 0, 0, Some e), d)
      | Inr fsize \<Rightarrow>
          let (dn, rn) = reedSolomonRule fsize;
              ((shardspath, err), d') =
                (if dn + rn \<le> 3 then encode_in_memory C io fpath dn rn d else encode_stream C io fpath dn rn d) in
          ((shardspath, dn, rn, err), d'))"

section \<open>ReedSolomon_Restore\<close>

text \<open>\<open>openInput\<close>: an absent or empty shard is nil; the size is that of the last one that is not.\<close>

fun open_shards :: "file_io \<Rightarrow> nat \<Rightarrow> disk \<Rightarrow> string list \<Rightarrow> bytes option list \<Rightarrow> int
    \<Rightarrow> go_error + bytes option list \<times> int" where
  "open_shards io k d [] shards sz = Inr (shards, sz)"
| "open_shards io k d (infn # rest) shards sz =
     (case os_Open io k d infn of
        Inl _ \<Rightarrow> open_shards io k d rest (shards @ [None]) sz
      | Inr b \<Rightarrow> (case io_stat io k infn of
          Some e \<Rightarrow> Inl e
        | None \<Rightarrow>
            if length b > 0 then open_shards io k d rest (shards @ [Some b]) (int (length b))
            else open_shards io k d rest (shards @ [None]) sz))"

definition openInput :: "file_io \<Rightarrow> nat \<Rightarrow> int \<Rightarrow> int \<Rightarrow> string \<Rightarrow> disk \<Rightarrow> go_error + bytes option list \<times> int" where
  "openInput io k dn rn fname d =
     open_shards io k d (map (shard_name fname) [0..<nat (dn + rn)]) [] 0"

text \<open>
  The names of the files that are created for the nil shards: the variable \<open>outfn\<close> in the format is
  the new, empty one.
\<close>

definition repair_names :: "bytes option list \<Rightarrow> string list" where
  "repair_names shards = map (shard_name []) (filter (\<lambda>i. shards ! i = None) [0..<length shards])"

fun close_all :: "file_io \<Rightarrow> string list \<Rightarrow> go_error option" where
  "close_all io [] = None"
| "close_all io (p # ps) = (case io_close io p of Some e \<Rightarrow> Some e | None \<Rightarrow> close_all io ps)"

text \<open>The part of the stream branch that runs when the shards do not verify; \<open>Inl\<close> is a return.\<close>

definition repair_shards ::
    "coder \<Rightarrow> file_io \<Rightarrow> int \<Rightarrow> int \<Rightarrow> string \<Rightarrow> disk \<Rightarrow> (go_error option + unit) \<times> disk" where
  "repair_shards C io dn rn outfn d =
     (case openInput io 1 dn rn outfn d of
        Inl e \<Rightarrow> (Inl (Some e), d)
      | Inr (shards, sz) \<Rightarrow>
          (case create_all io [] (repair_names shards) d of
             ((_, Some e), d1) \<Rightarrow> (Inl (Some e), d1)
           | ((outs, None), d1) \<Rightarrow>
               (case rs_ReconstructS C dn rn shards (map (\<lambda>s. s = None) shards) of
                  (ws, Some e) \<Rightarrow> (Inl (Some e), fill_files (zip outs ws) d1)
                | (ws, None) \<Rightarrow>
                    let d2 = fill_files (zip outs ws) d1 in
                    case close_all io outs of
                      Some e \<Rightarrow> (Inl (Some e), d2)
                    | None \<Rightarrow>
                        let shards = (case openInput io 2 dn rn outfn d2 of Inl _ \<Rightarrow> [] | Inr (sh, _) \<Rightarrow> sh) in
                        case rs_VerifyS C dn rn shards of
                          (False, err) \<Rightarrow> (Inl err, d2)
                        | (True, Some e) \<Rightarrow> (Inl (Some e), d2)
                        | (True, None) \<Rightarrow> (Inr (), d2))))"

definition join_stream :: "coder \<Rightarrow> file_io \<Rightarrow> int \<Rightarrow> int \<Rightarrow> string \<Rightarrow> disk \<Rightarrow> go_error option \<times> disk" where
  "join_stream C io dn rn outfn d =
     (case os_Create io outfn d of
        Inl e \<Rightarrow> (Some e, d)
      | Inr d1 \<Rightarrow> (case openInput io 3 dn rn outfn d1 of
          Inl e \<Rightarrow> (Some e, d1)
        | Inr (shards, sz) \<Rightarrow> (case rs_JoinS C dn rn shards (dn * sz) of
            (bs, err) \<Rightarrow> (err, put_file outfn bs d1))))"

definition restore_stream :: "coder \<Rightarrow> file_io \<Rightarrow> int \<Rightarrow> int \<Rightarrow> string \<Rightarrow> disk \<Rightarrow> go_error option \<times> disk" where
  "restore_stream C io dn rn outfn d =
     (case rs_NewStream C dn rn of
        Some e \<Rightarrow> (Some e, d)
      | None \<Rightarrow> (case openInput io 0 dn rn outfn d of
          Inl e \<Rightarrow> (Some e, d)
        | Inr (shards, sz) \<Rightarrow>
            if fst (rs_VerifyS C dn rn shards) then join_stream C io dn rn outfn d
            else (case repair_shards C io dn rn outfn d of
                (Inl r, d') \<Rightarrow> (r, d')
              | (Inr _, d') \<Rightarrow> join_stream C io dn rn outfn d')))"

text \<open>The shards in memory: a file that cannot be read is nil.\<close>

definition read_shards :: "file_io \<Rightarrow> disk \<Rightarrow> string \<Rightarrow> nat \<Rightarrow> bytes list" where
  "read_shards io d outfn n =
     map (\<lambda>i. case os_Open io 0 d (outfn @ ''.00'' @ show_nat i) of Inl _ \<Rightarrow> [] | Inr b \<Rightarrow> b) [0..<n]"

definition verified_shards ::
    "coder \<Rightarrow> int \<Rightarrow> int \<Rightarrow> bytes list \<Rightarrow> go_error option + bytes list" where
  "verified_shards C dn rn shards =
     (if fst (rs_Verify C dn rn shards) then Inr shards
      else (case rs_Reconstruct C dn rn shards of
          (_, Some e) \<Rightarrow> Inl (Some e)
        | (shards, None) \<Rightarrow> (case rs_Verify C dn rn shards of
            (False, err) \<Rightarrow> Inl err
          | (True, _) \<Rightarrow> Inr shards)))"

definition restore_in_memory ::
    "coder \<Rightarrow> file_io \<Rightarrow> int \<Rightarrow> int \<Rightarrow> string \<Rightarrow> disk \<Rightarrow> go_error option outcome \<times> disk" where
  "restore_in_memory C io dn rn outfn d =
     (case rs_New C dn rn of
        Some e \<Rightarrow> (Ret (Some e), d)
      | None \<Rightarrow> (case verified_shards C dn rn (read_shards io d outfn (nat (dn + rn))) of
          Inl r \<Rightarrow> (Ret r, d)
        | Inr shards \<Rightarrow> (case os_Create io outfn d of
            Inl e \<Rightarrow> (Ret (Some e), d)
          | Inr d1 \<Rightarrow> (case shards of
              [] \<Rightarrow> (Panic, d1)
            | s0 # _ \<Rightarrow> (case rs_Join C dn rn shards (int (length s0) * dn) of
                (bs, err) \<Rightarrow> (Ret err, put_file outfn bs d1))))))"

definition ReedSolomon_Restore ::
    "coder \<Rightarrow> file_io \<Rightarrow> string \<Rightarrow> string \<Rightarrow> int \<Rightarrow> int \<Rightarrow> disk \<Rightarrow> go_error option outcome \<times> disk" where
  "ReedSolomon_Restore C io dir fid dn rn d =
     (let outfn = filepath_Join [dir, fid] in
      if rn = 0 then (case os_Rename io (outfn @ ''.000'') outfn d of (d', err) \<Rightarrow> (Ret err, d'))
      else if dn + rn \<le> 6 then restore_in_memory C io dn rn outfn d
      else (case restore_stream C io dn rn outfn d of (err, d') \<Rightarrow> (Ret err, d')))"

end
