(* ===== verification/ErasureProps.thy ===== *)
theory ErasureProps
  imports Erasure
begin

text \<open>
  What redundancy a file gets, that lost shards of a file are restored, and the two cases in which
  \<open>ReedSolomon_Restore\<close> does not do what its name says: a damaged shard and a file of many shards.
\<close>

section \<open>The rule\<close>

lemma ceil_half: "\<lceil>of_int n / 2 :: rat\<rceil> = (n + 1) div 2"
proof -
  have "(of_int n :: rat) / 2 = of_int n / of_int 2" by simp
  then show ?thesis by (simp only: ceiling_divide_eq_div)
qed

lemma over_half_exact:
  assumes f: "0 < f" "f < 2 ^ 50" and dc: "dc = 2 \<or> dc = 4"
  shows "over_half f dc \<longleftrightarrow> odd f"
proof -
  have ff: "f64_of_int f = of_int f"
    unfolding f64_of_int_def by (rule f64_exact_int) (use f in simp_all)
  have small: "f64_of_int n = of_int n" if "0 < n" "n < 10" for n
    unfolding f64_of_int_def by (rule f64_exact_int) (use that in simp_all)
  have half: "f64 (of_int (3 * f) / 2) = of_int (3 * f) / 2"
    by (rule f64_exact_half) (use f in simp_all)
  have q2: "f64 (of_int f / 2) = of_int f / 2" by (rule f64_exact_half) (use f in simp_all)
  have q4: "f64 (of_int f / 4) = of_int f / 4" by (rule f64_exact_quarter) (use f in simp_all)
  have prod: "f64_mult (f64_div (f64_of_int f) (f64_of_int dc)) (f64_of_int (dc + dc div 2)) = of_int (3 * f) / 2"
    using dc
  proof
    assume dc: "dc = 2"
    show ?thesis by (simp only: dc f64_mult_def f64_div_def ff) (use half in \<open>simp add: small q2 mult.commute\<close>)
  next
    assume dc: "dc = 4"
    show ?thesis by (simp only: dc f64_mult_def f64_div_def ff) (use half in \<open>simp add: small q4 mult.commute\<close>)
  qed
  have side: "f64_mult (f64_of_int f) (3 / 2) = of_int (3 * f) / 2"
    using half by (simp add: f64_mult_def ff mult.commute)
  have "over_half f dc \<longleftrightarrow> (of_int (3 * f) / 2 :: rat) < of_int ((3 * f + 1) div 2)"
    by (simp only: over_half_def Let_def prod side f64_Ceil_def ceil_half)
  also have "\<dots> \<longleftrightarrow> (of_int (3 * f) :: rat) < of_int (2 * ((3 * f + 1) div 2))" by (simp add: mult.commute)
  also have "\<dots> \<longleftrightarrow> 3 * f < 2 * ((3 * f + 1) div 2)" by (simp only: of_int_less_iff)
  also have "\<dots> \<longleftrightarrow> odd f" by presburger
  finally show ?thesis .
qed

lemma data_chunks_bounds: "2 ^ 31 \<le> f \<Longrightarrow> 6 \<le> data_chunks f \<and> data_chunks f \<le> 20 \<and> even (data_chunks f)"
proof -
  assume f: "2 ^ 31 \<le> f"
  define c where "c = f div 2 ^ 30"
  have c: "2 \<le> c" unfolding c_def using zdiv_mono1 [OF f, of "2 ^ 30"] by simp
  have "data_chunks f = (let k = (if c mod 2 = 0 then c + 4 else c + 3) in if k > 20 then 20 else k)"
    using f c by (simp add: data_chunks_def size_defs c_def Let_def)
  then show ?thesis using c by (simp add: Let_def) presburger
qed

text \<open>
  which redundancy a file gets.  Below two gigabytes the rule is exact: an even size gets half as
  many parity shards as data shards, (2, 1) up to a kilobyte and (4, 2) above; an odd size gets (1, 0),
  that is none at all, up to a kilobyte and (3, 1) above.  From two gigabytes on the file has five to
  twenty data shards and half as many parity shards, whatever the rounding of the float64 test gives.
\<close>
theorem redundancy_by_size:
  "(f < 2 ^ 31 \<longrightarrow> reedSolomonRule f =
      (if f \<le> 1 \<or> f \<le> 1024 \<and> odd f then (1, 0)
       else if f \<le> 1024 then (2, 1) else if even f then (4, 2) else (3, 1))) \<and>
   (2 ^ 31 \<le> f \<longrightarrow> (\<exists>d. reedSolomonRule f = (d, d div 2) \<and> 5 \<le> d \<and> d \<le> 20))"
proof (intro conjI impI)
  assume f: "f < 2 ^ 31"
  show "reedSolomonRule f =
      (if f \<le> 1 \<or> f \<le> 1024 \<and> odd f then (1, 0)
       else if f \<le> 1024 then (2, 1) else if even f then (4, 2) else (3, 1))"
  proof (cases "f \<le> 1")
    case False
    have "data_chunks f = (if f \<le> 1024 then 2 else 4)"
    proof -
      have "f div 2 ^ 30 < 2" using f by (simp add: div_less_iff_less_mult)
      then show ?thesis by (simp add: data_chunks_def size_defs Let_def)
    qed
    moreover have "over_half f 2 \<longleftrightarrow> odd f" "over_half f 4 \<longleftrightarrow> odd f"
      using False f by (simp_all add: over_half_exact)
    ultimately show ?thesis using False by (simp add: reedSolomonRule_def Let_def size_defs)
  qed (simp add: reedSolomonRule_def size_defs)
next
  assume f: "2 ^ 31 \<le> f"
  define d where "d = (if over_half f (data_chunks f) then data_chunks f - 1 else data_chunks f)"
  have "reedSolomonRule f = (d, d div 2)"
    using f by (simp add: reedSolomonRule_def size_defs d_def Let_def)
  moreover have "5 \<le> d \<and> d \<le> 20" using data_chunks_bounds [OF f] by (auto simp: d_def)
  ultimately show "\<exists>d. reedSolomonRule f = (d, d div 2) \<and> 5 \<le> d \<and> d \<le> 20" by blast
qed

lemma redundancy_by_size_witness:
  "reedSolomonRule 7 = (1, 0) \<and> reedSolomonRule 4096 = (4, 2) \<and> (\<exists>d. reedSolomonRule (2 ^ 34) = (d, d div 2) \<and> 5 \<le> d)"
  using redundancy_by_size [of 7] redundancy_by_size [of 4096] redundancy_by_size [of "2 ^ 34"] by auto

section \<open>Files without faults\<close>

definition no_faults :: "file_io \<Rightarrow> bool" where
  "no_faults io = (\<forall>k p. io_stat io k p = None \<and> io_open io k p = None \<and> io_create io p = None \<and>
     io_write io p = None \<and> io_close io p = None \<and> io_rename io p = None)"

lemma no_faults_simps:
  assumes "no_faults io"
  shows "os_Create io p d = Inr (put_file p [] d)"
    "os_Open io k d p = (case content d p of None \<Rightarrow> Inl (no_file ''open'' p) | Some bs \<Rightarrow> Inr bs)"
    "os_Stat io d p = (case content d p of None \<Rightarrow> Inl (no_file ''stat'' p) | Some bs \<Rightarrow> Inr (int (length bs)))"
    "WriteFile io p bs d = (put_file p bs (put_file p [] d), None)"
    "close_all io ps = None"
proof -
  show "close_all io ps = None" using assms by (induction ps) (simp_all add: no_faults_def)
qed (use assms in \<open>simp_all add: no_faults_def os_Create_def os_Open_def os_Stat_def WriteFile_def\<close>)

lemma content_fill_files:
  "content (fill_files ws d) q = (case map_of (rev ws) q of None \<Rightarrow> content d q | Some bs \<Rightarrow> Some bs)"
  by (induction ws arbitrary: d) (auto simp: map_add_def split: option.splits)

lemma content_fill_zip:
  assumes "distinct ps" "length bs = length ps"
  shows "content (fill_files (zip ps bs) d) q = (case map_of (zip ps bs) q of None \<Rightarrow> content d q | Some b \<Rightarrow> Some b)"
proof -
  have "map_of (rev (zip ps bs)) = map_of (zip ps bs)"
    by (rule map_of_inject_set [THEN iffD2]) (use assms in \<open>simp_all add: rev_map [symmetric]\<close>)
  then show ?thesis by (simp add: content_fill_files)
qed

lemma content_fill_nth:
  assumes "distinct ps" "length bs = length ps" "i < length ps"
  shows "content (fill_files (zip ps bs) d) (ps ! i) = Some (bs ! i)"
  using assms by (simp add: content_fill_zip map_of_zip_nth)

lemma content_fill_other:
  "q \<notin> set ps \<Longrightarrow> content (fill_files (zip ps bs) d) q = content d q"
  by (auto simp: content_fill_files map_of_eq_None_iff dest: set_zip_leftD split: option.splits dest!: map_of_SomeD)

lemma write_shards_no_faults:
  assumes "no_faults io"
  shows "\<exists>d'. write_shards io f i done sh d = ((done @ map (\<lambda>j. f @ ''.00'' @ show_nat j) [i..<i + length sh], None), d') \<and>
     content d' = content (fill_files (zip (map (\<lambda>j. f @ ''.00'' @ show_nat j) [i..<i + length sh]) sh) d)"
proof (induction sh arbitrary: i "done" d)
  case (Cons s sh)
  let ?p = "f @ ''.00'' @ show_nat i"
  have cong: "content (fill_files ws (put_file p s (put_file p [] d))) = content (fill_files ws (put_file p s d))" for ws p
    by (rule ext) (simp add: content_fill_files split: option.split)
  have up: "[i..<i + length (s # sh)] = i # [Suc i..<Suc i + length sh]" by (simp add: upt_rec)
  from Cons.IH [of "Suc i" "done @ [?p]" "put_file ?p s (put_file ?p [] d)"] show ?case
    unfolding up by (auto simp: no_faults_simps [OF assms] cong)
qed simp

lemma create_all_no_faults:
  assumes "no_faults io"
  shows "create_all io done ps d = ((done @ ps, None), fill_files (zip ps (replicate (length ps) [])) d)"
  by (induction ps arbitrary: "done" d) (simp_all add: no_faults_simps [OF assms])

lemma open_all_no_faults:
  assumes "no_faults io" "length bs = length ps" "\<And>i. i < length ps \<Longrightarrow> content d (ps ! i) = Some (bs ! i)"
  shows "open_all io k d ps = Inr bs"
  using assms(2,3)
proof (induction ps arbitrary: bs)
  case (Cons p ps)
  then obtain b bs' where bs: "bs = b # bs'" by (cases bs) auto
  have "open_all io k d ps = Inr bs'"
    using Cons.prems by (intro Cons.IH) (auto simp: bs dest!: spec [where x = "Suc _"] meta_spec [where x = "Suc _"])
  moreover have "content d p = Some b" using Cons.prems(2) [of 0] by (simp add: bs)
  ultimately show ?case by (simp add: bs no_faults_simps [OF assms(1)])
qed simp

section \<open>Shard files\<close>

lemma shard_name_dir: "shard_name (d @ CHR ''/'' # n) i = d @ CHR ''/'' # shard_name n i"
  by (simp add: shard_name_def)

lemma show_nat_inj: "show_nat i = show_nat j \<Longrightarrow> i = j"
  by (metis show_nat_props)

lemma shard_names_distinct: "n \<le> 10 \<Longrightarrow> distinct (map (shard_name f) [0..<n])"
  by (auto simp: distinct_map inj_on_def shard_name_def dest: show_nat_inj)

lemma shard_name_longer: "shard_name f i \<noteq> f"
  by (simp add: shard_name_def)

lemma simple_shard_name: "simple_name f \<Longrightarrow> i < 10 \<Longrightarrow> simple_name (shard_name f i)"
proof -
  assume f: "simple_name f" and i: "i < 10"
  have "CHR ''/'' \<notin> set (show_nat i)"
    using show_nat_props [of i] by (auto simp: list_all_iff is_digit_def)
  moreover have "f \<noteq> []" "CHR ''/'' \<notin> set f" using f by (auto simp: simple_name_def)
  ultimately show ?thesis
    using i by (cases f) (auto simp: simple_name_def shard_name_def)
qed

lemma Join_dir_slash:
  assumes "clean_dir d" "simple_name n"
  shows "filepath_Join [d @ ''/'', n] = d @ CHR ''/'' # n"
proof -
  obtain es where es: "es \<noteq> []" "\<forall>e \<in> set es. simple_name e" "d = CHR ''/'' # join_slash es"
    using assms(1) by (auto simp: clean_dir_def)
  have n: "n \<noteq> []" "CHR ''/'' \<notin> set n" using assms(2) by (auto simp: simple_name_def)
  have ns: "\<forall>e \<in> set es. CHR ''/'' \<notin> set e" using es by (auto simp: simple_name_def)
  have sa: "split_char CHR ''/'' (a @ CHR ''/'' # b) = split_char CHR ''/'' a @ split_char CHR ''/'' b" for a b
    by (induction a) (auto split: list.splits)
  have "split_char CHR ''/'' (d @ CHR ''/'' # CHR ''/'' # n) = ([] # es) @ [[], n]"
    unfolding sa by (simp add: es(3) split_join_slash [OF es(1) ns] split_char_no_sep n)
  moreover have "clean_elems True [] (([] # es) @ [[], n]) = es @ [n]"
    using clean_elems_append [of True "[]" "es" "[[], n]"] clean_elems_simple [OF es(2), of True "[]"] assms(2)
    by (simp add: simple_name_def)
  ultimately have "filepath_Clean (d @ CHR ''/'' # CHR ''/'' # n) = CHR ''/'' # join_slash (es @ [n])"
    by (simp add: filepath_Clean_def es(3) Let_def)
  then show ?thesis using n es by (simp add: filepath_Join_def join_slash_snoc)
qed

lemma filepath_Split_dir: "CHR ''/'' \<notin> set n \<Longrightarrow> filepath_Split (d @ CHR ''/'' # n) = (d @ ''/'', n)"
  by (simp add: filepath_Split_def Let_def)

section \<open>Encoding a file and restoring it\<close>

text \<open>
  What the documentation of the coder says of one file: \<open>Split\<close> cuts it into equal shards, the last
  one filled with zeros, \<open>Encode\<close> writes the parity shards, and the streams do the same.
\<close>

definition encodes_to :: "coder \<Rightarrow> int \<Rightarrow> int \<Rightarrow> bytes \<Rightarrow> bytes list \<Rightarrow> bytes list \<Rightarrow> bool" where
  "encodes_to C dn rn b sh enc =
     (0 < dn \<and> 0 < rn \<and> length enc = nat (dn + rn) \<and> hd enc \<noteq> [] \<and> (\<forall>s \<in> set enc. length s = length (hd enc)) \<and>
      concat (take (nat dn) enc) = b @ replicate (nat dn * length (hd enc) - length b) 0 \<and>
      rs_New C dn rn = None \<and> rs_NewStream C dn rn = None \<and>
      rs_Split C dn rn b = Inr sh \<and> rs_Encode C dn rn sh = (enc, None) \<and>
      rs_SplitS C dn rn b (int (length b)) = (take (nat dn) enc, None) \<and>
      rs_EncodeS C dn rn (take (nat dn) enc) = (drop (nat dn) enc, None))"

text \<open>
  And of its shards when those of a set are lost: they verify when none is, \<open>Reconstruct\<close> gives them
  all back, and \<open>Join\<close> writes the data shards.
\<close>

definition recovers :: "coder \<Rightarrow> int \<Rightarrow> int \<Rightarrow> bytes list \<Rightarrow> nat set \<Rightarrow> bool" where
  "recovers C dn rn enc lost =
     (let left = map (\<lambda>i. if i \<in> lost then [] else enc ! i) [0..<length enc] in
      (fst (rs_Verify C dn rn left) \<longleftrightarrow> lost = {}) \<and> fst (rs_Verify C dn rn enc) \<and>
      rs_Reconstruct C dn rn left = (enc, None) \<and>
      rs_Join C dn rn enc (int (length (hd enc)) * dn) = (concat (take (nat dn) enc), None))"

lemma encoding_leaves_shards:
  assumes io: "no_faults io" and names: "clean_dir dir" "simple_name fid"
    and b: "content d (dir @ CHR ''/'' # fid) = Some b" and rule: "reedSolomonRule (int (length b)) = (dn, rn)"
    and few: "dn + rn \<le> 6" and enc: "encodes_to C dn rn b sh enc"
  shows "\<exists>d1. ReedSolomon C io (dir @ CHR ''/'' # fid) d =
       ((map (shard_name (dir @ CHR ''/'' # fid)) [0..<nat (dn + rn)], dn, rn, None), d1) \<and>
     (\<forall>i < nat (dn + rn). content d1 (shard_name (dir @ CHR ''/'' # fid) i) = Some (enc ! i))"
proof -
  let ?f = "dir @ CHR ''/'' # fid"
  let ?n = "nat (dn + rn)"
  let ?names = "map (shard_name ?f) [0..<?n]"
  have len: "length enc = ?n" and dn: "0 < dn" "0 < rn" using enc by (simp_all add: encodes_to_def)
  have n6: "?n \<le> 6" using few by simp
  have dist: "distinct ?names" by (rule shard_names_distinct) (use n6 in simp)
  have names_eq: "map (\<lambda>j. ?f @ ''.00'' @ show_nat j) [0..<?n] = ?names"
    using n6 by (auto simp: shard_name_def)
  have outs: "map (\<lambda>i. filepath_Join [dir @ ''/'', shard_name fid i]) [0..<?n] = ?names"
    using n6 names by (auto simp: Join_dir_slash simple_shard_name shard_name_dir)
  have split: "filepath_Split ?f = (dir @ ''/'', fid)"
    by (rule filepath_Split_dir) (use names in \<open>simp add: simple_name_def\<close>)
  have rest: "content (fill_files (zip ps bs) d) ?f = Some b" if "set ps \<subseteq> set ?names" for ps bs
  proof -
    have "?f \<notin> set ps" 
    proof
      assume "?f \<in> set ps"
      with that obtain i where "?f = shard_name ?f i" by (auto simp only: set_map)
      then show False using shard_name_longer [of ?f i] by argo
    qed
    then show ?thesis using b by (simp add: content_fill_other)
  qed
  have written: "content (fill_files (zip ?names enc) d') (shard_name ?f i) = Some (enc ! i)" if "i < ?n" for i d'
    using content_fill_nth [OF dist, of enc i d'] that by (simp add: len)
  show ?thesis
  proof (cases "dn + rn \<le> 3")
    case True
    obtain d1 where d1: "write_shards io ?f 0 [] enc d = ((?names, None), d1)"
      "content d1 = content (fill_files (zip ?names enc) d)"
      using write_shards_no_faults [OF io, of ?f 0 "[]" enc d] by (auto simp only: len names_eq add_0 append_Nil)
    have "encode_in_memory C io ?f dn rn d = ((?names, None), d1)"
      using enc by (simp add: encode_in_memory_def encodes_to_def no_faults_simps [OF io] b d1)
    then show ?thesis
      using True rule written d1(2) by (simp add: ReedSolomon_def no_faults_simps [OF io] b)
  next
    case False
    let ?dn = "nat dn"
    define d1 where "d1 = fill_files (zip ?names (replicate (length ?names) [])) d"
    define d2 where "d2 = fill_files (zip (take ?dn ?names) (take ?dn enc)) d1"
    define d3 where "d3 = fill_files (zip (drop ?dn ?names) (drop ?dn enc)) d2"
    have lt: "?dn < ?n" using dn by simp
    have c1: "content d1 ?f = Some b" unfolding d1_def by (rule rest) simp
    have dat: "content d2 (take ?dn ?names ! i) = Some (take ?dn enc ! i)" if "i < ?dn" for i
      unfolding d2_def by (rule content_fill_nth) (use dist that lt in \<open>simp_all add: len distinct_take\<close>)
    have opened: "open_all io 1 d2 (take ?dn ?names) = Inr (take ?dn enc)"
      by (rule open_all_no_faults [OF io _ dat]) (simp_all add: len)
    have created: "create_all io [] ?names d = ((?names, None), d1)"
      by (simp only: create_all_no_faults [OF io] d1_def append_Nil)
    have coder: "rs_NewStream C dn rn = None" "io_stat io 1 ?f = None"
      "rs_SplitS C dn rn b (int (length b)) = (take ?dn enc, None)"
      "rs_EncodeS C dn rn (take ?dn enc) = (drop ?dn enc, None)"
      using enc io by (simp_all add: encodes_to_def no_faults_def)
    have c3: "content d3 (shard_name ?f i) = Some (enc ! i)" if i: "i < ?n" for i
    proof (cases "i < ?dn")
      case True
      have "shard_name ?f i \<notin> set (drop ?dn ?names)"
      proof
        assume "shard_name ?f i \<in> set (drop ?dn ?names)"
        moreover have "shard_name ?f i \<in> set (take ?dn ?names)"
          using True lt by (force simp: take_map)
        ultimately show False using set_take_disj_set_drop_if_distinct [OF dist, of ?dn ?dn] by auto
      qed
      then show ?thesis using dat [OF True] True i by (simp add: d3_def content_fill_other)
    next
      case False
      have "content d3 (drop ?dn ?names ! (i - ?dn)) = Some (drop ?dn enc ! (i - ?dn))"
        unfolding d3_def by (rule content_fill_nth) (use dist i False in \<open>simp_all add: len\<close>)
      then show ?thesis using False i by (simp add: len)
    qed
    have "encode_stream C io ?f dn rn d = ((?names, None), d3)"
      unfolding encode_stream_def split Let_def prod.case outs created c1 coder option.case
        d2_def [symmetric] opened sum.case d3_def [symmetric] no_faults_simps(2) [OF io] b ..
    then show ?thesis
      using False rule c3 by (simp add: ReedSolomon_def no_faults_simps [OF io] b)
  qed
qed

text \<open>The shards that are left, as files.\<close>

definition shards_left :: "string \<Rightarrow> bytes list \<Rightarrow> nat set \<Rightarrow> disk \<Rightarrow> bool" where
  "shards_left f enc lost d =
     (\<forall>i < length enc. content d (shard_name f i) = (if i \<in> lost then None else Some (enc ! i)))"

lemma read_shards_left:
  assumes "no_faults io" "shards_left f enc lost d" "length enc \<le> 10"
  shows "read_shards io d f (length enc) = map (\<lambda>i. if i \<in> lost then [] else enc ! i) [0..<length enc]"
proof -
  have "content d (f @ ''.00'' @ show_nat i) = (if i \<in> lost then None else Some (enc ! i))" if "i < length enc" for i
    using assms(2,3) that by (simp add: shards_left_def shard_name_def)
  then show ?thesis by (auto simp: read_shards_def no_faults_simps [OF assms(1)])
qed

lemma restore_joins_shards:
  assumes io: "no_faults io" and names: "clean_dir dir" "simple_name fid" and few: "dn + rn \<le> 6" "rn \<noteq> 0"
    and enc: "length enc = nat (dn + rn)" "enc \<noteq> []" "rs_New C dn rn = None" and rec: "recovers C dn rn enc lost"
    and left: "shards_left (dir @ CHR ''/'' # fid) enc lost d"
  shows "\<exists>d'. ReedSolomon_Restore C io dir fid dn rn d = (Ret None, d') \<and>
     content d' (dir @ CHR ''/'' # fid) = Some (concat (take (nat dn) enc))"
proof -
  let ?f = "dir @ CHR ''/'' # fid"
  let ?left = "map (\<lambda>i. if i \<in> lost then [] else enc ! i) [0..<length enc]"
  have read: "read_shards io d ?f (nat (dn + rn)) = ?left"
    using read_shards_left [OF io left] enc few by simp
  have "?left = enc" if "lost = {}" by (simp add: that map_nth)
  then have ver: "verified_shards C dn rn ?left = Inr enc"
    using rec by (cases "lost = {}")
      (auto simp: verified_shards_def recovers_def Let_def split: prod.splits bool.splits)
  have "restore_in_memory C io dn rn ?f d = (Ret None, put_file ?f (concat (take (nat dn) enc)) (put_file ?f [] d))"
  proof -
    have "rs_Join C dn rn enc (int (length (hd enc)) * dn) = (concat (take (nat dn) enc), None)"
      using rec by (simp add: recovers_def Let_def)
    then show ?thesis
      unfolding restore_in_memory_def read ver enc(3) option.case sum.case no_faults_simps(1) [OF io]
      using enc(2) by (cases enc) simp_all
  qed
  then show ?thesis
    using few by (simp add: ReedSolomon_Restore_def Join_simple [OF names])
qed

text \<open>
  C24: a file survives the loss of shards.  The file is encoded with redundancy into at most six shards,
  then any of its shard files that the coder can do without disappear, and the file itself may too;
  \<open>ReedSolomon_Restore\<close> with the numbers that \<open>ReedSolomon\<close> returned reports success and leaves the
  bytes of the file, followed by the zeros that filled the last data shard.  The assumptions on the
  coder are its documented behaviour on this file.
\<close>
theorem file_survives_lost_shards:
  assumes io: "no_faults io" and names: "clean_dir dir" "simple_name fid"
    and b: "content d (dir @ CHR ''/'' # fid) = Some b" and rule: "reedSolomonRule (int (length b)) = (dn, rn)"
    and few: "dn + rn \<le> 6" and enc: "encodes_to C dn rn b sh enc" and rec: "recovers C dn rn enc lost"
  shows "\<exists>d1. ReedSolomon C io (dir @ CHR ''/'' # fid) d =
       ((map (shard_name (dir @ CHR ''/'' # fid)) [0..<nat (dn + rn)], dn, rn, None), d1) \<and>
     (\<forall>d2. (\<forall>i < nat (dn + rn). content d2 (shard_name (dir @ CHR ''/'' # fid) i) =
           (if i \<in> lost then None else content d1 (shard_name (dir @ CHR ''/'' # fid) i))) \<longrightarrow>
       (\<exists>d3. ReedSolomon_Restore C io dir fid dn rn d2 = (Ret None, d3) \<and>
         content d3 (dir @ CHR ''/'' # fid) = Some (b @ replicate (nat dn * length (hd enc) - length b) 0)))"
proof -
  let ?f = "dir @ CHR ''/'' # fid"
  obtain d1 where d1: "ReedSolomon C io ?f d = ((map (shard_name ?f) [0..<nat (dn + rn)], dn, rn, None), d1)"
    "\<forall>i < nat (dn + rn). content d1 (shard_name ?f i) = Some (enc ! i)"
    using encoding_leaves_shards [OF io names b rule few enc] by blast
  have e: "length enc = nat (dn + rn)" "rs_New C dn rn = None" "rn \<noteq> 0" "0 < dn + rn"
    "concat (take (nat dn) enc) = b @ replicate (nat dn * length (hd enc) - length b) 0"
    using enc by (simp_all add: encodes_to_def)
  have ne: "enc \<noteq> []" using e(1,4) by auto
  have restored: "\<exists>d3. ReedSolomon_Restore C io dir fid dn rn d2 = (Ret None, d3) \<and>
      content d3 ?f = Some (b @ replicate (nat dn * length (hd enc) - length b) 0)"
    if "\<forall>i < nat (dn + rn). content d2 (shard_name ?f i) = (if i \<in> lost then None else content d1 (shard_name ?f i))" for d2
  proof -
    have "shards_left ?f enc lost d2" using that d1(2) by (simp add: shards_left_def e(1))
    from restore_joins_shards [OF io names few e(3) e(1) ne e(2) rec this] show ?thesis by (simp only: e(5))
  qed
  show ?thesis
    by (rule exI [of _ d1], rule conjI, rule d1(1), intro allI impI, rule restored)
qed

text \<open>A coder for two data shards and their exclusive or, and a file system without faults.\<close>

definition xor_bytes :: "bytes \<Rightarrow> bytes \<Rightarrow> bytes" where
  "xor_bytes xs ys = map2 (XOR) xs ys"

definition xor_split :: "bytes \<Rightarrow> bytes list" where
  "xor_split b = (let n = (length b + 1) div 2 in [take n b, take n (drop n b @ [0]), replicate n 0])"

definition xor_fill :: "bytes list \<Rightarrow> bytes list" where
  "xor_fill s =
     (if s ! 0 = [] then [xor_bytes (s ! 1) (s ! 2), s ! 1, s ! 2]
      else if s ! 1 = [] then [s ! 0, xor_bytes (s ! 0) (s ! 2), s ! 2]
      else if s ! 2 = [] then [s ! 0, s ! 1, xor_bytes (s ! 0) (s ! 1)] else s)"

definition xor_ok :: "bytes list \<Rightarrow> bool" where
  "xor_ok s = (length s = 3 \<and> s ! 0 \<noteq> [] \<and> length (s ! 0) = length (s ! 1) \<and> xor_bytes (s ! 0) (s ! 1) = s ! 2)"

definition xor_coder :: coder where
  "xor_coder = \<lparr>rs_New = (\<lambda>_ _. None),
     rs_Split = (\<lambda>_ _ b. if b = [] then Inl ''not enough data to fill the number of requested shards'' else Inr (xor_split b)),
     rs_Encode = (\<lambda>_ _ s. (take 2 s @ [xor_bytes (s ! 0) (s ! 1)], None)),
     rs_Verify = (\<lambda>_ _ s. (xor_ok s, None)),
     rs_Reconstruct = (\<lambda>_ _ s. (xor_fill s, None)),
     rs_Join = (\<lambda>_ _ s n. (take (nat n) (concat (take 2 s)), None)),
     rs_NewStream = (\<lambda>_ _. None),
     rs_SplitS = (\<lambda>_ _ b _. (take 2 (xor_split b), None)),
     rs_EncodeS = (\<lambda>_ _ s. ([xor_bytes (s ! 0) (s ! 1)], None)),
     rs_VerifyS = (\<lambda>_ _ s. (None \<notin> set s \<and> xor_ok (map the s), None)),
     rs_ReconstructS = (\<lambda>_ _ _ _. ([], Some ''too few shards given'')),
     rs_JoinS = (\<lambda>_ _ s n. (take (nat n) (concat (take 2 (map the s))), None))\<rparr>"

definition smooth_files :: file_io where
  "smooth_files = \<lparr>io_stat = (\<lambda>_ _. None), io_open = (\<lambda>_ _. None), io_create = (\<lambda>_. None),
     io_write = (\<lambda>_. None), io_close = (\<lambda>_. None), io_rename = (\<lambda>_. None)\<rparr>"

lemma sample_dir: "clean_dir ''/d''" "simple_name ''f''"
  by (auto simp: clean_dir_def simple_name_def intro!: exI [of _ "[''d'']"])

lemma file_survives_lost_shards_witness:
  "\<exists>d1. ReedSolomon xor_coder smooth_files ''/d/f'' [(''/d/f'', [1, 2, 3, 7])] =
       ((map (shard_name ''/d/f'') [0..<3], 2, 1, None), d1) \<and>
     (\<forall>d2. (\<forall>i < 3. content d2 (shard_name ''/d/f'' i) = (if i \<in> {1} then None else content d1 (shard_name ''/d/f'' i))) \<longrightarrow>
       (\<exists>d3. ReedSolomon_Restore xor_coder smooth_files ''/d'' ''f'' 2 1 d2 = (Ret None, d3) \<and>
         content d3 ''/d/f'' = Some [1, 2, 3, 7]))"
proof -
  let ?enc = "[[1, 2], [3, 7], [2, 5]] :: bytes list"
  have f: "''/d'' @ CHR ''/'' # ''f'' = ''/d/f''" by simp
  have n: "nat (2 + 1) = 3" by simp
  have z: "[1, 2, 3, 7] @ replicate (nat 2 * length (hd ?enc) - length [1, 2, 3, 7 :: byte]) 0 = [1, 2, 3, 7]"
    by simp
  have io: "no_faults smooth_files" by (simp add: no_faults_def smooth_files_def)
  have b: "content [(''/d/f'', [1, 2, 3, 7 :: byte])] (''/d'' @ CHR ''/'' # ''f'') = Some [1, 2, 3, 7]"
    by (simp add: content_def)
  have rule: "reedSolomonRule (int (length [1, 2, 3, 7 :: byte])) = (2, 1)"
    by (simp add: reedSolomonRule_def data_chunks_def size_defs over_half_exact)
  have "xor_split [1, 2, 3, 7] = [[1, 2], [3, 7], [0, 0]]" by (simp add: xor_split_def)
  then have enc: "encodes_to xor_coder 2 1 [1, 2, 3, 7] [[1, 2], [3, 7], [0, 0]] ?enc"
    by (simp add: encodes_to_def xor_coder_def xor_bytes_def numeral_eq_Suc)
  have rec: "recovers xor_coder 2 1 ?enc {1}"
    by (simp add: recovers_def xor_coder_def xor_fill_def xor_ok_def xor_bytes_def numeral_eq_Suc)
  show ?thesis
    by (rule file_survives_lost_shards [OF io sample_dir b rule _ enc rec, unfolded f n z]) simp
qed

section \<open>Restores that restore nothing\<close>

text \<open>
  a damaged shard.  All shard files are there but their parity is wrong; \<open>Verify\<close> says so without
  an error, \<open>Reconstruct\<close> finds no missing shard and changes nothing.  Then \<open>ReedSolomon_Restore\<close>
  returns no error, as after a success, and has written no file.
\<close>
theorem damaged_shard_reported_restored:
  assumes io: "no_faults io" and names: "clean_dir dir" "simple_name fid" and few: "dn + rn \<le> 6" "rn \<noteq> 0"
    and sh: "length sh = nat (dn + rn)" "shards_left (dir @ CHR ''/'' # fid) sh {} d"
    and coder: "rs_New C dn rn = None" "rs_Verify C dn rn sh = (False, None)" "rs_Reconstruct C dn rn sh = (sh, None)"
  shows "ReedSolomon_Restore C io dir fid dn rn d = (Ret None, d)"
proof -
  have "read_shards io d (dir @ CHR ''/'' # fid) (nat (dn + rn)) = sh"
    using read_shards_left [OF io sh(2)] few sh(1) map_nth [of sh] by simp
  then show ?thesis
    using few coder
    by (simp add: ReedSolomon_Restore_def Join_simple [OF names] restore_in_memory_def verified_shards_def)
qed

lemma damaged_shard_reported_restored_witness:
  "ReedSolomon_Restore xor_coder smooth_files ''/d'' ''f'' 2 1 [(''/d/f.000'', [1]), (''/d/f.001'', [2]), (''/d/f.002'', [9])]
     = (Ret None, [(''/d/f.000'', [1]), (''/d/f.001'', [2]), (''/d/f.002'', [9])])"
proof -
  have "shards_left (''/d'' @ CHR ''/'' # ''f'') [[1], [2], [9]] {}
      [(''/d/f.000'', [1]), (''/d/f.001'', [2]), (''/d/f.002'', [9])]"
  proof -
    have n: "show_nat 0 = ''0''" "show_nat 1 = ''1''" "show_nat 2 = ''2''"
      by (simp_all add: show_nat.simps digit_char_def char_of_eq_iff take_bit_nat_def)
    have "(\<forall>i < 3. P i) \<longleftrightarrow> P 0 \<and> P 1 \<and> P 2" for P :: "nat \<Rightarrow> bool"
      by (metis One_nat_def less_2_cases_iff less_Suc_eq numeral_3_eq_3 numeral_2_eq_2)
    then show ?thesis by (simp add: shards_left_def shard_name_def content_def n numeral_3_eq_3 [symmetric] del: One_nat_def)
  qed
  moreover have "\<not> xor_ok [[1], [2], [9]]" by (simp add: xor_ok_def xor_bytes_def)
  ultimately show ?thesis
    by (intro damaged_shard_reported_restored [where sh = "[[1], [2], [9]]"] sample_dir)
      (simp_all add: no_faults_def smooth_files_def xor_coder_def xor_fill_def)
qed

lemma open_shards_no_faults:
  assumes "no_faults io"
  shows "\<exists>sz'. open_shards io k d ps done sz = Inr (done @ map (\<lambda>p. case content d p of
       None \<Rightarrow> None | Some b \<Rightarrow> if b = [] then None else Some b) ps, sz')"
proof (induction ps arbitrary: "done" sz)
  case (Cons p ps)
  show ?case
  proof (cases "content d p")
    case None
    then show ?thesis using Cons.IH [of "done @ [None]" sz] by (simp add: no_faults_simps [OF assms])
  next
    case (Some b)
    then show ?thesis
      using Cons.IH [of "done @ [None]" sz] Cons.IH [of "done @ [Some b]" "int (length b)"] assms
      by (simp add: no_faults_simps [OF assms]) (simp add: no_faults_def)
  qed
qed simp

lemma openInput_no_faults:
  assumes "no_faults io"
  obtains sz where "openInput io k dn rn f d = Inr (map (\<lambda>p. case content d p of
       None \<Rightarrow> None | Some b \<Rightarrow> if b = [] then None else Some b) (map (shard_name f) [0..<nat (dn + rn)]), sz)"
  using open_shards_no_faults [OF assms, of k d "map (shard_name f) [0..<nat (dn + rn)]" "[]" 0]
  by (auto simp: openInput_def)

lemma repair_names_relative: "q \<in> set (repair_names shards) \<Longrightarrow> hd q = CHR ''.''"
  by (auto simp: repair_names_def shard_name_def)

text \<open>
  the restore of a file of more than six shards never repairs anything.  Where a shard is missing
  or empty the shards do not verify; what the coder reconstructs goes to files named .000, .001 and
  so on of the working directory, because the name is formatted from a new, empty variable; the
  shards do not verify again, and no file at an absolute path has changed: neither the shard nor the
  file at \<open>dir/fid\<close> is restored.
\<close>
theorem large_restore_never_repairs:
  assumes io: "no_faults io" and names: "clean_dir dir" "simple_name fid" and many: "6 < dn + rn" "rn \<noteq> 0"
    and missing: "i < nat (dn + rn)" "content d (shard_name (dir @ CHR ''/'' # fid) i) \<in> {None, Some []}"
    and coder: "\<And>shards. None \<in> set shards \<Longrightarrow> \<not> fst (rs_VerifyS C dn rn shards)"
  shows "\<exists>r d'. ReedSolomon_Restore C io dir fid dn rn d = (Ret r, d') \<and>
     (\<forall>q. q \<noteq> [] \<and> hd q = CHR ''/'' \<longrightarrow> content d' q = content d q)"
proof -
  let ?f = "dir @ CHR ''/'' # fid"
  let ?get = "\<lambda>d. map (\<lambda>p. case content d p of None \<Rightarrow> None | Some b \<Rightarrow> if b = [] then None else Some b)
      (map (shard_name ?f) [0..<nat (dn + rn)])"
  have abs: "hd (shard_name ?f j) = CHR ''/''" "shard_name ?f j \<noteq> []" for j
    using names by (auto simp: clean_dir_def shard_name_def)
  have bad: "\<not> fst (rs_VerifyS C dn rn (?get d'))"
    if "\<And>q. q \<noteq> [] \<and> hd q = CHR ''/'' \<Longrightarrow> content d' q = content d q" for d'
  proof (rule coder)
    have "content d' (shard_name ?f i) \<in> {None, Some []}" using that abs missing by simp
    then show "None \<in> set (?get d')" using missing(1) by (auto simp: image_iff intro!: bexI [of _ i])
  qed
  have created: "content (fill_files (zip (repair_names sh) ws) d1) q = content d1 q"
    if "hd q = CHR ''/''" for sh ws q d1
    using that repair_names_relative [of q sh] by (auto intro!: content_fill_other)
  have repair: "\<exists>r d'. repair_shards C io dn rn ?f d = (Inl r, d') \<and>
      (\<forall>q. q \<noteq> [] \<and> hd q = CHR ''/'' \<longrightarrow> content d' q = content d q)"
  proof -
    obtain sz where o1: "openInput io 1 dn rn ?f d = Inr (?get d, sz)" by (rule openInput_no_faults [OF io])
    let ?names = "repair_names (?get d)"
    define d1 where "d1 = fill_files (zip ?names (replicate (length ?names) [])) d"
    have c: "create_all io [] ?names d = ((?names, None), d1)"
      by (simp only: create_all_no_faults [OF io] d1_def append_Nil)
    obtain ws err where ws: "rs_ReconstructS C dn rn (?get d) (map (\<lambda>s. s = None) (?get d)) = (ws, err)" by fastforce
    define d2 where "d2 = fill_files (zip ?names ws) d1"
    have same: "content d2 q = content d q" if "q \<noteq> [] \<and> hd q = CHR ''/''" for q
      using that by (simp add: d2_def d1_def created)
    obtain sz2 where o2: "openInput io 2 dn rn ?f d2 = Inr (?get d2, sz2)" by (rule openInput_no_faults [OF io])
    obtain err2 where v: "rs_VerifyS C dn rn (?get d2) = (False, err2)"
      using bad [OF same] by (cases "rs_VerifyS C dn rn (?get d2)") auto
    have "repair_shards C io dn rn ?f d = (case err of Some e \<Rightarrow> (Inl (Some e), d2) | None \<Rightarrow> (Inl err2, d2))"
      unfolding repair_shards_def o1 sum.case prod.case c option.case ws d2_def [symmetric] Let_def
        no_faults_simps(5) [OF io] o2 v
      by (cases err) simp_all
    then show ?thesis using same by (cases err) auto
  qed
  obtain sz where o0: "openInput io 0 dn rn ?f d = Inr (?get d, sz)" by (rule openInput_no_faults [OF io])
  have "\<exists>r d'. restore_stream C io dn rn ?f d = (r, d') \<and>
      (\<forall>q. q \<noteq> [] \<and> hd q = CHR ''/'' \<longrightarrow> content d' q = content d q)"
    using repair bad [of d] unfolding restore_stream_def o0
    by (cases "rs_NewStream C dn rn") auto
  then show ?thesis
    using many by (auto simp: ReedSolomon_Restore_def Join_simple [OF names])
qed

lemma large_restore_never_repairs_witness:
  "\<exists>r d'. ReedSolomon_Restore xor_coder smooth_files ''/d'' ''f'' 5 2 [] = (Ret r, d') \<and>
     (\<forall>q. q \<noteq> [] \<and> hd q = CHR ''/'' \<longrightarrow> content d' q = content [] q)"
  by (rule large_restore_never_repairs [OF _ sample_dir, of _ _ _ 0])
    (simp_all add: no_faults_def smooth_files_def content_def xor_coder_def)

end
