(* ===== verification/ProofPbc.thy ===== *)
theory ProofPbc
  imports GoJson GoBase64
begin

text \<open>
  The proof scheme over pairings that the package pkg/proof keeps beside the RSA one (sigGen.go,
  genProof.go, \<open>ChalGen\<close> of chalGen.go).  The pairing library is a parameter, a record of its
  operations over the elements of a group, of its exponents and of the target group; so are the root
  of a Merkle tree and SHA-256.  Random values are arguments.
\<close>

section \<open>Data (param.go)\<close>

definition Success :: int where "Success = 200"
definition ErrorParam :: int where "ErrorParam = 202"
definition ErrorInternal :: int where "ErrorInternal = 204"

record PBCKeyPair =
  kp_Spk :: bytes
  kp_Ssk :: bytes
  kp_SharedG :: bytes

record Tag =
  tg_Name :: bytes
  tg_N :: int
  tg_U :: bytes

record T = Tag +
  tg_SigAbove :: bytes

record StatueMsg =
  sm_StatusCode :: int
  sm_Msg :: string

record SigGenResponse =
  sg_T :: T
  sg_Phi :: "bytes list"
  sg_SigRootHash :: bytes
  sg_StatueMsg :: StatueMsg

record QElement =
  qe_I :: int
  qe_V :: bytes

record GenProofResponse =
  gp_Sigma :: bytes
  gp_MU :: bytes
  gp_HashMi :: "bytes list"
  gp_Omega :: bytes
  gp_SigRootHash :: bytes
  gp_StatueMsg :: StatueMsg

section \<open>The pairing library\<close>

text \<open>
  New elements are the neutral ones; \<open>SetFromStringHash\<close> and \<open>SetFromHash\<close> map a text and a digest to
  the group.
\<close>

record ('g, 'z, 't) pbc =
  zr_SetBytes :: "bytes \<Rightarrow> 'z"
  zr_Bytes :: "'z \<Rightarrow> bytes"
  zr_new :: 'z
  zr_Add :: "'z \<Rightarrow> 'z \<Rightarrow> 'z"
  zr_Mul :: "'z \<Rightarrow> 'z \<Rightarrow> 'z"
  g1_SetBytes :: "bytes \<Rightarrow> 'g"
  g1_Bytes :: "'g \<Rightarrow> bytes"
  g1_new :: 'g
  g1_Mul :: "'g \<Rightarrow> 'g \<Rightarrow> 'g"
  g1_PowZn :: "'g \<Rightarrow> 'z \<Rightarrow> 'g"
  g1_SetFromStringHash :: "bytes \<Rightarrow> 'g"
  g1_SetFromHash :: "bytes \<Rightarrow> 'g"
  gt_Pair :: "'g \<Rightarrow> 'g \<Rightarrow> 't"

text \<open>What the library documents: commutative groups, exponents that act on them, a bilinear map.\<close>

definition bilinear_group :: "('g, 'z, 't) pbc \<Rightarrow> bool" where
  "bilinear_group P \<longleftrightarrow>
     (\<forall>x y z. g1_Mul P (g1_Mul P x y) z = g1_Mul P x (g1_Mul P y z)) \<and>
     (\<forall>x y. g1_Mul P x y = g1_Mul P y x) \<and> (\<forall>x. g1_Mul P x (g1_new P) = x) \<and>
     (\<forall>x a b. g1_PowZn P x (zr_Add P a b) = g1_Mul P (g1_PowZn P x a) (g1_PowZn P x b)) \<and>
     (\<forall>x a b. g1_PowZn P (g1_PowZn P x a) b = g1_PowZn P x (zr_Mul P a b)) \<and>
     (\<forall>x y a. g1_PowZn P (g1_Mul P x y) a = g1_Mul P (g1_PowZn P x a) (g1_PowZn P y a)) \<and>
     (\<forall>x. g1_PowZn P x (zr_new P) = g1_new P) \<and> (\<forall>a. g1_PowZn P (g1_new P) a = g1_new P) \<and>
     (\<forall>a b. zr_Mul P a b = zr_Mul P b a) \<and>
     (\<forall>x. g1_SetBytes P (g1_Bytes P x) = x) \<and>
     (\<forall>x y a. gt_Pair P (g1_PowZn P x a) y = gt_Pair P x (g1_PowZn P y a))"

section \<open>SigGen\<close>

text \<open>The text of the tag that is signed; it is a struct of scalars, whose \<open>Marshal\<close> does not fail.\<close>

definition marshal_tag :: "'a Tag_scheme \<Rightarrow> bytes" where
  "marshal_tag tag =
     bytes_of_string (print_json (JObj [(''name'', JStr (b64_encode (tg_Name tag))), (''n'', json_int (tg_N tag)),
       (''u'', JStr (b64_encode (tg_U tag)))]))"

definition CalculateHash :: "(bytes \<Rightarrow> bytes) \<Rightarrow> bytes \<Rightarrow> bytes" where
  "CalculateHash sum256 x = sum256 x"

definition GenerateSigma :: "('g, 'z, 't) pbc \<Rightarrow> bytes \<Rightarrow> bytes \<Rightarrow> 'z \<Rightarrow> bytes" where
  "GenerateSigma P data u alpha =
     (let data_hash_zr = g1_SetFromStringHash P data; data_byte_zr = zr_SetBytes P data; u_g1 = g1_SetBytes P u in
      g1_Bytes P (g1_PowZn P (g1_Mul P data_hash_zr (g1_PowZn P u_g1 data_byte_zr)) alpha))"

text \<open>
  The goroutines of \<open>SigGen\<close> in the order in which they write their element of \<open>Phi\<close>; one that
  indexes behind the matrix panics, which nothing recovers.
\<close>

fun write_phi :: "('g, 'z, 't) pbc \<Rightarrow> bytes list \<Rightarrow> bytes \<Rightarrow> 'z \<Rightarrow> nat list \<Rightarrow> bytes list \<Rightarrow> bytes list outcome" where
  "write_phi P matrix u alpha [] phi = Ret phi"
| "write_phi P matrix u alpha (i # order) phi =
     (if i < length matrix then write_phi P matrix u alpha order (phi[i := GenerateSigma P (matrix ! i) u alpha]) else Panic)"

definition SigGen ::
    "('g, 'z, 't) pbc \<Rightarrow> (bytes list \<Rightarrow> go_error + bytes) \<Rightarrow> (bytes \<Rightarrow> bytes) \<Rightarrow> nat list \<Rightarrow> bytes \<Rightarrow> bytes
     \<Rightarrow> PBCKeyPair \<Rightarrow> bytes list \<Rightarrow> int \<Rightarrow> SigGenResponse outcome" where
  "SigGen P merkle_root sum256 order rand_name rand_u keyPair matrix n =
     (let privateKey = zr_SetBytes P (kp_Ssk keyPair);
          tag = \<lparr>tg_Name = rand_name, tg_N = n, tg_U = rand_u\<rparr>;
          tagG1 = g1_SetFromStringHash P (marshal_tag tag);
          t = \<lparr>tg_Name = rand_name, tg_N = n, tg_U = rand_u, tg_SigAbove = g1_Bytes P (g1_PowZn P tagG1 privateKey)\<rparr> in
      case merkle_root (map (CalculateHash sum256) matrix) of
        Inl err \<Rightarrow> Ret \<lparr>sg_T = t, sg_Phi = [], sg_SigRootHash = [], sg_StatueMsg = \<lparr>sm_StatusCode = ErrorInternal, sm_Msg = err\<rparr>\<rparr>
      | Inr root \<Rightarrow>
          if n < 0 then Panic
          else bind_outcome (write_phi P matrix rand_u privateKey order (replicate (nat n) []))
            (\<lambda>phi. Ret \<lparr>sg_T = t, sg_Phi = phi,
               sg_SigRootHash = g1_Bytes P (g1_PowZn P (g1_SetFromHash P root) privateKey),
               sg_StatueMsg = \<lparr>sm_StatusCode = Success, sm_Msg = ''PoDR2ProofCommit success''\<rparr>\<rparr>))"

section \<open>GenProof\<close>

text \<open>The loop over the challenge: \<open>mu\<close>, \<open>sigma\<close> and the hashes so far.\<close>

fun challenge_loop ::
    "('g, 'z, 't) pbc \<Rightarrow> bytes list \<Rightarrow> bytes list \<Rightarrow> QElement list \<Rightarrow> 'z \<Rightarrow> 'g \<Rightarrow> bytes list \<Rightarrow> ('z \<times> 'g \<times> bytes list) outcome" where
  "challenge_loop P Phi Matrix [] mu sigma hs = Ret (mu, sigma, hs)"
| "challenge_loop P Phi Matrix (q # qs) mu sigma hs =
     (if 0 \<le> qe_I q \<and> nat (qe_I q) < length Matrix \<and> nat (qe_I q) < length Phi then
        (let m = Matrix ! nat (qe_I q); mi = zr_SetBytes P m; vi = zr_SetBytes P (qe_V q);
             sigma_i = g1_SetBytes P (Phi ! nat (qe_I q)) in
         challenge_loop P Phi Matrix qs (zr_Add P (zr_Mul P mi vi) mu) (g1_Mul P (g1_PowZn P sigma_i vi) sigma)
           (hs @ [g1_Bytes P (g1_SetFromStringHash P m)]))
      else Panic)"

definition GenProof ::
    "('g, 'z, 't) pbc \<Rightarrow> PBCKeyPair \<Rightarrow> QElement list \<Rightarrow> T \<Rightarrow> bytes list \<Rightarrow> bytes list \<Rightarrow> bytes \<Rightarrow> GenProofResponse outcome" where
  "GenProof P keyPair QSlice t Phi Matrix SigRootHash =
     (let g = g1_SetBytes P (kp_SharedG keyPair); publicKey = g1_SetBytes P (kp_Spk keyPair);
          tagG1 = g1_SetFromStringHash P (marshal_tag t);
          temp1 = gt_Pair P tagG1 publicKey; temp2 = gt_Pair P (g1_SetBytes P (tg_SigAbove t)) g in
      if temp1 \<noteq> temp2
      then Ret \<lparr>gp_Sigma = [], gp_MU = [], gp_HashMi = [], gp_Omega = [], gp_SigRootHash = [],
             gp_StatueMsg = \<lparr>sm_StatusCode = ErrorParam, sm_Msg = ''Signature information verification error''\<rparr>\<rparr>
      else bind_outcome (challenge_loop P Phi Matrix QSlice (zr_new P) (g1_new P) [])
        (\<lambda>(mu, sigma, hs). Ret \<lparr>gp_Sigma = g1_Bytes P sigma, gp_MU = zr_Bytes P mu, gp_HashMi = hs, gp_Omega = [],
           gp_SigRootHash = SigRootHash, gp_StatueMsg = \<lparr>sm_StatusCode = Success, sm_Msg = ''Success''\<rparr>\<rparr>))"

section \<open>ChalGen\<close>

text \<open>
  \<open>draw k m\<close> is the k-th number of the random source below \<open>m\<close>; the loops draw until a number fits, and
  \<open>None\<close> is the loop that never ends.
\<close>

partial_function (option) draw_count :: "(nat \<Rightarrow> int \<Rightarrow> int) \<Rightarrow> int \<Rightarrow> nat \<Rightarrow> (int \<times> nat) option" where
  "draw_count draw N k = (let l = draw k (N + 1) in if l > 0 then Some (l, Suc k) else draw_count draw N (Suc k))"

partial_function (option) draw_index :: "(nat \<Rightarrow> int \<Rightarrow> int) \<Rightarrow> int \<Rightarrow> int list \<Rightarrow> nat \<Rightarrow> (int \<times> nat) option" where
  "draw_index draw N used k = (let I = draw k N in if I \<notin> set used then Some (I, Suc k) else draw_index draw N used (Suc k))"

fun draw_indices :: "(nat \<Rightarrow> int \<Rightarrow> int) \<Rightarrow> int \<Rightarrow> nat \<Rightarrow> int list \<Rightarrow> nat \<Rightarrow> int list option" where
  "draw_indices draw N 0 used k = Some []"
| "draw_indices draw N (Suc l) used k =
     (case draw_index draw N used k of
        None \<Rightarrow> None
      | Some (I, k') \<Rightarrow> map_option ((#) I) (draw_indices draw N l (I # used) k'))"

definition ChalGen :: "(nat \<Rightarrow> int \<Rightarrow> int) \<Rightarrow> (nat \<Rightarrow> bytes) \<Rightarrow> int \<Rightarrow> QElement list outcome option" where
  "ChalGen draw rand_Q N =
     (if N + 1 \<le> 0 then Some Panic
      else case draw_count draw N 0 of
          None \<Rightarrow> None
        | Some (l, k) \<Rightarrow>
            map_option (\<lambda>Is. Ret (map (\<lambda>(i, I). \<lparr>qe_I = I, qe_V = rand_Q i\<rparr>) (zip [0..<length Is] Is)))
              (draw_indices draw N (nat l) [] k))"

end
