(* ===== verification/ProofPbcProps.thy ===== *)
theory ProofPbcProps
  imports ProofPbc
begin

text \<open>
  The pairing scheme is correct: an honest proof over honest tags satisfies the verification equation,
  whatever the order of the goroutines; and a generated challenge is a set of distinct blocks.
\<close>

section \<open>Honest proofs\<close>

lemma write_phi_all:
  assumes "set order \<subseteq> {..<length matrix}" "length phi \<le> length matrix"
  shows "\<exists>phi'. write_phi P matrix u alpha order phi = Ret phi' \<and> length phi' = length phi \<and>
     (\<forall>i < length phi. phi' ! i = (if i \<in> set order then GenerateSigma P (matrix ! i) u alpha else phi ! i))"
  using assms
proof (induction order arbitrary: phi)
  case (Cons i order)
  then show ?case using Cons.IH [of "phi[i := GenerateSigma P (matrix ! i) u alpha]"]
    by (fastforce simp: nth_list_update)
qed simp

lemma write_phi_permutation:
  assumes "mset order = mset [0..<n]" "n \<le> length matrix"
  shows "write_phi P matrix u alpha order (replicate n []) = Ret (map (\<lambda>i. GenerateSigma P (matrix ! i) u alpha) [0..<n])"
proof -
  have s: "set order = {..<n}" using assms(1) by (metis atLeast0LessThan set_mset_mset set_upt)
  obtain phi where phi: "write_phi P matrix u alpha order (replicate n []) = Ret phi" "length phi = n"
    "\<forall>i < n. phi ! i = GenerateSigma P (matrix ! i) u alpha"
    using write_phi_all [of order matrix "replicate n []" P u alpha] s assms(2) by auto
  then have "phi = map (\<lambda>i. GenerateSigma P (matrix ! i) u alpha) [0..<n]" by (intro nth_equalityI) simp_all
  with phi show ?thesis by simp
qed

text \<open>The product of the challenged hashes and the sum of the challenged blocks, as the verifier forms them.\<close>

definition hash_product :: "('g, 'z, 't) pbc \<Rightarrow> bytes list \<Rightarrow> QElement list \<Rightarrow> 'g" where
  "hash_product P M QS = fold (\<lambda>q acc. g1_Mul P (g1_PowZn P (g1_SetFromStringHash P (M ! nat (qe_I q))) (zr_SetBytes P (qe_V q))) acc)
     QS (g1_new P)"

definition block_sum :: "('g, 'z, 't) pbc \<Rightarrow> bytes list \<Rightarrow> QElement list \<Rightarrow> 'z" where
  "block_sum P M QS = fold (\<lambda>q acc. zr_Add P (zr_Mul P (zr_SetBytes P (M ! nat (qe_I q))) (zr_SetBytes P (qe_V q))) acc)
     QS (zr_new P)"

lemma bilinear_laws:
  assumes "bilinear_group P"
  shows "g1_Mul P (g1_Mul P x y) z = g1_Mul P x (g1_Mul P y z)"
    and "g1_Mul P x y = g1_Mul P y x"
    and "g1_PowZn P x (zr_Add P b c) = g1_Mul P (g1_PowZn P x b) (g1_PowZn P x c)"
    and "g1_PowZn P (g1_Mul P x y) b = g1_Mul P (g1_PowZn P x b) (g1_PowZn P y b)"
    and "g1_PowZn P (g1_PowZn P x b) c = g1_PowZn P x (zr_Mul P b c)"
    and "zr_Mul P b c = zr_Mul P c b"
    and "g1_SetBytes P (g1_Bytes P x) = x"
    and "gt_Pair P (g1_PowZn P x b) y = gt_Pair P x (g1_PowZn P y b)"
    and "g1_Mul P (g1_new P) (g1_PowZn P x (zr_new P)) = g1_new P"
    and "g1_PowZn P (g1_new P) b = g1_new P"
proof -
  show "g1_Mul P (g1_Mul P x y) z = g1_Mul P x (g1_Mul P y z)"
    by (rule conjunct1 [OF assms [unfolded bilinear_group_def], THEN spec, THEN spec, THEN spec])
qed (use assms in \<open>simp_all add: bilinear_group_def\<close>)

lemma sigma_step:
  assumes P: "bilinear_group P"
  shows "g1_Mul P (g1_PowZn P (g1_PowZn P (g1_Mul P h (g1_PowZn P u m)) a) v) (g1_PowZn P (g1_Mul P acc (g1_PowZn P u mu)) a)
    = g1_PowZn P (g1_Mul P (g1_Mul P (g1_PowZn P h v) acc) (g1_PowZn P u (zr_Add P (zr_Mul P m v) mu))) a"
proof -
  note assoc = bilinear_laws(1) [OF P] and com = bilinear_laws(2) [OF P] and padd = bilinear_laws(3) [OF P]
    and pmul = bilinear_laws(4) [OF P] and pp = bilinear_laws(5) [OF P] and zc = bilinear_laws(6) [OF P]
  have lcom: "g1_Mul P x (g1_Mul P y z) = g1_Mul P y (g1_Mul P x z)" for x y z by (metis assoc com)
  have swap: "g1_PowZn P (g1_PowZn P x b) c = g1_PowZn P (g1_PowZn P x c) b" for x b c by (metis pp zc)
  have "g1_PowZn P (g1_PowZn P (g1_Mul P h (g1_PowZn P u m)) a) v
      = g1_PowZn P (g1_Mul P (g1_PowZn P h v) (g1_PowZn P u (zr_Mul P m v))) a"
    by (metis swap pmul pp)
  then have "g1_Mul P (g1_PowZn P (g1_PowZn P (g1_Mul P h (g1_PowZn P u m)) a) v) (g1_PowZn P (g1_Mul P acc (g1_PowZn P u mu)) a)
      = g1_PowZn P (g1_Mul P (g1_Mul P (g1_PowZn P h v) (g1_PowZn P u (zr_Mul P m v))) (g1_Mul P acc (g1_PowZn P u mu))) a"
    by (simp only: pmul)
  also have "g1_Mul P (g1_Mul P (g1_PowZn P h v) (g1_PowZn P u (zr_Mul P m v))) (g1_Mul P acc (g1_PowZn P u mu))
      = g1_Mul P (g1_Mul P (g1_PowZn P h v) acc) (g1_PowZn P u (zr_Add P (zr_Mul P m v) mu))"
    by (simp only: padd assoc lcom [of acc])
  finally show ?thesis .
qed

lemma challenge_loop_honest:
  assumes P: "bilinear_group P" and n: "n \<le> length M" "Phi = map (\<lambda>i. GenerateSigma P (M ! i) u alpha) [0..<n]"
    and QS: "\<forall>q \<in> set QS. 0 \<le> qe_I q \<and> qe_I q < int n"
  shows "challenge_loop P Phi M QS mu (g1_PowZn P (g1_Mul P acc (g1_PowZn P (g1_SetBytes P u) mu)) alpha) hs =
    (let acc' = fold (\<lambda>q acc. g1_Mul P (g1_PowZn P (g1_SetFromStringHash P (M ! nat (qe_I q))) (zr_SetBytes P (qe_V q))) acc) QS acc;
         mu' = fold (\<lambda>q acc. zr_Add P (zr_Mul P (zr_SetBytes P (M ! nat (qe_I q))) (zr_SetBytes P (qe_V q))) acc) QS mu in
     Ret (mu', g1_PowZn P (g1_Mul P acc' (g1_PowZn P (g1_SetBytes P u) mu')) alpha,
       hs @ map (\<lambda>q. g1_Bytes P (g1_SetFromStringHash P (M ! nat (qe_I q)))) QS))"
  using QS
proof (induction QS arbitrary: mu acc hs)
  case (Cons q QS)
  let ?m = "M ! nat (qe_I q)"
  have q: "0 \<le> qe_I q" "nat (qe_I q) < n" using Cons.prems by auto
  note sb = bilinear_laws(7) [OF P]
  have phi: "g1_SetBytes P (Phi ! nat (qe_I q)) =
      g1_PowZn P (g1_Mul P (g1_SetFromStringHash P ?m) (g1_PowZn P (g1_SetBytes P u) (zr_SetBytes P ?m))) alpha"
    using q by (simp add: n(2) GenerateSigma_def sb)
  have len: "length Phi = n" by (simp add: n(2))
  show ?case
    using q n(1) Cons.prems by (simp add: Let_def len phi sigma_step [OF P] Cons.IH [unfolded Let_def])
qed simp

text \<open>
  C31: an honest proof verifies.  The tags of a file of \<open>n\<close> blocks are generated by \<open>SigGen\<close>, its
  goroutines in any order; a proof over any challenge of these blocks is then generated by \<open>GenProof\<close>
  with them.  It succeeds, the check of the tag's signature included, and its sigma and mu satisfy the
  verification equation of the scheme, e(sigma, g) = e(product of H(m)^v * u^mu, pk), with the hashes of
  the challenged blocks in their order.
\<close>
theorem honest_pairing_proof_verifies:
  assumes P: "bilinear_group P" and order: "mset order = mset [0..<n]" and n: "n \<le> length matrix"
    and root: "merkle_root (map (CalculateHash sum256) matrix) = Inr root"
    and key: "g1_SetBytes P (kp_Spk kp) = g1_PowZn P (g1_SetBytes P (kp_SharedG kp)) (zr_SetBytes P (kp_Ssk kp))"
    and QS: "\<forall>q \<in> set QS. 0 \<le> qe_I q \<and> qe_I q < int n"
  shows "\<exists>s r. SigGen P merkle_root sum256 order name u kp matrix (int n) = Ret s \<and> sm_StatusCode (sg_StatueMsg s) = Success \<and>
    GenProof P kp QS (sg_T s) (sg_Phi s) matrix (sg_SigRootHash s) = Ret r \<and> sm_StatusCode (gp_StatueMsg r) = Success \<and>
    gt_Pair P (g1_SetBytes P (gp_Sigma r)) (g1_SetBytes P (kp_SharedG kp)) =
      gt_Pair P (g1_Mul P (hash_product P matrix QS) (g1_PowZn P (g1_SetBytes P u) (block_sum P matrix QS))) (g1_SetBytes P (kp_Spk kp)) \<and>
    gp_MU r = zr_Bytes P (block_sum P matrix QS) \<and>
    gp_HashMi r = map (\<lambda>q. g1_Bytes P (g1_SetFromStringHash P (matrix ! nat (qe_I q)))) QS"
proof -
  let ?sk = "zr_SetBytes P (kp_Ssk kp)" and ?g = "g1_SetBytes P (kp_SharedG kp)"
  let ?tag = "g1_SetFromStringHash P (marshal_tag \<lparr>tg_Name = name, tg_N = int n, tg_U = u\<rparr>)"
  let ?t = "\<lparr>tg_Name = name, tg_N = int n, tg_U = u, tg_SigAbove = g1_Bytes P (g1_PowZn P ?tag ?sk)\<rparr>"
  let ?Phi = "map (\<lambda>i. GenerateSigma P (matrix ! i) u ?sk) [0..<n]"
  note sb = bilinear_laws(7) [OF P] and pair = bilinear_laws(8) [OF P] and one = bilinear_laws(9,10) [OF P]
  have same: "marshal_tag ?t = marshal_tag \<lparr>tg_Name = name, tg_N = int n, tg_U = u\<rparr>" by (simp add: marshal_tag_def)
  have loop: "challenge_loop P ?Phi matrix QS (zr_new P) (g1_new P) [] =
      Ret (block_sum P matrix QS,
        g1_PowZn P (g1_Mul P (hash_product P matrix QS) (g1_PowZn P (g1_SetBytes P u) (block_sum P matrix QS))) ?sk,
        map (\<lambda>q. g1_Bytes P (g1_SetFromStringHash P (matrix ! nat (qe_I q)))) QS)"
    using challenge_loop_honest [OF P n refl QS, of u ?sk "zr_new P" "g1_new P" "[]"]
    by (simp add: one Let_def hash_product_def block_sum_def)
  let ?root = "g1_Bytes P (g1_PowZn P (g1_SetFromHash P root) ?sk)"
  let ?s = "\<lparr>sg_T = ?t, sg_Phi = ?Phi, sg_SigRootHash = ?root,
      sg_StatueMsg = \<lparr>sm_StatusCode = Success, sm_Msg = ''PoDR2ProofCommit success''\<rparr>\<rparr>"
  have s: "SigGen P merkle_root sum256 order name u kp matrix (int n) = Ret ?s"
    by (simp add: SigGen_def root write_phi_permutation [OF order n] Let_def)
  have check: "gt_Pair P ?tag (g1_SetBytes P (kp_Spk kp)) = gt_Pair P (g1_SetBytes P (tg_SigAbove ?t)) ?g"
    by (simp add: sb pair key)
  obtain r where r: "GenProof P kp QS ?t ?Phi matrix ?root = Ret r" "sm_StatusCode (gp_StatueMsg r) = Success"
    "gp_Sigma r = g1_Bytes P (g1_PowZn P (g1_Mul P (hash_product P matrix QS)
        (g1_PowZn P (g1_SetBytes P u) (block_sum P matrix QS))) ?sk)"
    "gp_MU r = zr_Bytes P (block_sum P matrix QS)"
    "gp_HashMi r = map (\<lambda>q. g1_Bytes P (g1_SetFromStringHash P (matrix ! nat (qe_I q)))) QS"
    by (simp only: GenProof_def Let_def same check loop) simp
  show ?thesis
    by (rule exI [of _ ?s], rule exI [of _ r]) (use s r in \<open>simp add: sb pair key\<close>)
qed

text \<open>Bytes with addition as the group, and their products as the exponents and the pairing.\<close>

definition byte_group :: "(byte, byte, byte) pbc" where
  "byte_group = \<lparr>zr_SetBytes = (\<lambda>bs. case bs of [] \<Rightarrow> 0 | b # _ \<Rightarrow> b), zr_Bytes = (\<lambda>x. [x]), zr_new = 0, zr_Add = (+),
     zr_Mul = (*), g1_SetBytes = (\<lambda>bs. case bs of [] \<Rightarrow> 0 | b # _ \<Rightarrow> b), g1_Bytes = (\<lambda>x. [x]), g1_new = 0, g1_Mul = (+),
     g1_PowZn = (*), g1_SetFromStringHash = (\<lambda>bs. sum_list bs), g1_SetFromHash = (\<lambda>bs. sum_list bs), gt_Pair = (*)\<rparr>"

lemma byte_group_bilinear: "bilinear_group byte_group"
  by (simp add: bilinear_group_def byte_group_def algebra_simps)

lemma honest_pairing_proof_verifies_witness:
  "\<exists>s r. SigGen byte_group (\<lambda>_. Inr [9]) id [1, 0] [5] [6] \<lparr>kp_Spk = [21], kp_Ssk = [7], kp_SharedG = [3]\<rparr> [[1, 2], [3]] (int 2) = Ret s \<and>
     GenProof byte_group \<lparr>kp_Spk = [21], kp_Ssk = [7], kp_SharedG = [3]\<rparr> [\<lparr>qe_I = 1, qe_V = [4]\<rparr>] (sg_T s) (sg_Phi s)
       [[1, 2], [3]] (sg_SigRootHash s) = Ret r \<and> sm_StatusCode (gp_StatueMsg r) = Success"
proof -
  have "mset [1, 0] = mset [0..<2]" by (simp add: numeral_2_eq_2)
  moreover have "g1_SetBytes byte_group (kp_Spk \<lparr>kp_Spk = [21], kp_Ssk = [7], kp_SharedG = [3]\<rparr>) =
      g1_PowZn byte_group (g1_SetBytes byte_group (kp_SharedG \<lparr>kp_Spk = [21], kp_Ssk = [7], kp_SharedG = [3]\<rparr>))
        (zr_SetBytes byte_group (kp_Ssk \<lparr>kp_Spk = [21], kp_Ssk = [7], kp_SharedG = [3]\<rparr>))"
    by (simp add: byte_group_def)
  ultimately show ?thesis
    using honest_pairing_proof_verifies [OF byte_group_bilinear, of "[1, 0]" 2 "[[1, 2], [3]]" "\<lambda>_. Inr [9]" id "[9]"
        "\<lparr>kp_Spk = [21], kp_Ssk = [7], kp_SharedG = [3]\<rparr>" "[\<lparr>qe_I = 1, qe_V = [4]\<rparr>]" "[5]" "[6]"]
    by fastforce
qed

section \<open>Challenges\<close>

lemma draw_count_Some: "draw_count draw N k = Some (l, k') \<Longrightarrow> 0 < l \<and> (\<exists>j. l = draw j (N + 1))"
proof -
  have "draw_count draw N k = Some r \<Longrightarrow> 0 < fst r \<and> (\<exists>j. fst r = draw j (N + 1))" for r
  proof (rule draw_count.raw_induct [where P = "\<lambda>draw N k r. 0 < fst r \<and> (\<exists>j. fst r = draw j (N + 1))"])
    fix self draw N k r
    assume IH: "\<And>draw N k r. self draw N k = Some r \<Longrightarrow> 0 < fst r \<and> (\<exists>j. fst r = draw j (N + 1))"
      and eq: "(let l = draw k (N + 1) in if l > 0 then Some (l, Suc k) else self draw N (Suc k)) = Some r"
    show "0 < fst r \<and> (\<exists>j. fst r = draw j (N + 1))"
    proof (cases "draw k (N + 1) > 0")
      case True
      then have "r = (draw k (N + 1), Suc k)" using eq by (simp add: Let_def)
      then show ?thesis using True by auto
    next
      case False
      then show ?thesis using eq IH by (simp add: Let_def)
    qed
  qed
  then show "draw_count draw N k = Some (l, k') \<Longrightarrow> 0 < l \<and> (\<exists>j. l = draw j (N + 1))" by fastforce
qed

lemma draw_index_Some: "draw_index draw N used k = Some (I, k') \<Longrightarrow> I \<notin> set used \<and> (\<exists>j. I = draw j N)"
proof -
  have "draw_index draw N used k = Some r \<Longrightarrow> fst r \<notin> set used \<and> (\<exists>j. fst r = draw j N)" for r
  proof (rule draw_index.raw_induct [where P = "\<lambda>draw N used k r. fst r \<notin> set used \<and> (\<exists>j. fst r = draw j N)"])
    fix self draw N used k r
    assume IH: "\<And>draw N used k r. self draw N used k = Some r \<Longrightarrow> fst r \<notin> set used \<and> (\<exists>j. fst r = draw j N)"
      and eq: "(let I = draw k N in if I \<notin> set used then Some (I, Suc k) else self draw N used (Suc k)) = Some r"
    show "fst r \<notin> set used \<and> (\<exists>j. fst r = draw j N)"
    proof (cases "draw k N \<in> set used")
      case True
      then show ?thesis using eq IH by (simp add: Let_def)
    next
      case False
      then have "r = (draw k N, Suc k)" using eq by (simp add: Let_def)
      then show ?thesis using False by auto
    qed
  qed
  then show "draw_index draw N used k = Some (I, k') \<Longrightarrow> I \<notin> set used \<and> (\<exists>j. I = draw j N)" by fastforce
qed

lemma draw_indices_Some:
  "draw_indices draw N l used k = Some Is \<Longrightarrow>
     length Is = l \<and> distinct Is \<and> set Is \<inter> set used = {} \<and> (\<forall>I \<in> set Is. \<exists>j. I = draw j N)"
proof (induction l arbitrary: used k Is)
  case (Suc l)
  from Suc.prems obtain I k' Is' where "draw_index draw N used k = Some (I, k')"
    "draw_indices draw N l (I # used) k' = Some Is'" "Is = I # Is'"
    by (auto split: option.splits)
  then show ?case using Suc.IH [of "I # used" k' Is'] draw_index_Some [of draw N used k I k'] by auto
qed simp

definition in_range :: "(nat \<Rightarrow> int \<Rightarrow> int) \<Rightarrow> bool" where
  "in_range draw = (\<forall>k m. 0 < m \<longrightarrow> 0 \<le> draw k m \<and> draw k m < m)"

text \<open>Every number of the range comes up again and again.\<close>

definition fair :: "(nat \<Rightarrow> int \<Rightarrow> int) \<Rightarrow> bool" where
  "fair draw = (\<forall>k m x. 0 \<le> x \<and> x < m \<longrightarrow> (\<exists>j \<ge> k. draw j m = x))"

lemma draw_count_range:
  assumes "in_range draw" "draw_count draw N k = Some (l, k')" "0 < N + 1"
  shows "0 < l" "l < N + 1"
proof -
  obtain j where "0 < l" "l = draw j (N + 1)" using draw_count_Some [OF assms(2)] by auto
  then show "0 < l" "l < N + 1" using assms(1) [unfolded in_range_def, rule_format, of "N + 1" j] assms(3) by simp_all
qed

lemma fairD: "fair draw \<Longrightarrow> 0 \<le> x \<Longrightarrow> x < m \<Longrightarrow> \<exists>j \<ge> k. draw j m = x"
  by (simp add: fair_def)

lemma draw_count_returns:
  assumes "draw j (N + 1) > 0" "k \<le> j"
  shows "draw_count draw N k \<noteq> None"
  using assms(2)
proof (induction "j - k" arbitrary: k)
  case 0
  then show ?case using assms(1) by (subst draw_count.simps) (simp add: Let_def)
next
  case (Suc d)
  then show ?case using Suc.hyps(1) [of "Suc k"] by (subst draw_count.simps) (simp add: Let_def)
qed

lemma draw_index_returns:
  assumes "draw j N \<notin> set used" "k \<le> j"
  shows "draw_index draw N used k \<noteq> None"
  using assms(2)
proof (induction "j - k" arbitrary: k)
  case 0
  then show ?case using assms(1) by (subst draw_index.simps) (simp add: Let_def)
next
  case (Suc d)
  then show ?case using Suc.hyps(1) [of "Suc k"] by (subst draw_index.simps) (simp add: Let_def)
qed

lemma draw_indices_return:
  assumes "fair draw" "in_range draw"
  shows "distinct used \<Longrightarrow> set used \<subseteq> {0..<N} \<Longrightarrow> int (l + length used) \<le> N \<Longrightarrow> draw_indices draw N l used k \<noteq> None"
proof (induction l arbitrary: used k)
  case (Suc l)
  have "card (set used) < card {0..<N}" using Suc.prems by (simp add: distinct_card)
  then obtain x where x: "0 \<le> x" "x < N" "x \<notin> set used"
  proof -
    have "\<not> {0..<N} \<subseteq> set used" using \<open>card _ < card _\<close> card_mono [of "set used" "{0..<N}"] by fastforce
    then show ?thesis using that by (meson atLeastLessThan_iff subsetI)
  qed
  then obtain j where "k \<le> j" "draw j N = x" using fairD [OF assms(1) x(1,2), of k] by blast
  then have "draw_index draw N used k \<noteq> None" using x(3) by (intro draw_index_returns) auto
  then obtain I k' where I: "draw_index draw N used k = Some (I, k')" by auto
  from draw_index_Some [OF this] have "I \<notin> set used" "I \<in> {0..<N}"
    using assms(2) x by (auto simp: in_range_def)
  then have "draw_indices draw N l (I # used) k' \<noteq> None" using Suc.prems by (intro Suc.IH) auto
  then show ?case by (auto simp: I)
qed simp



end
