(* ===== verification/Connections.thy ===== *)
theory Connections
  imports HandlerProps
begin

text \<open>
  Several connections at once.  For each accepted connection \<open>Run\<close> (node/node.go) starts a goroutine of
  the message loop; all of them write below the one directory \<open>FileDir\<close>.  A message is handled in
  one step: each kind of message makes at most one change to the disk.
\<close>

section \<open>The server\<close>

text \<open>
  The disk, and for each connection how its loop stands: \<open>Go\<close> while it waits for the next message.  The
  disk inside the state of a connection is the one it saw last.
\<close>

record server =
  sv_disk :: disk
  sv_conn :: "nat \<Rightarrow> round"

definition new_server :: "disk \<Rightarrow> server" where
  "new_server d = \<lparr>sv_disk = d, sv_conn = (\<lambda>_. Go (new_conn d))\<rparr>"

text \<open>What connection \<open>i\<close> does with what \<open>GetMsg\<close> yields to it.\<close>

fun serve :: "handler_env \<Rightarrow> nat \<times> arrival \<Rightarrow> server \<Rightarrow> server" where
  "serve env (i, a) S =
     (case sv_conn S i of
        Go s \<Rightarrow>
          (let r = handler_loop env [a] (s\<lparr>cs_disk := sv_disk S\<rparr>) in
           S\<lparr>sv_disk := cs_disk (round_state r), sv_conn := (sv_conn S)(i := r)\<rparr>)
      | _ \<Rightarrow> S)"

fun serve_all :: "handler_env \<Rightarrow> (nat \<times> arrival) list \<Rightarrow> server \<Rightarrow> server" where
  "serve_all env [] S = S"
| "serve_all env (e # es) S = serve_all env es (serve env e S)"

definition arrivals_of :: "nat \<Rightarrow> (nat \<times> arrival) list \<Rightarrow> arrival list" where
  "arrivals_of i es = map snd (filter (\<lambda>e. fst e = i) es)"

text \<open>The paths of the granted heads of a connection.\<close>

definition paths_of :: "handler_env \<Rightarrow> nat \<Rightarrow> (nat \<times> arrival) list \<Rightarrow> string set" where
  "paths_of env i es = {upload_path env m | io m. (i, Arrive io m) \<in> set es \<and> granted env io m}"

section \<open>What a connection knows\<close>

text \<open>The state of a connection without the disk and without the chunks its backups found there.\<close>

definition conn_view :: "conn_state \<Rightarrow> conn_state" where
  "conn_view s = s\<lparr>cs_disk := [], cs_backups := map (\<lambda>(fid, sz, chunks). (fid, sz, [])) (cs_backups s)\<rparr>"

fun round_view :: "round \<Rightarrow> round" where
  "round_view (Go s) = Go (conn_view s)"
| "round_view (Stop s e) = Stop (conn_view s) e"
| "round_view (Fault s) = Fault (conn_view s)"
| "round_view (Hang s) = Hang (conn_view s)"

lemma conn_view_eq:
  "conn_view s = conn_view s' \<longleftrightarrow>
     cs_fs s = cs_fs s' \<and> cs_fileName s = cs_fileName s' \<and> cs_sent s = cs_sent s' \<and> cs_wait s = cs_wait s'
     \<and> map (\<lambda>(fid, sz, chunks). (fid, sz)) (cs_backups s) = map (\<lambda>(fid, sz, chunks). (fid, sz)) (cs_backups s')"
proof -
  have "map (\<lambda>(fid, sz, chunks). (fid, sz, [])) xs = map (\<lambda>(fid, sz, chunks). (fid, sz, [])) ys
      \<longleftrightarrow> map (\<lambda>(fid, sz, chunks). (fid, sz)) xs = map (\<lambda>(fid, sz, chunks). (fid, sz)) ys"
    for xs ys :: "(string \<times> int \<times> string list) list"
    by (induction xs ys rule: list_induct2') auto
  then show ?thesis by (cases s; cases s') (auto simp: conn_view_def)
qed

text \<open>Two rounds that agree in all but the disk, and on the disk as far as the paths of \<open>P\<close> go.\<close>

definition agree :: "string set \<Rightarrow> round \<Rightarrow> disk \<Rightarrow> round \<Rightarrow> bool" where
  "agree P r d r' \<longleftrightarrow>
     round_view r = round_view r'
     \<and> (\<forall>p \<in> P. content d p = content (cs_disk (round_state r')) p)
     \<and> (\<forall>f. cs_fs (round_state r) = Some f \<longrightarrow> of_path f \<in> P)"

lemma round_view_Go [simp]: "round_view r = Go s \<longleftrightarrow> (\<exists>t. r = Go t \<and> conn_view t = s)"
  by (cases r) auto

lemma Go_round_view: "Go s = round_view r \<longleftrightarrow> (\<exists>t. r = Go t \<and> s = conn_view t)"
  by (cases r) auto

section \<open>One message\<close>

lemma agree_handle_msg:
  assumes "agree P (Go s) (cs_disk s) (Go s')" "granted env io m \<Longrightarrow> upload_path env m \<in> P"
  shows "agree P (handle_msg env io m s) (cs_disk (round_state (handle_msg env io m s))) (handle_msg env io m s')"
proof -
  have v: "cs_fs s = cs_fs s'" "cs_fileName s = cs_fileName s'" "cs_sent s = cs_sent s'" "cs_wait s = cs_wait s'"
    "map (\<lambda>(fid, sz, chunks). (fid, sz)) (cs_backups s) = map (\<lambda>(fid, sz, chunks). (fid, sz)) (cs_backups s')"
    and c: "\<And>p. p \<in> P \<Longrightarrow> content (cs_disk s) p = content (cs_disk s') p"
    and f: "\<And>f. cs_fs s' = Some f \<Longrightarrow> of_path f \<in> P"
    using assms(1) by (auto simp: agree_def conn_view_eq)
  have len: "file_length f (cs_disk s) = file_length f (cs_disk s')" if "of_path f \<in> P" for f
    using c [OF that] by (simp add: file_length_def)
  note view = agree_def conn_view_eq send_msg_def reject_def
  consider (hd) "granted env io m" | (nohead) "\<not> granted env io m" and "m_MsgType m = MsgHead"
    | (wr) "m_MsgType m = MsgFile" | (ending) "m_MsgType m = MsgEnd"
    | (other) "m_MsgType m \<noteq> MsgHead" and "m_MsgType m \<noteq> MsgFile" and "m_MsgType m \<noteq> MsgEnd"
    by blast
  then show ?thesis
  proof cases
    case hd
    then show ?thesis using v c f assms(2) by (auto simp: handle_head_granted view split: option.splits)
  next
    case nohead
    then show ?thesis using v c f
      by (auto simp: handle_msg_def handle_head_def granted_def view Let_def
          split: outcome.splits sum.splits bool.splits if_splits)
  next
    case wr
    then show ?thesis using v c f
      by (auto simp: handle_file_def file_write_def view Let_def split: option.splits outcome.splits prod.splits)
  next
    case ending
    then show ?thesis using v c f len
      by (auto simp: handle_end_def view Let_def split: option.splits outcome.splits)
  next
    case other
    then show ?thesis using v c f
      by (auto simp: handle_msg_def handle_file_state_def handle_notify_def view split: list.splits)
  qed
qed

lemma loop_one [simp]: "handler_loop env [Arrive io m] s = handle_msg env io m s"
  by (simp split: round.splits)

lemma agree_arrival:
  assumes "agree P (Go s) (cs_disk s) (Go s')"
    and "\<And>io m. a = Arrive io m \<Longrightarrow> granted env io m \<Longrightarrow> upload_path env m \<in> P"
  shows "agree P (handler_loop env [a] s) (cs_disk (round_state (handler_loop env [a] s))) (handler_loop env [a] s')"
proof (cases a)
  case (Arrive io m)
  then show ?thesis
    using agree_handle_msg [OF assms(1)] assms(2) by (simp del: handler_loop.simps)
qed (use assms(1) in \<open>auto simp: agree_def conn_view_eq\<close>)

text \<open>A loop goes on from where it stands.\<close>

fun go_on :: "handler_env \<Rightarrow> arrival list \<Rightarrow> round \<Rightarrow> round" where
  "go_on env as (Go s) = handler_loop env as s"
| "go_on env as r = r"

lemma go_on_Nil [simp]: "go_on env [] r = r"
  by (cases r) simp_all

lemma handler_loop_Cons: "handler_loop env (a # as) s = go_on env as (handler_loop env [a] s)"
  by (cases a) (auto split: round.splits)

lemma go_on_Cons: "go_on env (a # as) r = go_on env as (go_on env [a] r)"
  by (cases r) (simp_all add: handler_loop_Cons [of env a as])

section \<open>The steps of the server\<close>

lemma agree_disk_state:
  "agree P (Go s) d (Go s') \<Longrightarrow> agree P (Go (s\<lparr>cs_disk := d\<rparr>)) (cs_disk (s\<lparr>cs_disk := d\<rparr>)) (Go s')"
  by (auto simp: agree_def conn_view_eq)

lemma agree_own_step:
  assumes "agree P (sv_conn S i) (sv_disk S) r'"
    and "\<And>io m. a = Arrive io m \<Longrightarrow> granted env io m \<Longrightarrow> upload_path env m \<in> P"
  shows "agree P (sv_conn (serve env (i, a) S) i) (sv_disk (serve env (i, a) S)) (go_on env [a] r')"
proof (cases "sv_conn S i")
  case (Go s)
  then obtain s' where r': "r' = Go s'" using assms(1) by (auto simp: agree_def Go_round_view)
  then show ?thesis
    using agree_arrival [OF agree_disk_state assms(2)] assms(1) Go by (simp add: Let_def del: handler_loop.simps)
next
  case (Stop s e)
  with assms(1) show ?thesis by (cases r') (auto simp: agree_def)
next
  case (Fault s)
  with assms(1) show ?thesis by (cases r') (auto simp: agree_def)
next
  case (Hang s)
  with assms(1) show ?thesis by (cases r') (auto simp: agree_def)
qed

text \<open>The open file of a connection, and what its step may change.\<close>

definition fs_inside :: "string set \<Rightarrow> round \<Rightarrow> bool" where
  "fs_inside P r \<longleftrightarrow> (\<forall>f. cs_fs (round_state r) = Some f \<longrightarrow> of_path f \<in> P)"

lemma serve_other_conn [simp]: "i \<noteq> j \<Longrightarrow> sv_conn (serve env (j, a) S) i = sv_conn S i"
  by (auto simp: Let_def split: round.splits)

lemma serve_inside:
  assumes "fs_inside P (sv_conn S j)"
    and "\<And>io m. a = Arrive io m \<Longrightarrow> granted env io m \<Longrightarrow> upload_path env m \<in> P"
  shows "fs_inside P (sv_conn (serve env (j, a) S) j)"
    and "p \<notin> P \<Longrightarrow> content (sv_disk (serve env (j, a) S)) p = content (sv_disk S) p"
proof -
  have arr: "fs_inside P (handler_loop env [a] s) \<and>
      (p \<notin> P \<longrightarrow> content (cs_disk (round_state (handler_loop env [a] s))) p = content (cs_disk s) p)"
    if s: "fs_inside P (Go s)" for s
  proof (cases a)
    case (Arrive io m)
    have "fs_inside P (handle_msg env io m s)"
      using round_fs [of env io m "\<lambda>q. q \<in> P" s] assms(2) [OF Arrive] s by (auto simp: fs_inside_def)
    moreover have "p \<notin> P \<longrightarrow> content (cs_disk (round_state (handle_msg env io m s))) p = content (cs_disk s) p"
      using round_disk [of env io m s p] assms(2) [OF Arrive] s by (auto simp: fs_inside_def)
    ultimately show ?thesis using Arrive by (simp del: handler_loop.simps)
  qed (use s in \<open>auto simp: fs_inside_def\<close>)
  have "fs_inside P (Go (s\<lparr>cs_disk := sv_disk S\<rparr>))" if "sv_conn S j = Go s" for s
    using assms(1) that by (simp add: fs_inside_def)
  note own = arr [OF this]
  show "fs_inside P (sv_conn (serve env (j, a) S) j)"
    using assms(1) own by (cases "sv_conn S j") (simp_all add: Let_def del: handler_loop.simps)
  show "p \<notin> P \<Longrightarrow> content (sv_disk (serve env (j, a) S)) p = content (sv_disk S) p"
    using own by (cases "sv_conn S j") (simp_all add: Let_def del: handler_loop.simps)
qed

lemma agree_other_disk:
  "agree P r d r' \<Longrightarrow> (\<And>p. p \<in> P \<Longrightarrow> content d' p = content d p) \<Longrightarrow> agree P r d' r'"
  by (simp add: agree_def)

lemma arrivals_of_Cons: "arrivals_of i (e # es) = (if fst e = i then snd e # arrivals_of i es else arrivals_of i es)"
  by (simp add: arrivals_of_def)

text \<open>
  The paths of each connection are a set of its own: then each connection and its files are as if it
  had been alone, whatever the interleaving.
\<close>

lemma serve_all_agrees:
  assumes "\<And>j k. j \<noteq> k \<Longrightarrow> P j \<inter> P k = {}"
    and "\<And>j io m. (j, Arrive io m) \<in> set es \<Longrightarrow> granted env io m \<Longrightarrow> upload_path env m \<in> P j"
    and "\<And>j. fs_inside (P j) (sv_conn S j)" "agree (P i) (sv_conn S i) (sv_disk S) r"
  shows "agree (P i) (sv_conn (serve_all env es S) i) (sv_disk (serve_all env es S)) (go_on env (arrivals_of i es) r)"
  using assms(2-)
proof (induction es arbitrary: S r)
  case Nil
  then show ?case by (simp add: arrivals_of_def)
next
  case (Cons e es)
  obtain j a where e: "e = (j, a)" by fastforce
  have up: "upload_path env m \<in> P j" if "a = Arrive io m" "granted env io m" for io m
    using Cons.prems(1) [of j io m] that e by simp
  have own: "fs_inside (P j) (sv_conn (serve env (j, a) S) j)"
    by (rule serve_inside(1) [OF Cons.prems(2)]) (rule up)
  have rest: "content (sv_disk (serve env (j, a) S)) p = content (sv_disk S) p" if "p \<notin> P j" for p
    by (rule serve_inside(2) [OF Cons.prems(2) _ that]) (rule up)
  have inside: "fs_inside (P k) (sv_conn (serve env e S) k)" for k
  proof (cases "k = j")
    case True
    then show ?thesis using own e by (simp del: serve.simps)
  next
    case False
    then show ?thesis using Cons.prems(2) [of k] e by (simp del: serve.simps)
  qed
  have after_e: "agree (P i) (sv_conn (serve env e S) i) (sv_disk (serve env e S)) (if j = i then go_on env [a] r else r)"
  proof (cases "j = i")
    case True
    have "upload_path env m \<in> P i" if "a = Arrive io m" "granted env io m" for io m
      using up [OF that] True by simp
    from agree_own_step [OF Cons.prems(3) this] show ?thesis using True e by (simp del: serve.simps)
  next
    case False
    have "content (sv_disk (serve env e S)) p = content (sv_disk S) p" if "p \<in> P i" for p
      using rest [of p] assms(1) [OF False] that e by blast
    from agree_other_disk [OF Cons.prems(3) this] show ?thesis using False e by (simp del: serve.simps)
  qed
  have later: "upload_path env m \<in> P j" if "(j, Arrive io m) \<in> set es" "granted env io m" for j io m
    by (rule Cons.prems(1) [OF _ that(2)]) (use that(1) in simp)
  have "agree (P i) (sv_conn (serve_all env es (serve env e S)) i) (sv_disk (serve_all env es (serve env e S)))
      (go_on env (arrivals_of i es) (if j = i then go_on env [a] r else r))"
    by (rule Cons.IH [OF _ inside after_e]) (rule later)
  then show ?case
    using e by (simp add: arrivals_of_Cons go_on_Cons [of env a "arrivals_of i es" r]
        del: serve.simps go_on.simps split: if_splits)
qed

section \<open>Properties\<close>

lemma serve_all_new_agrees:
  assumes "\<And>j k. j \<noteq> k \<Longrightarrow> paths_of env j es \<inter> paths_of env k es = {}"
  shows "agree (paths_of env i es) (sv_conn (serve_all env es (new_server d)) i)
    (sv_disk (serve_all env es (new_server d))) (handler_loop env (arrivals_of i es) (new_conn d))"
proof -
  have "upload_path env m \<in> paths_of env j es" if "(j, Arrive io m) \<in> set es" "granted env io m" for j io m
    using that by (auto simp: paths_of_def)
  moreover have "fs_inside P (sv_conn (new_server d) j)"
    "agree P (sv_conn (new_server d) j) (sv_disk (new_server d)) (Go (new_conn d))" for P j
    by (simp_all add: fs_inside_def agree_def new_server_def new_conn_def)
  ultimately show ?thesis
    using serve_all_agrees [of "\<lambda>j. paths_of env j es" es env "new_server d" i "Go (new_conn d)"] assms by simp
qed

text \<open>
  C8: Connections whose granted heads name different files do not disturb each other.  However their messages
  interleave, each connection has sent the same answers and notifications, holds the same open file, has
  started the same backups and has ended in the same way as if it had been alone with its messages, and
  its files have the same content.  (The chunks a backup finds in the directory may be others'.)
\<close>
theorem connections_do_not_interfere:
  assumes "\<forall>j k. j \<noteq> k \<longrightarrow> paths_of env j es \<inter> paths_of env k es = {}"
  shows "round_view (sv_conn (serve_all env es (new_server d)) i)
      = round_view (handler_loop env (arrivals_of i es) (new_conn d))
    \<and> (\<forall>p \<in> paths_of env i es. content (sv_disk (serve_all env es (new_server d))) p
      = content (cs_disk (round_state (handler_loop env (arrivals_of i es) (new_conn d)))) p)"
  using serve_all_new_agrees [of env es i d] assms unfolding agree_def by blast

definition two_heads :: "(nat \<times> arrival) list" where
  "two_heads = [(0, Arrive sample_io (sample_head ''x'')), (1, Arrive sample_io (sample_head ''y''))]"

lemma two_heads_paths:
  "paths_of sample_env i two_heads =
     (if i = 0 then {''/data/file/x''} else if i = 1 then {''/data/file/y''} else {})"
proof -
  have "filepath_Join [he_dir sample_env, n] = ''/data/file/'' @ n" if "simple_name n" for n
    using Join_simple [OF sample_clean that] by (simp add: sample_env_def)
  then have "upload_path sample_env (sample_head n) = ''/data/file/'' @ n" if "simple_name n" for n
    using that by (simp add: upload_path_def sample_head_def buildHeadMsg_def empty_Message_def)
  then show ?thesis
    using sample_granted by (auto simp: paths_of_def two_heads_def simple_name_def)
qed

lemma connections_do_not_interfere_witness:
  "content (sv_disk (serve_all sample_env two_heads (new_server []))) ''/data/file/x''
    = content (cs_disk (round_state (handler_loop sample_env [Arrive sample_io (sample_head ''x'')] (new_conn []))))
        ''/data/file/x''"
  using connections_do_not_interfere [of sample_env two_heads "[]" 0]
  by (simp add: two_heads_paths) (simp add: two_heads_def arrivals_of_def)

section \<open>Uploads side by side\<close>

lemma send_chunks_types:
  "m \<in> set (fst (send_chunks (\<lambda>_. False) (\<lambda>_. None) stale name ft i rest)) \<Longrightarrow> m_MsgType m = MsgFile"
proof (induction rest arbitrary: i rule: length_induct)
  case (1 rest)
  show ?case
  proof (cases "rest = []")
    case True
    then show ?thesis using "1.prems" by (simp add: send_chunks.simps)
  next
    case False
    then have lt: "length (drop TCP_SendBuffer rest) < length rest" by (simp add: TCP_SendBuffer_def)
    let ?r = "fst (send_chunks (\<lambda>_. False) (\<lambda>_. None) stale name ft (i + 1) (drop TCP_SendBuffer rest))"
    have "fst (send_chunks (\<lambda>_. False) (\<lambda>_. None) stale name ft i rest)
        = buildFileMsg stale name ft (length (take TCP_SendBuffer rest)) (take TCP_SendBuffer rest) # ?r"
      using False by (subst send_chunks.simps) (simp add: Let_def TCP_SendBuffer_def split: prod.split)
    then have "m_MsgType m = MsgFile \<or> m \<in> set ?r"
      using "1.prems" by (auto simp: buildFileMsg_def empty_Message_def)
    then show ?thesis using "1.IH" lt by blast
  qed
qed

text \<open>Only the head of an upload can be granted.\<close>

lemma upload_heads:
  assumes "sendSingleFile stale smooth_io d filePath fid ft lastmark pkey signmsg sign = (ms, None)"
    and "m \<in> set ms" "granted env io (delivered m)"
  shows "upload_path env m = filepath_Join [he_dir env, filepath_Base filePath]"
proof -
  have head: "m_MsgType m = MsgHead" using assms(3) by (simp add: granted_def)
  obtain bs where "content d filePath = Some bs"
    using assms(1) by (auto simp: sendSingleFile_def smooth_io_def split: option.splits)
  then have "ms = buildHeadMsg (filepath_Base filePath) fid ft lastmark pkey signmsg sign
      # fst (send_chunks (\<lambda>_. False) (\<lambda>_. None) stale (filepath_Base filePath) ft 0 bs)
      @ [buildEndMsg ft (filepath_Base filePath) fid (word_of_nat (length bs)) lastmark]"
    using assms(1) by (auto simp: sendSingleFile_def smooth_io_def Let_def split: prod.splits option.splits)
  then consider "m = buildHeadMsg (filepath_Base filePath) fid ft lastmark pkey signmsg sign"
    | "m_MsgType m = MsgFile" | "m_MsgType m = MsgEnd"
    using assms(2) send_chunks_types by (auto simp: buildEndMsg_def empty_Message_def)
  then show ?thesis
    using head by cases (simp_all add: upload_path_def buildHeadMsg_def empty_Message_def msg_defs)
qed

text \<open>
  \<open>uploads_to env es i io ms name bs\<close>: the messages of connection \<open>i\<close> are those of the client of
  handler.go for a file with base name \<open>name\<close> and content \<open>bs\<close>, whose head the server grants.
\<close>

definition uploads_to :: "handler_env \<Rightarrow> (nat \<times> arrival) list \<Rightarrow> nat \<Rightarrow> string \<Rightarrow> bytes \<Rightarrow> bool" where
  "uploads_to env es i name bs \<longleftrightarrow>
     (\<exists>io ms stale d filePath fid ft pkey signmsg sign.
        arrivals_of i es = map (\<lambda>m. Arrive io (delivered m)) ms
        \<and> sendSingleFile stale smooth_io d filePath fid ft False pkey signmsg sign = (ms, None)
        \<and> filepath_Base filePath = name \<and> content d filePath = Some bs \<and> length bs < 2 ^ 63
        \<and> granted env io (buildHeadMsg name fid ft False pkey signmsg sign) \<and> quiet_io io)"

lemma uploads_alone:
  assumes "uploads_to env es i name bs"
  shows "\<exists>s. handler_loop env (arrivals_of i es) (new_conn d) = Go s
     \<and> content (cs_disk s) (filepath_Join [he_dir env, name]) = Some bs
     \<and> cs_sent s = replicate 2 (buildNotifyMsg name Status_Ok [])"
proof -
  obtain io ms stale d1 filePath fid ft pkey signmsg sign where u:
    "arrivals_of i es = map (\<lambda>m. Arrive io (delivered m)) ms"
    "sendSingleFile stale smooth_io d1 filePath fid ft False pkey signmsg sign = (ms, None)"
    "filepath_Base filePath = name" "content d1 filePath = Some bs" "length bs < 2 ^ 63"
    "granted env io (buildHeadMsg name fid ft False pkey signmsg sign)" "quiet_io io"
    using assms by (auto simp: uploads_to_def)
  show ?thesis
    using upload_reproduces_file [OF u(4,5) u(6) [folded u(3)] u(7), of stale d] u(1,2,3) by auto
qed

lemma paths_of_arrivals:
  "paths_of env i es = {upload_path env m | io m. Arrive io m \<in> set (arrivals_of i es) \<and> granted env io m}"
  by (force simp: paths_of_def arrivals_of_def)

lemma uploads_paths:
  assumes "uploads_to env es i name bs"
  shows "paths_of env i es = {filepath_Join [he_dir env, name]}"
proof -
  obtain io ms stale d1 filePath fid ft pkey signmsg sign where u:
    "arrivals_of i es = map (\<lambda>m. Arrive io (delivered m)) ms"
    "sendSingleFile stale smooth_io d1 filePath fid ft False pkey signmsg sign = (ms, None)"
    "filepath_Base filePath = name" "content d1 filePath = Some bs"
    "granted env io (buildHeadMsg name fid ft False pkey signmsg sign)"
    using assms by (auto simp: uploads_to_def)
  let ?h = "buildHeadMsg name fid ft False pkey signmsg sign"
  have "?h \<in> set ms"
    using u(2-4) by (auto simp: sendSingleFile_def smooth_io_def Let_def split: prod.splits option.splits)
  then have head: "Arrive io (delivered ?h) \<in> set (arrivals_of i es)" "granted env io (delivered ?h)"
    "upload_path env (delivered ?h) = filepath_Join [he_dir env, name]"
    using u(1,5) by (auto simp: upload_path_def buildHeadMsg_def empty_Message_def)
  have only: "upload_path env m' = filepath_Join [he_dir env, name]"
    if arr: "Arrive io' m' \<in> set (arrivals_of i es)" "granted env io' m'" for io' m'
  proof -
    obtain m where m: "m \<in> set ms" "m' = delivered m" using arr(1) u(1) by auto
    then show ?thesis using upload_heads [OF u(2) m(1), of env io'] arr(2) u(3) by simp
  qed
  show ?thesis
  proof
    show "paths_of env i es \<subseteq> {filepath_Join [he_dir env, name]}"
      using only by (auto simp: paths_of_arrivals)
    show "{filepath_Join [he_dir env, name]} \<subseteq> paths_of env i es"
      unfolding paths_of_arrivals using head(1,2) head(3) [symmetric] by blast
  qed
qed

text \<open>
  Files of different names that are uploaded at the same time, over any number of connections and in any
  interleaving of their messages, all arrive byte for byte, and each client gets its two positive
  notifications.
\<close>
theorem uploads_side_by_side:
  assumes "\<forall>i < n. uploads_to env es i (name i) (bs i)" "\<forall>e \<in> set es. fst e < n"
    and "\<forall>i < n. \<forall>j < n. i \<noteq> j \<longrightarrow> filepath_Join [he_dir env, name i] \<noteq> filepath_Join [he_dir env, name j]"
  shows "\<forall>i < n. content (sv_disk (serve_all env es (new_server d))) (filepath_Join [he_dir env, name i]) = Some (bs i)
     \<and> cs_sent (round_state (sv_conn (serve_all env es (new_server d)) i)) = replicate 2 (buildNotifyMsg (name i) Status_Ok [])"
proof (intro allI impI)
  fix i assume i: "i < n"
  have "paths_of env j es = {}" if "\<not> j < n" for j using assms(2) that by (force simp: paths_of_def)
  then have paths: "paths_of env j es = (if j < n then {filepath_Join [he_dir env, name j]} else {})" for j
    using uploads_paths assms(1) by auto
  have "agree (paths_of env i es) (sv_conn (serve_all env es (new_server d)) i)
      (sv_disk (serve_all env es (new_server d))) (handler_loop env (arrivals_of i es) (new_conn d))"
    by (rule serve_all_new_agrees) (use assms(3) in \<open>simp add: paths\<close>)
  moreover obtain s where "handler_loop env (arrivals_of i es) (new_conn d) = Go s"
    "content (cs_disk s) (filepath_Join [he_dir env, name i]) = Some (bs i)"
    "cs_sent s = replicate 2 (buildNotifyMsg (name i) Status_Ok [])"
    using uploads_alone [of env es i "name i" "bs i" d] assms(1) i by blast
  ultimately show "content (sv_disk (serve_all env es (new_server d))) (filepath_Join [he_dir env, name i]) = Some (bs i)
     \<and> cs_sent (round_state (sv_conn (serve_all env es (new_server d)) i)) = replicate 2 (buildNotifyMsg (name i) Status_Ok [])"
    using i paths [of i] by (auto simp: agree_def conn_view_eq)
qed

section \<open>The same name twice\<close>

lemma serve_Go:
  assumes "sv_conn S i = Go s" "handle_msg env io m (s\<lparr>cs_disk := sv_disk S\<rparr>) = Go s'"
  shows "serve env (i, Arrive io m) S = \<lparr>sv_disk = cs_disk s', sv_conn = (sv_conn S)(i := Go s')\<rparr>"
  using assms by (simp add: Let_def)

lemma handle_end_counts:
  assumes "m_MsgType m = MsgEnd" "cs_fs s = Some f" "io_stat io = None" "\<not> m_LastMark m"
    and "int (file_length f (cs_disk s)) = sint (m_FileSize m)"
  shows "handle_msg env io m s = Go (s\<lparr>cs_sent := cs_sent s @ [buildNotifyMsg (cs_fileName s) Status_Ok []], cs_fs := None\<rparr>)"
  using handle_end_ok [OF assms(1-3,5)] assms(4) by simp

text \<open>
  C26: Nothing ties a file name to the connection that uploads it: a second connection that is granted a
  head for a file of its own, under the same name, writes into the same file.  When its head comes before
  the chunk of the first and its chunk after, the file of the first begins with the bytes of the
  second, and the first client is told that its file was received, for only the length is compared.
\<close>
theorem acknowledged_upload_is_overwritten:
  assumes "i \<noteq> j" "granted env io1 h1" "granted env io2 h2" "m_FileName h1 = name" "m_FileName h2 = name"
    and "quiet_io io1" "quiet_io io2" "bs2 \<noteq> []" "length bs2 \<le> length bs1" "length bs1 \<le> TCP_SendBuffer"
    and "S = serve_all env
      [(i, Arrive io1 h1), (j, Arrive io2 h2),
       (i, Arrive io1 (delivered (buildFileMsg stale name ft (length bs1) bs1))),
       (j, Arrive io2 (delivered (buildFileMsg stale name ft (length bs2) bs2))),
       (i, Arrive io1 (delivered (buildEndMsg ft name fid (word_of_nat (length bs1)) False)))] (new_server d)"
  shows "content (sv_disk S) (filepath_Join [he_dir env, name]) = Some (bs2 @ drop (length bs2) bs1)
    \<and> (\<exists>s. sv_conn S i = Go s \<and> cs_sent s = replicate 2 (buildNotifyMsg name Status_Ok []))"
proof -
  let ?p = "filepath_Join [he_dir env, name]"
  let ?ok = "buildNotifyMsg name Status_Ok []"
  let ?f1 = "delivered (buildFileMsg stale name ft (length bs1) bs1)"
  let ?f2 = "delivered (buildFileMsg stale name ft (length bs2) bs2)"
  let ?e = "delivered (buildEndMsg ft name fid (word_of_nat (length bs1)) False)"
  have q: "io_open io1 = None" "io_write io1 = None" "io_stat io1 = None" "io_open io2 = None" "io_write io2 = None"
    using assms(6,7) by (simp_all add: quiet_io_def)
  define c where "c = (\<lambda>f ms D. (new_conn d)\<lparr>cs_fileName := name, cs_sent := ms, cs_fs := f, cs_disk := D\<rparr>)"
  have c: "(c f ms D)\<lparr>cs_disk := D'\<rparr> = c f ms D'" "cs_disk (c f ms D) = D" "cs_fs (c f ms D) = f"
    "cs_sent (c f ms D) = ms" "cs_fileName (c f ms D) = name" for f ms D D'
    by (simp_all add: c_def new_conn_def)
  have head: "handle_msg env io h ((new_conn d)\<lparr>cs_disk := D\<rparr>) = Go (c (Some \<lparr>of_path = ?p, of_off = 0\<rparr>) [?ok] (put_file ?p [] D))"
    if "granted env io h" "m_FileName h = name" "io_open io = None" for io h D
    using that by (simp add: handle_head_granted upload_path_def send_msg_def c_def new_conn_def)
  have writes: "handle_msg env io (delivered (buildFileMsg stale name ft (length bs) bs)) (c (Some f) ms D) =
      Go (c (Some (fst (file_write f bs D))) ms (snd (file_write f bs D)))"
    if "io_write io = None" "length bs \<le> TCP_SendBuffer" for io bs f ms D
    using handle_file_ok [of "delivered (buildFileMsg stale name ft (length bs) bs)" "c (Some f) ms D" f io bs env]
      slice_delivered_FileMsg [OF that(2), of stale name ft] that(1) by (simp add: c_def new_conn_def)
  have len: "length bs1 < 2 ^ 63" "length bs2 \<le> TCP_SendBuffer"
    using assms(9,10) by (simp_all add: TCP_SendBuffer_def)
  have ends: "handle_msg env io1 ?e (c (Some f) ms D) = Go (c None (ms @ [?ok]) D)"
    if "file_length f D = length bs1" for f ms D
    using handle_end_counts [of ?e "c (Some f) ms D" f io1 env] that q(3) sint_length [OF len(1)]
    by (simp add: c_def new_conn_def buildEndMsg_def empty_Message_def)
  let ?z = "\<lparr>of_path = ?p, of_off = 0\<rparr>"
  define D1 where "D1 = put_file ?p [] d"
  define D2 where "D2 = put_file ?p [] D1"
  define D3 where "D3 = snd (file_write ?z bs1 D2)"
  define D4 where "D4 = snd (file_write ?z bs2 D3)"
  define f1 where "f1 = fst (file_write ?z bs1 D2)"
  define f2 where "f2 = fst (file_write ?z bs2 D3)"
  have "content D3 ?p = Some bs1" by (simp add: D3_def D2_def file_write_def write_at_def)
  then have D4: "content D4 ?p = Some (bs2 @ drop (length bs2) bs1)"
    by (simp add: D4_def file_write_def write_at_def)
  then have l: "file_length f1 D4 = length bs1"
    using assms(9) by (simp add: file_length_def f1_def file_write_def)
  let ?S0 = "new_server d"
  let ?S1 = "\<lparr>sv_disk = D1, sv_conn = (sv_conn ?S0)(i := Go (c (Some ?z) [?ok] D1))\<rparr>"
  let ?S2 = "\<lparr>sv_disk = D2, sv_conn = (sv_conn ?S1)(j := Go (c (Some ?z) [?ok] D2))\<rparr>"
  let ?S3 = "\<lparr>sv_disk = D3, sv_conn = (sv_conn ?S2)(i := Go (c (Some f1) [?ok] D3))\<rparr>"
  let ?S4 = "\<lparr>sv_disk = D4, sv_conn = (sv_conn ?S3)(j := Go (c (Some f2) [?ok] D4))\<rparr>"
  let ?S5 = "\<lparr>sv_disk = D4, sv_conn = (sv_conn ?S4)(i := Go (c None [?ok, ?ok] D4))\<rparr>"
  note ij = assms(1) assms(1) [symmetric]
  have s1: "serve env (i, Arrive io1 h1) ?S0 = ?S1"
    using serve_Go [of ?S0 i "new_conn d"] head [OF assms(2,4) q(1), of d] ij by (simp add: new_server_def c D1_def del: serve.simps)
  have s2: "serve env (j, Arrive io2 h2) ?S1 = ?S2"
    using serve_Go [of ?S1 j "new_conn d"] head [OF assms(3,5) q(4), of D1] ij by (simp add: new_server_def c D2_def del: serve.simps)
  have s3: "serve env (i, Arrive io1 ?f1) ?S2 = ?S3"
    using serve_Go [of ?S2 i "c (Some ?z) [?ok] D1"] writes [OF q(2) assms(10), of ?z "[?ok]" D2] ij by (simp add: c D3_def f1_def del: serve.simps)
  have s4: "serve env (j, Arrive io2 ?f2) ?S3 = ?S4"
    using serve_Go [of ?S3 j "c (Some ?z) [?ok] D2"] writes [OF q(5) len(2), of ?z "[?ok]" D3] ij by (simp add: c D4_def f2_def del: serve.simps)
  have s5: "serve env (i, Arrive io1 ?e) ?S4 = ?S5"
    using serve_Go [of ?S4 i "c (Some f1) [?ok] D3"] ends [OF l, of "[?ok]"] ij by (simp add: c del: serve.simps)
  have run: "S = ?S5"
    unfolding assms(11) serve_all.simps s1 s2 s3 s4 s5 by (rule refl)
  show ?thesis unfolding run by (simp add: D4 c numeral_2_eq_2)
qed

lemma acknowledged_upload_is_overwritten_witness:
  "\<exists>es s. content (sv_disk (serve_all sample_env es (new_server []))) (filepath_Join [he_dir sample_env, ''x'']) = Some [9, 2, 3]
    \<and> sv_conn (serve_all sample_env es (new_server [])) 1 = Go s
    \<and> cs_sent s = replicate 2 (buildNotifyMsg ''x'' Status_Ok [])"
proof -
  have n: "m_FileName (sample_head ''x'') = ''x''" by (simp add: sample_head_def buildHeadMsg_def empty_Message_def)
  have q: "quiet_io sample_io" by (simp add: quiet_io_def sample_io_def)
  have ne: "(1 :: nat) \<noteq> 2" "[9 :: byte] \<noteq> []" "length [9 :: byte] \<le> length [1 :: byte, 2, 3]"
    "length [1 :: byte, 2, 3] \<le> TCP_SendBuffer" by (simp_all add: TCP_SendBuffer_def)
  note over = acknowledged_upload_is_overwritten
    [OF ne(1) sample_granted sample_granted n n q q ne(2-4) refl, of "[]" FileType_file "''f''" "[]"]
  have "[9] @ drop (length [9 :: byte]) [1, 2, 3] = [9, 2, 3 :: byte]" by simp
  with over show ?thesis by metis
qed

lemma uploads_side_by_side_witness:
  "\<exists>es. content (sv_disk (serve_all sample_env es (new_server [])))
       (filepath_Join [he_dir sample_env, ''x'']) = Some [1, 2, 3]"
proof -
  let ?h = "buildHeadMsg (filepath_Base ''/tmp/x'') ''f'' FileType_file False (replicate 32 1) [1] (replicate 64 2)"
  have base: "filepath_Base ''/tmp/x'' = ''x''" by code_simp
  have g: "granted sample_env sample_io ?h" using sample_granted [of "filepath_Base ''/tmp/x''"] by (simp add: sample_head_def)
  obtain ms where ms: "sendSingleFile [] smooth_io [(''/tmp/x'', [1, 2, 3])] ''/tmp/x'' ''f'' FileType_file False
      (replicate 32 1) [1] (replicate 64 2) = (ms, None)"
    using upload_reproduces_file [of "[(''/tmp/x'', [1, 2, 3])]" "''/tmp/x''" "[1, 2, 3]" sample_env sample_io
        "''f''" FileType_file False "replicate 32 1" "[1]" "replicate 64 2" "[]" "[]"] g
    by (auto simp: content_def quiet_io_def sample_io_def)
  define es where "es = map (\<lambda>m. (0 :: nat, Arrive sample_io (delivered m))) ms"
  have "arrivals_of 0 es = map (\<lambda>m. Arrive sample_io (delivered m)) ms"
    by (simp add: arrivals_of_def es_def filter_map comp_def)
  moreover have "content [(''/tmp/x'', [1, 2, 3 :: byte])] ''/tmp/x'' = Some [1, 2, 3]" by (simp add: content_def)
  moreover have "quiet_io sample_io" by (simp add: quiet_io_def sample_io_def)
  ultimately have up: "uploads_to sample_env es 0 ''x'' [1, 2, 3]"
    unfolding uploads_to_def using ms base g
    by (intro exI [of _ sample_io] exI [of _ ms] exI [of _ "[]"] exI [of _ "[(''/tmp/x'', [1, 2, 3])]"] exI [of _ "''/tmp/x''"]
        exI [of _ "''f''"] exI [of _ FileType_file] exI [of _ "replicate 32 1"] exI [of _ "[1]"] exI [of _ "replicate 64 2"]) simp
  have n: "\<forall>e \<in> set es. fst e < 1" by (simp add: es_def)
  show ?thesis
    using uploads_side_by_side [of 1 sample_env es "\<lambda>_. ''x''" "\<lambda>_. [1, 2, 3]" "[]"] up n by auto
qed

end
