(* ===== verification/Pipeline.thy ===== *)
theory Pipeline
  imports HandlerProps BackupProps
begin

text \<open>
  From the upload of a file to its record on the chain (node/handler.go): the connection that receives the
  file, the backup that its last end message starts, and the call that reports the blocks.
\<close>

section \<open>The last end message\<close>

text \<open>The end message of an upload, marked last, with the size of the whole file in \<open>SignMsg\<close>.\<close>

definition last_end :: "u8 \<Rightarrow> string \<Rightarrow> string \<Rightarrow> nat \<Rightarrow> bytes \<Rightarrow> Message" where
  "last_end ft name fid n sz = (buildEndMsg ft name fid (word_of_nat n) True)\<lparr>m_SignMsg := sz\<rparr>"

lemma last_end_fields [simp]:
  "m_MsgType (last_end ft name fid n sz) = MsgEnd" "m_LastMark (last_end ft name fid n sz)"
  "m_FileHash (last_end ft name fid n sz) = fid" "m_SignMsg (last_end ft name fid n sz) = sz"
  "m_FileSize (last_end ft name fid n sz) = word_of_nat n"
  by (simp_all add: last_end_def buildEndMsg_def empty_Message_def)

lemma handle_end_backup:
  assumes "m_MsgType m = MsgEnd" "cs_fs s = Some f" "io_stat io = None" "m_LastMark m"
    and "int (file_length f (cs_disk s)) = sint (m_FileSize m)" "Uint64 (m_SignMsg m) = Ret v"
  shows "handle_msg env io m s =
     Go (s\<lparr>cs_sent := cs_sent s @ [buildNotifyMsg (cs_fileName s) Status_Ok []], cs_fs := None,
       cs_backups := cs_backups s @ [(m_FileHash m, sint v, glob (he_dir env @ ''/'' @ m_FileHash m @ ''*'') (cs_disk s))]\<rparr>)"
  using assms by (simp add: handle_end_def send_msg_def Let_def)

section \<open>The blocks of a file\<close>

lemma place_chunk_rest: "place_chunk C fpath ios c = (Some (b, ios1), c') \<Longrightarrow> set ios1 \<subseteq> set ios"
proof (induction ios arbitrary: c)
  case (Cons io ios)
  obtain r c1 where "backupFile C io fpath c = (r, c1)" by fastforce
  with Cons show ?case by (fastforce split: option.splits prod.splits if_splits)
qed simp

lemma place_chunks_blocks:
  assumes "place_chunks b58enc sum512 C fid i chunks f ios c = (Some (bs, f'), c')"
  shows "list_all2 (\<lambda>chunk b. \<exists>io \<in> set ios. \<exists>c0 c1. backupFile C io chunk c0 = (Some (b, None), c1) \<and> bi_MinerId b \<noteq> 0) chunks bs"
  using assms
proof (induction chunks arbitrary: i f ios c bs)
  case (Cons ch chs)
  obtain r c1 where pc: "place_chunk C ch ios c = (r, c1)" by fastforce
  obtain b ios1 where r: "r = Some (b, ios1)" using Cons.prems pc by (cases r) auto
  define acc where "acc = (case EncodePublicKeyAsCessAccount b58enc sum512 (bi_MinerAcc b) of Inl err \<Rightarrow> [] | Inr a \<Rightarrow> a)"
  define f1 where "f1 = f\<lparr>st_Miners := st_Miners f @ [(i, acc)]\<rparr>"
  obtain bs1 where rest: "place_chunks b58enc sum512 C fid (i + 1) chs f1 ios1 (save_store C fid f1 c1) = (Some (bs1, f'), c')"
    and bs: "bs = b # bs1"
    using Cons.prems pc r unfolding f1_def acc_def by (auto simp: Let_def split: option.splits prod.splits)
  have sub: "set ios1 \<subseteq> set ios"
    using place_chunk_rest [OF pc [unfolded r]] by auto
  have "list_all2 (\<lambda>chunk b. \<exists>io \<in> set ios. \<exists>c0 c1. backupFile C io chunk c0 = (Some (b, None), c1) \<and> bi_MinerId b \<noteq> 0) chs bs1"
    by (rule list_all2_mono [OF Cons.IH [OF rest]]) (use sub in blast)
  then show ?case using place_chunk_placed [OF pc [unfolded r]] by (simp add: bs)
qed (auto)

lemma backup_stored:
  assumes "FileBackupManagement b58enc sum512 C submit meta sched ios fid fsize chunks (c, s) = (Ended Stored, c', s')"
  shows "\<exists>blocks. submit_meta (submit fid (word_of_int fsize) blocks) meta 0 s = (Stored, s')
    \<and> list_all2 (\<lambda>chunk b. \<exists>io \<in> set ios. \<exists>c0 c1. backupFile C io chunk c0 = (Some (b, None), c1) \<and> bi_MinerId b \<noteq> 0) chunks blocks"
proof -
  have ne: "\<not> length chunks \<le> 0" using assms by (auto simp: FileBackupManagement_def Let_def)
  obtain r c1 where pl: "place_chunks b58enc sum512 C fid 0 chunks (first_store fid fsize sched) ios
      (save_store C fid (first_store fid fsize sched) c) = (r, c1)" by fastforce
  obtain blocks f1 where r: "r = Some (blocks, f1)" using assms ne pl by (cases r) (auto simp: FileBackupManagement_def Let_def)
  obtain e s1 where sm: "submit_meta (submit fid (word_of_int fsize) blocks) meta 0 s = (e, s1)" by fastforce
  have "e = Stored \<and> s1 = s'" using assms ne pl r sm by (cases e) (auto simp: FileBackupManagement_def Let_def)
  then show ?thesis using place_chunks_blocks [OF pl [unfolded r]] sm by blast
qed

section \<open>Properties\<close>

text \<open>
  C2: An uploaded file is reported to the chain as it was received.  When the head of a file is granted, its
  chunks and a last end message with the size arrive, and no other file begins with the
  identifier, the handler goes on with a copy of the bytes on the disk and has started one backup, of just this
  file.  If that backup ends with the meta information stored, what it submitted was the
  identifier, the size the client gave and one block, of the length of the uploaded bytes and under the name of the
  file, which was sent to the miner it names.
\<close>

theorem upload_is_reported_to_the_chain:
  assumes "clean_dir (he_dir env)" "plain_name (he_dir env)" "plain_name fid" "simple_name (fid @ ext)"
    and "\<forall>r. content old (he_dir env @ CHR ''/'' # fid @ r) \<noteq> None \<longrightarrow> r = ext"
    and "granted env io (buildHeadMsg (fid @ ext) fid ft False pkey signmsg sign)" "quiet_io io"
    and "length bs < 2 ^ 63" "Uint64 sz = Ret v"
    and "FileBackupManagement b58enc sum512 C submit meta sched ios fid (sint v)
        [he_dir env @ CHR ''/'' # fid @ ext] (c, st) = (Ended Stored, c', st')"
    and "\<forall>b \<in> set ios. \<forall>n. bo_stat b = Inr n \<longrightarrow> n = length bs"
  shows "\<exists>s. handler_loop env (map (\<lambda>m. Arrive io (delivered m)) (buildHeadMsg (fid @ ext) fid ft False pkey signmsg sign
        # fst (send_chunks (\<lambda>_. False) (\<lambda>_. None) stale (fid @ ext) ft 0 bs) @ [last_end ft (fid @ ext) fid (length bs) sz]))
        (new_conn old) = Go s
    \<and> content (cs_disk s) (he_dir env @ CHR ''/'' # fid @ ext) = Some bs
    \<and> cs_backups s = [(fid, sint v, [he_dir env @ CHR ''/'' # fid @ ext])]
    \<and> (\<exists>b k. submit_meta (submit fid v [b]) meta 0 st = (Stored, st')
        \<and> bi_BlockSize b = word_of_nat (length bs)
        \<and> bi_BlockId b = bytes_of_string ((fid @ ext) @ concat (replicate k ''.000'')) \<and> length (bi_BlockId b) = 68
        \<and> (\<exists>a \<in> set ios. bo_dial a (bi_MinerAcc b) = Sent None))"
proof -
  let ?name = "fid @ ext"
  let ?path = "he_dir env @ CHR ''/'' # fid @ ext"
  let ?last = "last_end ft ?name fid (length bs) sz"
  have path: "filepath_Join [he_dir env, ?name] = ?path" by (rule Join_simple [OF assms(1,4)])
  obtain D where D: "content D = (content old)(?path \<mapsto> bs)"
    and loop: "handler_loop env (map (\<lambda>m. Arrive io (delivered m)) (buildHeadMsg ?name fid ft False pkey signmsg sign
        # fst (send_chunks (\<lambda>_. False) (\<lambda>_. None) stale ?name ft 0 bs)) @ [Arrive io (delivered ?last)]) (new_conn old)
      = handler_loop env [Arrive io (delivered ?last)] ((new_conn old)\<lparr>cs_disk := D, cs_fileName := ?name,
           cs_fs := Some \<lparr>of_path = ?path, of_off = length bs\<rparr>, cs_sent := [buildNotifyMsg ?name Status_Ok []]\<rparr>)"
    using upload_before_end [OF assms(6,7), of old bs stale "[Arrive io (delivered ?last)]"] unfolding path by blast
  define s2 where "s2 = (new_conn old)\<lparr>cs_disk := D, cs_fileName := ?name,
      cs_fs := Some \<lparr>of_path = ?path, of_off = length bs\<rparr>, cs_sent := [buildNotifyMsg ?name Status_Ok []]\<rparr>"
  have "glob (he_dir env @ CHR ''/'' # fid @ ''*'') D = [?path]"
  proof (rule glob_single [OF assms(1-3) _ assms(4)])
    show "CHR ''/'' \<notin> set fid" using assms(4) by (simp add: simple_name_def)
    show "content D ?path \<noteq> None" by (simp add: D)
    show "r = ext" if "content D (he_dir env @ CHR ''/'' # fid @ r) \<noteq> None" for r
      using that assms(5) by (auto simp: D split: if_splits)
  qed
  then have "handle_msg env io (delivered ?last) s2 =
     Go (s2\<lparr>cs_sent := cs_sent s2 @ [buildNotifyMsg (cs_fileName s2) Status_Ok []], cs_fs := None,
       cs_backups := cs_backups s2 @ [(fid, sint v, [?path])]\<rparr>)"
    using handle_end_backup [of "delivered ?last" s2 "\<lparr>of_path = ?path, of_off = length bs\<rparr>" io v env]
      assms(7-9) sint_length [of "length bs"]
    by (simp add: s2_def file_length_def D quiet_io_def)
  then have run: "handler_loop env (map (\<lambda>m. Arrive io (delivered m)) (buildHeadMsg ?name fid ft False pkey signmsg sign
        # fst (send_chunks (\<lambda>_. False) (\<lambda>_. None) stale ?name ft 0 bs) @ [?last])) (new_conn old)
     = Go (s2\<lparr>cs_sent := cs_sent s2 @ [buildNotifyMsg (cs_fileName s2) Status_Ok []], cs_fs := None,
       cs_backups := cs_backups s2 @ [(fid, sint v, [?path])]\<rparr>)" (is "_ = Go ?s3")
    using loop by (simp add: s2_def)
  have s3: "content (cs_disk ?s3) ?path = Some bs" "cs_backups ?s3 = [(fid, sint v, [?path])]"
    by (simp_all add: s2_def D new_conn_def)
  obtain b a c0 c1 where b: "submit_meta (submit fid v [b]) meta 0 st = (Stored, st')" "a \<in> set ios"
    "backupFile C a ?path c0 = (Some (b, None), c1)" "bi_MinerId b \<noteq> 0"
    using backup_stored [OF assms(10)] by (auto simp: list_all2_Cons1)
  obtain n accs where n: "bo_stat a = Inr n"
    and d: "describes C a n (go_quot (int n) (fst (CalcFileBlockSizeAndScanSize (int n)))) accs (filepath_Base ?path) b"
    using backupFile_placed [OF b(3,4)] by blast
  have base: "filepath_Base ?path = ?name" using filepath_Base_name(2) [of ?name "he_dir env"] assms(4) by (simp add: simple_name_def)
  have "n = length bs" using assms(11) b(2) n by blast
  then have "bi_BlockSize b = word_of_nat (length bs)" "length (bi_BlockId b) = 68" "bo_dial a (bi_MinerAcc b) = Sent None"
    and "\<exists>k. bi_BlockId b = bytes_of_string (?name @ concat (replicate k ''.000''))"
    using d by (simp_all add: describes_def base len_FileBlockId_def)
  then have "\<exists>b k. submit_meta (submit fid v [b]) meta 0 st = (Stored, st') \<and> bi_BlockSize b = word_of_nat (length bs)
        \<and> bi_BlockId b = bytes_of_string (?name @ concat (replicate k ''.000'')) \<and> length (bi_BlockId b) = 68
        \<and> (\<exists>a \<in> set ios. bo_dial a (bi_MinerAcc b) = Sent None)"
    using b(1,2) by blast
  then show ?thesis using run s3 by (intro exI [of _ ?s3] conjI)
qed

text \<open>A backup sees of the path of a chunk its last element only.\<close>

lemma place_chunk_base: "filepath_Base p = filepath_Base q \<Longrightarrow> place_chunk C p ios c = place_chunk C q ios c"
proof (induction ios arbitrary: c)
  case (Cons io ios)
  then have "backupFile C io p c = backupFile C io q c" by (simp add: backupFile_def)
  with Cons show ?case by (simp split: option.split prod.split)
qed simp

lemma FileBackupManagement_base:
  "filepath_Base p = filepath_Base q \<Longrightarrow>
   FileBackupManagement b58enc sum512 C submit meta sched ios fid fsize [p] st
   = FileBackupManagement b58enc sum512 C submit meta sched ios fid fsize [q] st"
  by (simp add: FileBackupManagement_def place_chunk_base [of p q])

theorem upload_is_reported_to_the_chain_witness:
  "\<exists>s (b :: BlockInfo). handler_loop sample_env (map (\<lambda>m. Arrive sample_io (delivered m)) (buildHeadMsg (sample_name @ []) sample_name FileType_file False
        (replicate 32 1) [1] (replicate 64 2) # fst (send_chunks (\<lambda>_. False) (\<lambda>_. None) [] (sample_name @ []) FileType_file 0 [1, 2, 3, 4, 5])
        @ [last_end FileType_file (sample_name @ []) sample_name (length [1, 2, 3, 4, 5 :: byte]) [0, 0, 0, 0, 0, 0, 0, 5]])) (new_conn []) = Go s
    \<and> cs_backups s = [(sample_name, 5, [''/data/file/'' @ sample_name])]
    \<and> submit_meta (\<lambda>s. (Ret (''ab'', None), s)) (\<lambda>s. (Ret (Inl ''none''), s)) 0 () = (Stored, ())
    \<and> bi_BlockSize b = 5 \<and> length (bi_BlockId b) = 68"
proof -
  let ?path = "he_dir sample_env @ CHR ''/'' # sample_name @ []"
  have name: "simple_name (sample_name @ [])" "plain_name sample_name" "plain_name (he_dir sample_env)"
    by (auto simp: simple_name_def plain_name_def sample_name_def sample_env_def dest!: arg_cong [where f = length])
  have base: "filepath_Base ?path = filepath_Base sample_name"
    using name(1) filepath_Base_name [of sample_name] by (simp add: simple_name_def)
  have "replicate 32 (1 :: byte) \<noteq> bytes_of_string sample_name"
    by (rule bytes_of_string_differ) (simp add: sample_name_def)
  note management = sample_management_on [OF this, of 5]
  obtain e c' s' where run: "FileBackupManagement string_of_bytes (\<lambda>_. replicate 64 0) mem_cache
     (\<lambda>_ _ _ s. (Ret (''ab'', None), s)) (\<lambda>s. (Ret (Inl ''none''), s)) ''10.0.0.1:15000''
     [sample_backup_io] sample_name 5 [?path] (sample_cache, ()) = (e, c', s')" by (rule prod_cases3)
  have e: "e = Ended Stored" using run management unfolding FileBackupManagement_base [OF base] by simp
  have size: "Uint64 [0, 0, 0, 0, 0, 0, 0, 5] = Ret 5" by simp
  have run5: "FileBackupManagement string_of_bytes (\<lambda>_. replicate 64 0) mem_cache
     (\<lambda>_ _ _ s. (Ret (''ab'', None), s)) (\<lambda>s. (Ret (Inl ''none''), s)) ''10.0.0.1:15000''
     [sample_backup_io] sample_name (sint (5 :: u64)) [?path] (sample_cache, ()) = (Ended Stored, c', s')"
    using run e by simp
  have others: "\<forall>r. content [] (he_dir sample_env @ CHR ''/'' # sample_name @ r) \<noteq> None \<longrightarrow> r = []"
    and small: "length [1, 2, 3, 4, 5 :: byte] < 2 ^ 63"
    and stat: "\<forall>b \<in> set [sample_backup_io]. \<forall>n. bo_stat b = Inr n \<longrightarrow> n = length [1, 2, 3, 4, 5 :: byte]"
    by (simp_all add: content_def sample_backup_io_def)
  show ?thesis
    using upload_is_reported_to_the_chain [OF sample_clean name(3,2,1) others sample_granted_any sample_quiet small size run5 stat,
        where ft = FileType_file and stale = "[]"]
    by (auto simp: sample_env_def)
qed

section \<open>Files of others\<close>

lemma Clean_dotdot:
  assumes "clean_dir base" "simple_name f" "simple_name sub"
  shows "filepath_Clean (base @ CHR ''/'' # f @ ''/../'' @ sub) = base @ CHR ''/'' # sub"
    and "clean_dir (base @ CHR ''/'' # sub)"
    and "simple_name n \<Longrightarrow> filepath_Join [base @ CHR ''/'' # f @ ''/../'' @ sub, n] = (base @ CHR ''/'' # sub) @ CHR ''/'' # n"
proof -
  obtain es where es: "es \<noteq> []" "\<forall>e \<in> set es. simple_name e" "base = CHR ''/'' # join_slash es"
    using assms(1) by (auto simp: clean_dir_def)
  have path: "base @ CHR ''/'' # f @ ''/../'' @ sub = CHR ''/'' # join_slash (es @ [f, ''..'', sub])"
    "base @ CHR ''/'' # sub = CHR ''/'' # join_slash (es @ [sub])"
    "(base @ CHR ''/'' # f @ ''/../'' @ sub) @ CHR ''/'' # n = CHR ''/'' # join_slash (es @ [f, ''..'', sub, n])"
    "(base @ CHR ''/'' # sub) @ CHR ''/'' # n = CHR ''/'' # join_slash (es @ [sub, n])" for n
    using join_slash_snoc [OF es(1), of f] join_slash_snoc [OF es(1), of sub]
      join_slash_snoc [of "es @ [f]" "''..''"] join_slash_snoc [of "es @ [f, ''..'']" sub]
      join_slash_snoc [of "es @ [f, ''..'', sub]" n] join_slash_snoc [of "es @ [sub]" n]
    by (simp_all add: es(3))
  have elems: "clean_elems True [] (es @ f # ''..'' # xs) = es @ xs" if "\<forall>x \<in> set xs. simple_name x" for xs
    using clean_elems_append [of True "[]" es "f # ''..'' # xs"] clean_elems_simple [OF es(2), of True "[]"]
      clean_elems_simple [OF that, of True "rev es"] assms(2)
    by (simp add: simple_name_def)
  have no: "\<forall>x \<in> set (es @ f # ''..'' # xs). CHR ''/'' \<notin> set x" if "\<forall>x \<in> set xs. simple_name x" for xs
    using that es(2) assms(2) by (auto simp: simple_name_def)
  show "filepath_Clean (base @ CHR ''/'' # f @ ''/../'' @ sub) = base @ CHR ''/'' # sub"
    unfolding path(1,2) using Clean_rooted [OF _ no [of "[sub]"]] elems [of "[sub]"] assms(3) by simp
  show "clean_dir (base @ CHR ''/'' # sub)"
    unfolding clean_dir_def path(2) using es(2) assms(3) by (intro exI [of _ "es @ [sub]"]) auto
  show "filepath_Join [base @ CHR ''/'' # f @ ''/../'' @ sub, n] = (base @ CHR ''/'' # sub) @ CHR ''/'' # n" if "simple_name n"
  proof -
    have "filepath_Join [base @ CHR ''/'' # f @ ''/../'' @ sub, n] = filepath_Clean ((base @ CHR ''/'' # f @ ''/../'' @ sub) @ CHR ''/'' # n)"
      using that by (simp add: filepath_Join_def simple_name_def)
    then show ?thesis
      unfolding path(3,4) using Clean_rooted [OF _ no [of "[sub, n]"]] elems [of "[sub, n]"] assms(3) that by simp
  qed
qed

text \<open>
  C25: The end message decides which files are backed up, and it is not held to the file that was granted.  After one
  granted head of an empty file, an end message whose file identifier is a path out of the
  directory starts a backup of the files of that other directory of the node, its logs for example: their
  content goes to miners.
\<close>

theorem end_message_backs_up_other_files:
  assumes "clean_dir base" "simple_name f" "simple_name sub" "simple_name n" "he_dir env = base @ CHR ''/'' # f"
    and "plain_name (he_dir env)" "plain_name sub" "granted env io h" "quiet_io io"
    and "content d (base @ CHR ''/'' # sub @ CHR ''/'' # n) = Some bs"
  shows "\<exists>s chunks. handler_loop env [Arrive io h, Arrive io (last_end ft name (''../'' @ sub @ ''/'') 0 (replicate 8 0))] (new_conn d) = Go s
    \<and> cs_backups s = [(''../'' @ sub @ ''/'', 0, chunks)] \<and> base @ CHR ''/'' # sub @ CHR ''/'' # n \<in> set chunks"
proof -
  let ?dir = "base @ CHR ''/'' # f @ ''/../'' @ sub"
  define s1 where "s1 = send_msg (buildNotifyMsg (m_FileName h) Status_Ok [])
     ((new_conn d)\<lparr>cs_fileName := m_FileName h, cs_fs := Some \<lparr>of_path = upload_path env h, of_off = 0\<rparr>,
       cs_disk := put_file (upload_path env h) [] d\<rparr>)"
  have h: "handle_msg env io h (new_conn d) = Go s1"
    using assms(8,9) by (simp add: handle_head_granted quiet_io_def s1_def new_conn_def)
  have size: "Uint64 (replicate 8 0) = Ret 0" by (simp add: eval_nat_numeral)
  let ?e = "last_end ft name (''../'' @ sub @ ''/'') 0 (replicate 8 0)"
  let ?pat = "he_dir env @ ''/'' @ m_FileHash ?e @ ''*''"
  have e: "handle_msg env io ?e s1 = Go (s1\<lparr>cs_sent := cs_sent s1 @ [buildNotifyMsg (cs_fileName s1) Status_Ok []], cs_fs := None,
       cs_backups := cs_backups s1 @ [(m_FileHash ?e, sint (0 :: u64), glob ?pat (cs_disk s1))]\<rparr>)"
    by (rule handle_end_backup [where f = "\<lparr>of_path = upload_path env h, of_off = 0\<rparr>"]) (use assms(9) size in \<open>simp_all add: s1_def send_msg_def file_length_def quiet_io_def\<close>)
  have pat: "?pat = ?dir @ CHR ''/'' # [] @ ''*''" by (simp add: assms(5))
  have "(base @ CHR ''/'' # sub) @ CHR ''/'' # [] @ n \<in> set (glob (?dir @ CHR ''/'' # [] @ ''*'') (cs_disk s1))"
  proof (rule glob_finds)
    show "plain_name ?dir" using assms(5-7) by (auto simp: plain_name_def)
    show "clean_dir (base @ CHR ''/'' # sub)" "filepath_Clean ?dir = base @ CHR ''/'' # sub"
      by (rule Clean_dotdot [OF assms(1-3)])+
    show "filepath_Join [?dir, m] = (base @ CHR ''/'' # sub) @ CHR ''/'' # m" if "simple_name m" for m
      by (rule Clean_dotdot(3) [OF assms(1-3) that])
    show "content (cs_disk s1) ((base @ CHR ''/'' # sub) @ CHR ''/'' # [] @ n) \<noteq> None"
      using assms(10) by (simp add: s1_def send_msg_def)
  qed (use assms(4) in \<open>simp_all add: plain_name_def\<close>)
  then show ?thesis using h e unfolding pat by (simp add: s1_def send_msg_def new_conn_def)
qed

theorem end_message_backs_up_other_files_witness:
  "\<exists>s chunks. handler_loop sample_env [Arrive sample_io (sample_head ''x''),
      Arrive sample_io (last_end FileType_file ''x'' (''../'' @ ''log'' @ ''/'') 0 (replicate 8 0))]
      (new_conn [(''/data/log/common.log'', [7])]) = Go s
    \<and> cs_backups s = [(''../'' @ ''log'' @ ''/'', 0, chunks)]
    \<and> ''/data'' @ CHR ''/'' # ''log'' @ CHR ''/'' # ''common.log'' \<in> set chunks"
proof (rule end_message_backs_up_other_files [OF _ _ _ _ _ _ _ sample_granted sample_quiet])
  show "clean_dir ''/data''" by (simp add: clean_dir_def simple_name_def exI [of _ "[''data'']"])
  show "simple_name ''file''" "simple_name ''log''" "simple_name ''common.log''" by (simp_all add: simple_name_def)
  show "he_dir sample_env = ''/data'' @ CHR ''/'' # ''file''" "plain_name (he_dir sample_env)" "plain_name ''log''"
    by (simp_all add: sample_env_def plain_name_def)
  show "content [(''/data/log/common.log'', [7])] (''/data'' @ CHR ''/'' # ''log'' @ CHR ''/'' # ''common.log'') = Some [7]"
    by (simp add: content_def)
qed

end
