(* ===== verification/BackupChain.thy ===== *)
theory BackupChain
  imports BackupProps
begin

text \<open>
  The miner cache task and the backup together (node/sub_minerCache.go, node/handler.go): what the chain says
  of its miners reaches, through the cache and its texts, the blocks that are reported to the
  chain; and a backup ends when miners answer often enough.
\<close>

section \<open>A cache that follows the chain\<close>

text \<open>
  \<open>chain\<close> gives the details of the accounts that were read.  Under such an account the cache holds the
  record of the miner, when it is positive, or nothing.
\<close>

definition follows ::
    "('c \<Rightarrow> bytes \<Rightarrow> bytes option) \<Rightarrow> ('c \<Rightarrow> bool) \<Rightarrow> (AccountID \<Rightarrow> MinerInfo option) \<Rightarrow> 'c \<Rightarrow> bool" where
  "follows contents is_open chain c \<longleftrightarrow> is_open c \<and> (\<forall>acc mi. chain acc = Some mi \<longrightarrow>
     contents c acc = (if positive mi then Some (marshal_miner (miner_record mi)) else None))"

text \<open>The block of a miner that has room for a chunk of \<open>n\<close> bytes, as the chain knows it.\<close>

definition block_of :: "(AccountID \<Rightarrow> MinerInfo option) \<Rightarrow> nat \<Rightarrow> BlockInfo \<Rightarrow> bool" where
  "block_of chain n b \<longleftrightarrow> (\<exists>mi. chain (bi_MinerAcc b) = Some mi \<and> positive mi \<and> bi_MinerId b = mi_PeerId mi
     \<and> miner_address (cm_Ip (miner_record mi)) = Ret (bi_MinerIp b) \<and> word_of_nat n \<le> cm_Free (miner_record mi)
     \<and> bi_BlockSize b = word_of_nat n)"

text \<open>The miners that a query answers with are known.\<close>

definition knows :: "(AccountID \<Rightarrow> MinerInfo option) \<Rightarrow> backup_io \<Rightarrow> bool" where
  "knows chain io \<longleftrightarrow> (\<forall>accs. await_miners (bo_miners io) = Some (Ret accs) \<longrightarrow> (\<forall>acc \<in> set accs. chain acc \<noteq> None))"

context reliable_cacher
begin

abbreviation fits_chain :: "(AccountID \<Rightarrow> MinerInfo option) \<Rightarrow> 'c \<Rightarrow> bool" where
  "fits_chain \<equiv> follows contents is_open"

lemma follows_get:
  "fits_chain chain c \<Longrightarrow> chain acc = Some mi \<Longrightarrow>
     cGet C c acc = (if positive mi then Inr (marshal_miner (miner_record mi)) else Inl not_found)"
  by (simp add: follows_def get_contents)

lemma follows_save:
  "fits_chain chain c \<Longrightarrow> chain (bytes_of_string fid) = None \<Longrightarrow> fits_chain chain (save_store C fid f c)"
  using put_effect [of c "bytes_of_string fid" "marshal_store f"]
  by (force simp: follows_def save_store_def)

lemma try_miners_follows:
  assumes "fits_chain chain c" "\<forall>acc \<in> set accs. chain acc \<noteq> None" "try_miners C io n bn accs fname m0 c = (r, c')"
  shows "c' = c \<and> (\<forall>b. r = Ret b \<longrightarrow> bi_MinerId b \<noteq> 0 \<longrightarrow> block_of chain n b)"
  using assms(2,3)
proof (induction accs arbitrary: fname m0)
  case Nil
  then show ?case by (auto simp: zero_BlockInfo_def)
next
  case (Cons acc accs)
  obtain mi where mi: "chain acc = Some mi" using Cons.prems(1) by auto
  note get = follows_get [OF assms(1) mi]
  have rest: ?case if "try_miners C io n bn accs f m c = (r, c')" for f m
    using Cons.IH [OF _ that] Cons.prems(1) by simp
  show ?case
  proof (cases "positive mi")
    case False
    then show ?thesis using rest [of fname m0] Cons.prems(2) get by simp
  next
    case True
    have block: "block_of chain n \<lparr>bi_MinerId = cm_Peerid (miner_record mi), bi_BlockSize = word_of_nat n,
        bi_BlockNum = word_of_int bn, bi_BlockId = f1, bi_MinerIp = ip, bi_MinerAcc = acc\<rparr>"
      if "miner_address (cm_Ip (miner_record mi)) = Ret ip" "\<not> cm_Free (miner_record mi) < word_of_nat n" for ip f1
      using that mi True by (simp add: block_of_def miner_record_def not_less)
    have g: "cGet C c acc = Inr (marshal_miner (miner_record mi))" using get True by simp
    define f1 where "f1 = (if length fname < len_FileBlockId then fname @ ''.000'' else fname)"
    have step: "(if cm_Free (miner_record mi) < word_of_nat n then try_miners C io n bn accs fname (miner_record mi) c
        else if bo_resolve io (cm_Ip (miner_record mi)) \<noteq> None then try_miners C io n bn accs fname (miner_record mi) c
        else (case bo_dial io acc of
           DialErr err \<Rightarrow> (Panic, c)
         | NotTcp \<Rightarrow> try_miners C io n bn accs fname (miner_record mi) c
         | Sent (Some err) \<Rightarrow> try_miners C io n bn accs fname (miner_record mi) c
         | Sent None \<Rightarrow>
             if length f1 \<noteq> len_FileBlockId then try_miners C io n bn accs f1 (miner_record mi) c
             else (case miner_address (cm_Ip (miner_record mi)) of Panic \<Rightarrow> (Panic, c)
                | Ret ip \<Rightarrow> (Ret \<lparr>bi_MinerId = cm_Peerid (miner_record mi), bi_BlockSize = word_of_nat n,
                     bi_BlockNum = word_of_int bn, bi_BlockId = bytes_of_string f1,
                     bi_MinerIp = ip, bi_MinerAcc = acc\<rparr>, c)))) = (r, c')"
      using Cons.prems(2) by (simp only: try_miners.simps g sum.case unmarshal_marshal prod.case option.case Let_def f1_def)
    show ?thesis
    proof (cases "cm_Free (miner_record mi) < word_of_nat n \<or> bo_resolve io (cm_Ip (miner_record mi)) \<noteq> None")
      case True
      then show ?thesis using step rest by (auto split: if_splits)
    next
      case no: False
      show ?thesis using step no rest block by (auto split: dialed.splits option.splits if_splits outcome.splits)
    qed
  qed
qed

lemma backupFile_follows:
  assumes "fits_chain chain c" "knows chain io" "backupFile C io fpath c = (r, c')"
  shows "c' = c \<and> (\<forall>b. r = Some (b, None) \<longrightarrow> bi_MinerId b \<noteq> 0 \<longrightarrow> (\<exists>n. bo_stat io = Inr n \<and> block_of chain n b))"
proof (cases "bo_stat io")
  case (Inl e)
  then show ?thesis using assms(3) by (auto simp: backupFile_def Let_def)
next
  case (Inr n)
  let ?bn = "go_quot (int n) (fst (CalcFileBlockSizeAndScanSize (int n)))"
  obtain accs where accs: "accs = (case await_miners (bo_miners io) of Some (Ret accs) \<Rightarrow> accs | _ \<Rightarrow> [])" by blast
  have known: "\<forall>acc \<in> set (RandSlice (bo_rnd io) accs). chain acc \<noteq> None"
    using assms(2) unfolding accs knows_def set_RandSlice
    by (cases "await_miners (bo_miners io)"; cases "the (await_miners (bo_miners io))") simp_all
  obtain v c1 where tr: "try_miners C io n ?bn (RandSlice (bo_rnd io) accs) (filepath_Base fpath) empty_miner c = (v, c1)" by fastforce
  note placed = try_miners_follows [OF assms(1) known tr]
  show ?thesis
    using assms(3) Inr tr placed accs
    by (auto simp: backupFile_def Let_def zero_BlockInfo_def split: option.splits outcome.splits if_splits)
qed

lemma place_chunk_follows:
  assumes "fits_chain chain c" "\<forall>io \<in> set ios. knows chain io" "place_chunk C fpath ios c = (r, c')"
  shows "c' = c \<and> (\<forall>b ios1. r = Some (b, ios1) \<longrightarrow> set ios1 \<subseteq> set ios \<and> (\<exists>io \<in> set ios. \<exists>n. bo_stat io = Inr n \<and> block_of chain n b))"
  using assms(2,3)
proof (induction ios)
  case (Cons io ios)
  obtain q c1 where bf: "backupFile C io fpath c = (q, c1)" by fastforce
  note one = backupFile_follows [OF assms(1) _ bf]
  have c1: "c1 = c" and placed: "q = Some (b, None) \<Longrightarrow> bi_MinerId b \<noteq> 0 \<Longrightarrow> \<exists>n. bo_stat io = Inr n \<and> block_of chain n b" for b
    using one Cons.prems(1) by auto
  consider (wait) "q = None" | (placed) b where "q = Some (b, None)" "bi_MinerId b \<noteq> 0" "bi_BlockSize b \<noteq> 0"
    | (again) "place_chunk C fpath ios c = (r, c')"
    using Cons.prems(2) bf c1 by (cases q) (auto split: option.splits if_splits)
  then show ?case
  proof cases
    case wait
    then show ?thesis using Cons.prems(2) bf c1 by simp
  next
    case placed
    then show ?thesis using Cons.prems(2) bf c1 \<open>\<And>b. q = Some (b, None) \<Longrightarrow> bi_MinerId b \<noteq> 0 \<Longrightarrow> \<exists>n. bo_stat io = Inr n \<and> block_of chain n b\<close>
      by auto
  next
    case again
    then show ?thesis using Cons.IH Cons.prems(1) by auto
  qed
qed simp

lemma place_chunks_follows:
  assumes "fits_chain chain c" "\<forall>io \<in> set ios. knows chain io" "chain (bytes_of_string fid) = None"
    and "place_chunks b58enc sum512 C fid i chunks f ios c = (Some (bs, f'), c')"
  shows "list_all2 (\<lambda>chunk b. \<exists>io \<in> set ios. \<exists>n. bo_stat io = Inr n \<and> block_of chain n b) chunks bs"
  using assms
proof (induction chunks arbitrary: i f ios c bs)
  case (Cons ch chs)
  obtain r c1 where pc: "place_chunk C ch ios c = (r, c1)" by fastforce
  obtain b ios1 where r: "r = Some (b, ios1)" using Cons.prems(4) pc by (cases r) auto
  define acc where "acc = (case EncodePublicKeyAsCessAccount b58enc sum512 (bi_MinerAcc b) of Inl err \<Rightarrow> [] | Inr a \<Rightarrow> a)"
  define f1 where "f1 = f\<lparr>st_Miners := st_Miners f @ [(i, acc)]\<rparr>"
  obtain bs1 where rest: "place_chunks b58enc sum512 C fid (i + 1) chs f1 ios1 (save_store C fid f1 c1) = (Some (bs1, f'), c')"
    and bs: "bs = b # bs1"
    using Cons.prems(4) pc r unfolding f1_def acc_def by (auto simp: Let_def split: option.splits prod.splits)
  note one = place_chunk_follows [OF Cons.prems(1,2) pc]
  have c1: "c1 = c" and sub: "set ios1 \<subseteq> set ios" using one r by auto
  have "list_all2 (\<lambda>chunk b. \<exists>io \<in> set ios1. \<exists>n. bo_stat io = Inr n \<and> block_of chain n b) chs bs1"
    by (rule Cons.IH [OF follows_save [OF Cons.prems(1,3)] _ Cons.prems(3) rest [unfolded c1]]) (use sub Cons.prems(2) in auto)
  then have "list_all2 (\<lambda>chunk b. \<exists>io \<in> set ios. \<exists>n. bo_stat io = Inr n \<and> block_of chain n b) chs bs1"
    by (rule list_all2_mono) (use sub in blast)
  then show ?case using one r by (simp add: bs)
qed auto

end

section \<open>Attempts that place a chunk\<close>

text \<open>
  An attempt is good when nothing fails before the miners are tried, every miner it got is known with its
  four octets and a peer number, none that is tried panics on a failed dial, and one of them has room and takes the chunk.
\<close>

definition good_attempt :: "(AccountID \<Rightarrow> MinerInfo option) \<Rightarrow> backup_io \<Rightarrow> bool" where
  "good_attempt chain io \<longleftrightarrow> (\<exists>n accs. bo_stat io = Inr n \<and> 0 < n \<and> n < 2 ^ 64
     \<and> (bo_tagStat io = None \<or> bo_requestTag io = Ret None) \<and> bo_sign io = Ret None
     \<and> await_miners (bo_miners io) = Some (Ret accs)
     \<and> (\<forall>acc \<in> set accs. (\<forall>err. bo_dial io acc \<noteq> DialErr err)
          \<and> (\<exists>mi. chain acc = Some mi \<and> length (ip_Value (mi_Ip mi)) = 4 \<and> mi_PeerId mi \<noteq> 0))
     \<and> (\<exists>acc \<in> set accs. \<exists>mi. chain acc = Some mi \<and> positive mi \<and> word_of_nat n \<le> cm_Free (miner_record mi)
          \<and> bo_resolve io (cm_Ip (miner_record mi)) = None \<and> bo_dial io acc = Sent None))"

text \<open>A chunk's name: a hash, or a hash with the number of the chunk.\<close>

definition chunk_name :: "string \<Rightarrow> bool" where
  "chunk_name fname \<longleftrightarrow> length fname = 64 \<or> length fname = 68"

lemma good_attempt_knows: "good_attempt chain io \<Longrightarrow> knows chain io"
  by (fastforce simp: good_attempt_def knows_def)

lemma backupFile_answers: "await_miners (bo_miners io) \<noteq> None \<Longrightarrow> fst (backupFile C io fpath c) \<noteq> None"
  by (auto simp: backupFile_def Let_def split: sum.split outcome.split option.split prod.split)

context reliable_cacher
begin

lemma try_miners_good:
  assumes "fits_chain chain c" "chunk_name fname"
    and "\<forall>acc \<in> set accs. (\<forall>err. bo_dial io acc \<noteq> DialErr err)
          \<and> (\<exists>mi. chain acc = Some mi \<and> length (ip_Value (mi_Ip mi)) = 4 \<and> mi_PeerId mi \<noteq> 0)"
    and "\<exists>acc \<in> set accs. \<exists>mi. chain acc = Some mi \<and> positive mi \<and> word_of_nat n \<le> cm_Free (miner_record mi)
          \<and> bo_resolve io (cm_Ip (miner_record mi)) = None \<and> bo_dial io acc = Sent None"
  shows "\<exists>b. try_miners C io n bn accs fname m0 c = (Ret b, c) \<and> bi_MinerId b \<noteq> 0 \<and> bi_BlockSize b = word_of_nat n"
  using assms(2-)
proof (induction accs arbitrary: fname m0)
  case (Cons acc accs)
  obtain mi where mi: "chain acc = Some mi" "length (ip_Value (mi_Ip mi)) = 4" "mi_PeerId mi \<noteq> 0"
    and dial: "\<forall>err. bo_dial io acc \<noteq> DialErr err" using Cons.prems(2) by auto
  note get = follows_get [OF assms(1) mi(1)]
  define f1 where "f1 = (if length fname < len_FileBlockId then fname @ ''.000'' else fname)"
  have f1: "length f1 = len_FileBlockId" using Cons.prems(1) by (auto simp: f1_def chunk_name_def len_FileBlockId_def)
  define taken where "taken \<longleftrightarrow> positive mi \<and> word_of_nat n \<le> cm_Free (miner_record mi)
     \<and> bo_resolve io (cm_Ip (miner_record mi)) = None \<and> bo_dial io acc = Sent None"
  show ?case
  proof (cases taken)
    case True
    then have "\<not> cm_Free (miner_record mi) < word_of_nat n" unfolding taken_def using leD by blast
    moreover have "cm_Peerid (miner_record mi) = mi_PeerId mi" by (simp add: miner_record_def)
    ultimately show ?thesis
      using True get mi(2,3) f1 unfolding taken_def f1_def
      by (simp add: cached_address_roundtrip Let_def)
  next
    case False
    then have again: "\<exists>m. try_miners C io n bn (acc # accs) fname m0 c = try_miners C io n bn accs fname m c"
      using get dial unfolding taken_def
      by (cases "positive mi"; cases "bo_dial io acc")
         (auto simp: Let_def not_less split: option.splits)
    have "\<exists>acc \<in> set accs. \<exists>mi. chain acc = Some mi \<and> positive mi \<and> word_of_nat n \<le> cm_Free (miner_record mi)
          \<and> bo_resolve io (cm_Ip (miner_record mi)) = None \<and> bo_dial io acc = Sent None"
      using Cons.prems(3) False mi(1) unfolding taken_def by auto
    then show ?thesis using again Cons.IH [OF Cons.prems(1)] Cons.prems(2) by fastforce
  qed
qed simp

lemma backupFile_good:
  assumes "fits_chain chain c" "chunk_name (filepath_Base fpath)" "good_attempt chain io"
  shows "\<exists>b. backupFile C io fpath c = (Some (b, None), c) \<and> bi_MinerId b \<noteq> 0 \<and> bi_BlockSize b \<noteq> 0"
proof -
  obtain n accs where io: "bo_stat io = Inr n" "0 < n" "n < 2 ^ 64" "bo_tagStat io = None \<or> bo_requestTag io = Ret None"
    "bo_sign io = Ret None" "await_miners (bo_miners io) = Some (Ret accs)"
    and all: "\<forall>acc \<in> set (RandSlice (bo_rnd io) accs). (\<forall>err. bo_dial io acc \<noteq> DialErr err)
          \<and> (\<exists>mi. chain acc = Some mi \<and> length (ip_Value (mi_Ip mi)) = 4 \<and> mi_PeerId mi \<noteq> 0)"
    and one: "\<exists>acc \<in> set (RandSlice (bo_rnd io) accs). \<exists>mi. chain acc = Some mi \<and> positive mi \<and> word_of_nat n \<le> cm_Free (miner_record mi)
          \<and> bo_resolve io (cm_Ip (miner_record mi)) = None \<and> bo_dial io acc = Sent None"
    using assms(3) unfolding good_attempt_def set_RandSlice by blast
  have nz: "fst (CalcFileBlockSizeAndScanSize (int n)) \<noteq> 0"
    using io(2) by (auto simp: CalcFileBlockSizeAndScanSize_def size_defs MaxUint32_def go_quot_pos Let_def)
  have "(word_of_nat n :: u64) \<noteq> 0"
    using io(2,3) by (simp add: word_of_nat_eq_0_iff nat_dvd_not_less)
  then show ?thesis
    using try_miners_good [OF assms(1,2) all one, of "go_quot (int n) (fst (CalcFileBlockSizeAndScanSize (int n)))" empty_miner] io nz
    by (auto simp: backupFile_def Let_def)
qed

lemma place_chunk_good:
  assumes "fits_chain chain c" "chunk_name (filepath_Base fpath)"
    and "\<forall>io \<in> set ios. knows chain io \<and> await_miners (bo_miners io) \<noteq> None" "\<exists>io \<in> set ios. good_attempt chain io"
  shows "\<exists>b ios1. place_chunk C fpath ios c = (Some (b, ios1), c)
    \<and> length (filter (good_attempt chain) ios) \<le> Suc (length (filter (good_attempt chain) ios1))"
  using assms(3,4)
proof (induction ios)
  case (Cons io ios)
  obtain q c1 where bf: "backupFile C io fpath c = (q, c1)" by fastforce
  have c1: "c1 = c" using backupFile_follows [OF assms(1) _ bf] Cons.prems(1) by simp
  obtain b err where q: "q = Some (b, err)"
    using backupFile_answers [of io C fpath c] bf Cons.prems(1) by (cases q) auto
  show ?case
  proof (cases "err = None \<and> bi_MinerId b \<noteq> 0 \<and> bi_BlockSize b \<noteq> 0")
    case True
    then show ?thesis using bf q c1 by auto
  next
    case False
    then have again: "place_chunk C fpath (io # ios) c = place_chunk C fpath ios c"
      using bf q c1 by (cases err) auto
    have bad: "\<not> good_attempt chain io"
      using backupFile_good [OF assms(1,2)] bf q False by fastforce
    then show ?thesis using Cons again by simp
  qed
qed simp

lemma place_chunks_good:
  assumes "fits_chain chain c" "\<forall>chunk \<in> set chunks. chunk_name (filepath_Base chunk)"
    and "\<forall>io \<in> set ios. knows chain io \<and> await_miners (bo_miners io) \<noteq> None"
    and "length chunks \<le> length (filter (good_attempt chain) ios)" "chain (bytes_of_string fid) = None"
  shows "\<exists>bs f' c'. place_chunks b58enc sum512 C fid i chunks f ios c = (Some (bs, f'), c')"
  using assms(1-4)
proof (induction chunks arbitrary: i f ios c)
  case (Cons ch chs)
  have "\<exists>io \<in> set ios. good_attempt chain io"
    using Cons.prems(4) by (metis filter_False length_Cons list.size(3) not_less_eq_eq zero_le)
  then obtain b ios1 where pc: "place_chunk C ch ios c = (Some (b, ios1), c)"
    and left: "length (filter (good_attempt chain) ios) \<le> Suc (length (filter (good_attempt chain) ios1))"
    using place_chunk_good [OF Cons.prems(1) _ Cons.prems(3), of ch] Cons.prems(2) by fastforce
  have sub: "set ios1 \<subseteq> set ios" using place_chunk_follows [OF Cons.prems(1) _ pc] Cons.prems(3) by auto
  define f1 where "f1 = f\<lparr>st_Miners := st_Miners f @ [(i, case EncodePublicKeyAsCessAccount b58enc sum512 (bi_MinerAcc b) of Inl err \<Rightarrow> [] | Inr a \<Rightarrow> a)]\<rparr>"
  have "\<exists>bs f' c'. place_chunks b58enc sum512 C fid (i + 1) chs f1 ios1 (save_store C fid f1 c) = (Some (bs, f'), c')"
    by (rule Cons.IH [OF follows_save [OF Cons.prems(1) assms(5)]]) (use Cons.prems left sub in auto)
  then show ?case using pc by (auto simp: Let_def f1_def)
qed simp

end

section \<open>From the chain to the reported blocks\<close>

text \<open>What a round reads of the chain: the miners whose details came, with an address of four octets.\<close>

definition read_miners :: "(AccountID \<times> (go_error + MinerInfo)) list \<Rightarrow> AccountID \<Rightarrow> MinerInfo option" where
  "read_miners entries acc =
     (case map_of entries acc of
        Some (Inr mi) \<Rightarrow> if length (ip_Value (mi_Ip mi)) = 4 then Some mi else None
      | _ \<Rightarrow> None)"

lemma read_miners_Some:
  "read_miners entries acc = Some mi \<longleftrightarrow> map_of entries acc = Some (Inr mi) \<and> length (ip_Value (mi_Ip mi)) = 4"
  by (auto simp: read_miners_def split: option.split sum.split)

lemma round_follows:
  assumes "reliable_cacher C contents is_open" "is_open c" "distinct (map fst entries)"
    and "\<forall>e \<in> set entries. length (fst e) = 32
      \<and> (\<exists>addr. EncodePublicKeyAsCessAccount b58enc sum512 (fst e) = Inr addr)"
  shows "follows contents is_open (read_miners entries) (cache_round b58enc sum512 C entries c)"
proof -
  note round = reliable_cacher.cache_round_effect [OF assms]
  have "length acc = 32" if "read_miners entries acc = Some mi" for acc mi
    using that assms(4) by (fastforce simp: read_miners_Some dest: map_of_SomeD)
  then show ?thesis using round by (auto simp: follows_def read_miners_Some)
qed

lemma read_miners_32:
  assumes "\<forall>e \<in> set entries. length (fst e) = 32 \<and> Q e" "length fid \<noteq> 32"
  shows "read_miners entries (bytes_of_string fid) = None"
  using assms by (auto simp: read_miners_def split: option.split dest!: map_of_SomeD)

lemma stored_blocks:
  assumes "reliable_cacher C contents is_open" "follows contents is_open chain c" "\<forall>io \<in> set ios. knows chain io"
    and "chain (bytes_of_string fid) = None"
    and "FileBackupManagement b58enc sum512 C submit meta sched ios fid fsize chunks (c, s) = (Ended Stored, c', s')"
  shows "\<exists>blocks. submit_meta (submit fid (word_of_int fsize) blocks) meta 0 s = (Stored, s')
    \<and> list_all2 (\<lambda>chunk b. \<exists>io \<in> set ios. \<exists>n. bo_stat io = Inr n \<and> block_of chain n b) chunks blocks"
proof -
  let ?f0 = "first_store fid fsize sched"
  note start = reliable_cacher.follows_save [OF assms(1,2,4), of ?f0]
  have ne: "\<not> length chunks \<le> 0" using assms(5) by (auto simp: FileBackupManagement_def Let_def)
  obtain r c1 where pl: "place_chunks b58enc sum512 C fid 0 chunks ?f0 ios (save_store C fid ?f0 c) = (r, c1)" by fastforce
  obtain blocks f1 where r: "r = Some (blocks, f1)" using assms(5) ne pl by (cases r) (auto simp: FileBackupManagement_def Let_def)
  obtain e s1 where sm: "submit_meta (submit fid (word_of_int fsize) blocks) meta 0 s = (e, s1)" by fastforce
  have "e = Stored \<and> s1 = s'" using assms(5) ne pl r sm by (cases e) (auto simp: FileBackupManagement_def Let_def)
  then show ?thesis
    using reliable_cacher.place_chunks_follows [OF assms(1) start assms(3,4) pl [unfolded r]] sm by blast
qed

section \<open>Properties\<close>

text \<open>
  What the chain says of its miners comes back to it in the blocks of a file.  When a round of the
  miner cache has read the miners and a backup, whose queries answer with miners that were read,
  ends with the meta information stored, each block that was submitted names a miner that the chain calls
  positive, under the account and with the peer number, the four octets and the port that the chain gave, for a
  chunk of a size that fits the miner's free space as it was computed.
\<close>

theorem reported_blocks_name_chain_miners:
  assumes "reliable_cacher C contents is_open" "is_open c" "distinct (map fst entries)"
    and "\<forall>e \<in> set entries. length (fst e) = 32
      \<and> (\<exists>addr. EncodePublicKeyAsCessAccount b58enc sum512 (fst e) = Inr addr)"
    and "length fid \<noteq> 32"
    and "\<forall>io \<in> set ios. \<forall>accs. await_miners (bo_miners io) = Some (Ret accs)
      \<longrightarrow> (\<forall>acc \<in> set accs. \<exists>mi. map_of entries acc = Some (Inr mi) \<and> length (ip_Value (mi_Ip mi)) = 4)"
    and "FileBackupManagement b58enc sum512 C submit meta sched ios fid fsize chunks
      (cache_round b58enc sum512 C entries c, s) = (Ended Stored, c', s')"
  shows "\<exists>blocks. submit_meta (submit fid (word_of_int fsize) blocks) meta 0 s = (Stored, s')
    \<and> list_all2 (\<lambda>chunk b. \<exists>mi. map_of entries (bi_MinerAcc b) = Some (Inr mi)
         \<and> string_of_bytes (mi_State mi) = MINER_STATE_POSITIVE \<and> bi_MinerId b = mi_PeerId mi
         \<and> bi_MinerIp b = \<lparr>ip_Index = 0, ip_Value = ip_Value (mi_Ip mi), ip_Port = ip_Port (mi_Ip mi)\<rparr>
         \<and> bi_BlockSize b \<le> cm_Free (miner_record mi)
         \<and> (\<exists>io \<in> set ios. \<exists>n. bo_stat io = Inr n \<and> bi_BlockSize b = word_of_nat n)) chunks blocks"
proof -
  have known: "\<forall>io \<in> set ios. knows (read_miners entries) io"
    using assms(6) by (fastforce simp: knows_def read_miners_def)
  obtain blocks where blocks: "submit_meta (submit fid (word_of_int fsize) blocks) meta 0 s = (Stored, s')"
    "list_all2 (\<lambda>chunk b. \<exists>io \<in> set ios. \<exists>n. bo_stat io = Inr n \<and> block_of (read_miners entries) n b) chunks blocks"
    using stored_blocks [OF assms(1) round_follows [OF assms(1-4)] known read_miners_32 [OF assms(4,5)] assms(7)] by blast
  show ?thesis
    using blocks(1) by (intro exI conjI, assumption)
      (rule list_all2_mono [OF blocks(2)], fastforce simp: block_of_def read_miners_Some positive_def cached_address_roundtrip)
qed

text \<open>The round that reads the sample miner.\<close>

definition sample_round :: "((bytes \<times> bytes) list \<times> bool) LevelDB" where
  "sample_round = cache_round string_of_bytes (\<lambda>_. replicate 64 0) mem_cache [(replicate 32 1, Inr sample_miner)] (mem_db [])"

lemma sample_entries:
  "\<forall>e \<in> set [(replicate 32 1, Inr sample_miner :: go_error + MinerInfo)]. length (fst e) = 32
     \<and> (\<exists>addr. EncodePublicKeyAsCessAccount string_of_bytes (\<lambda>_. replicate 64 0) (fst e) = Inr addr)"
  unfolding EncodePublicKeyAsCessAccount_def using encode_ok [OF sample_deps] by simp

lemma sample_known:
  "\<forall>io \<in> set [sample_backup_io]. \<forall>accs. await_miners (bo_miners io) = Some (Ret accs)
     \<longrightarrow> (\<forall>acc \<in> set accs. \<exists>mi. map_of [(replicate 32 1, Inr sample_miner)] acc = Some (Inr mi) \<and> length (ip_Value (mi_Ip mi)) = 4)"
  by (simp add: sample_backup_io_def sample_miner_def)

lemma sample_round_get:
  assumes "length fid \<noteq> 32"
  shows "cGet mem_cache (save_store mem_cache fid g sample_round) (replicate 32 1) = Inr (marshal_miner (miner_record sample_miner))"
proof -
  have "follows (\<lambda>d. map_of (fst (db d))) (\<lambda>d. snd (db d)) (read_miners [(replicate 32 1, Inr sample_miner)]) sample_round"
    unfolding sample_round_def by (rule round_follows [OF mem_reliable.reliable_cacher_axioms _ _ sample_entries]) simp_all
  note kept = mem_reliable.follows_save [OF this read_miners_32 [OF sample_entries assms], of g]
  have "read_miners [(replicate 32 1, Inr sample_miner)] (replicate 32 1) = Some sample_miner"
    by (simp add: read_miners_def) (simp add: sample_miner_def)
  moreover have "positive sample_miner" by (simp add: positive_def) (simp add: sample_miner_def)
  ultimately show ?thesis using mem_reliable.follows_get [OF kept] by simp
qed

lemma sample_round_management:
  "fst (FileBackupManagement string_of_bytes (\<lambda>_. replicate 64 0) mem_cache
     (\<lambda>_ _ _ s. (Ret (''ab'', None), s)) (\<lambda>s. (Ret (Inl ''none''), s)) ''10.0.0.1:15000''
     [sample_backup_io] ''f'' 5 [sample_name] (sample_round, ())) = Ended Stored"
proof -
  have sub: "submit_meta (\<lambda>s. (Ret (''ab'', None), s)) (\<lambda>s. (Ret (Inl ''none''), s)) 0 () = (Stored, ())"
    by (subst submit_meta.simps) simp
  have short: "length ''f'' \<noteq> 32" by simp
  show ?thesis
    by (simp add: FileBackupManagement_def Let_def sample_backup_runs_on [OF sample_round_get [OF short]] sub
        del: replicate.simps split: prod.split)
qed

theorem reported_blocks_name_chain_miners_witness:
  "\<exists>b :: BlockInfo. submit_meta (\<lambda>s. (Ret (''ab'', None), s)) (\<lambda>s. (Ret (Inl ''none''), s)) 0 () = (Stored, ())
     \<and> bi_MinerAcc b = replicate 32 1 \<and> bi_MinerId b = 9 \<and> bi_BlockSize b = 5
     \<and> bi_MinerIp b = \<lparr>ip_Index = 0, ip_Value = [10, 0, 0, 7], ip_Port = 15001\<rparr>"
proof -
  obtain e c' s' where run: "FileBackupManagement string_of_bytes (\<lambda>_. replicate 64 0) mem_cache
     (\<lambda>_ _ _ s. (Ret (''ab'', None), s)) (\<lambda>s. (Ret (Inl ''none''), s)) ''10.0.0.1:15000''
     [sample_backup_io] ''f'' 5 [sample_name] (sample_round, ()) = (e, c', s')" by (rule prod_cases3)
  then have e: "e = Ended Stored" using sample_round_management by simp
  have "snd (db (mem_db []))" "distinct (map fst [(replicate 32 1 :: byte list, Inr sample_miner :: go_error + MinerInfo)])"
    "length ''f'' \<noteq> 32" by simp_all
  from reported_blocks_name_chain_miners [OF mem_reliable.reliable_cacher_axioms this(1,2) sample_entries this(3) sample_known
      run [unfolded e sample_round_def]]
  show ?thesis
    by (auto simp: list_all2_Cons1 sample_miner_def sample_backup_io_def split: if_splits)
qed



end
