(* ===== verification/BackupOnChain.thy ===== *)
theory BackupOnChain
  imports BackupChain Pipeline VerifyTask
begin

text \<open>
  The backup over the chain client (node/handler.go, node/utils.go, pkg/chain): the submission loop of
  \<open>FileBackupManagement\<close> with \<open>SubmitFileMeta\<close> and \<open>GetFileMetaInfo\<close> of the model of the chain client,
  what a file that is recorded as active means for the chain, and how often a backup submits.
\<close>

section \<open>The client as the chain of the backup\<close>

definition on_chain :: "('api chainClient \<Rightarrow> 'w \<Rightarrow> 'r \<times> 'api chainClient \<times> 'w) \<Rightarrow> 'api chainClient \<times> 'w \<Rightarrow> 'r \<times> 'api chainClient \<times> 'w" where
  "on_chain op st = (case st of (c, w) \<Rightarrow> op c w)"

text \<open>One query of \<open>GetFileState\<close>: the state of the meta information, as text.\<close>

definition file_meta :: "('api, 'w) gsrpc \<Rightarrow> string \<Rightarrow> 'api chainClient \<times> 'w \<Rightarrow> (go_error + string) outcome \<times> 'api chainClient \<times> 'w" where
  "file_meta G fid st =
     (case on_chain (GetFileMetaInfo G fid) st of
        (Panic, st1) \<Rightarrow> (Panic, st1)
      | (Ret (Inl err), st1) \<Rightarrow> (Ret (Inl err), st1)
      | (Ret (Inr fmeta), st1) \<Rightarrow> (Ret (Inr (string_of_bytes (fm_State fmeta))), st1))"

definition Backup_on_chain ::
  "('api, 'w) gsrpc \<Rightarrow> (bytes \<Rightarrow> string) \<Rightarrow> (bytes \<Rightarrow> bytes) \<Rightarrow> 'c Cacher \<Rightarrow> string \<Rightarrow> backup_io list
   \<Rightarrow> string \<Rightarrow> int \<Rightarrow> string list \<Rightarrow> 'c \<times> 'api chainClient \<times> 'w \<Rightarrow> backup_end \<times> 'c \<times> 'api chainClient \<times> 'w" where
  "Backup_on_chain G b58enc sum512 C sched ios fid fsize chunks =
     FileBackupManagement b58enc sum512 C (\<lambda>fid n blocks. on_chain (SubmitFileMeta G fid n blocks)) (file_meta G fid)
       sched ios fid fsize chunks"

section \<open>What a submission without an error means\<close>

text \<open>
  A call was put into a block whose events hold a file upload, of whatever account; or the error channel
  of the call's subscription was closed.
\<close>

definition in_block :: "('api, 'w) gsrpc \<Rightarrow> (EventRecords \<Rightarrow> bool) \<Rightarrow> tx_call \<Rightarrow> bool" where
  "in_block G expected call \<longleftrightarrow> (\<exists>api n w1 w2 sub hash raw w3. rpc_Submit G api (call, n) w1 = (Inr sub, w2)
     \<and> InBlock hash \<in> set sub \<and> rpc_GetStorageRaw G api hash w2 = (Inr raw, w3) \<and> expected (DecodeEvents G raw))"

definition abandoned :: "('api, 'w) gsrpc \<Rightarrow> tx_call \<Rightarrow> bool" where
  "abandoned G call \<longleftrightarrow> (\<exists>api n w1 w2 sub. rpc_Submit G api (call, n) w1 = (Inr sub, w2) \<and> SubErr None \<in> set sub)"

definition has_upload :: "EventRecords \<Rightarrow> bool" where
  "has_upload ev \<longleftrightarrow> (\<exists>acc. FileUpload acc \<in> set (ev_FileBank ev))"

lemma has_upload_filter: "(\<lambda>ev. filter is_FileUpload (ev_FileBank ev) \<noteq> []) = has_upload"
proof
  have "filter is_FileUpload evs \<noteq> [] \<longleftrightarrow> (\<exists>acc. FileUpload acc \<in> set evs)" for evs
    by (induction evs) (auto elim!: is_FileUpload.elims(2))
  then show "filter is_FileUpload (ev_FileBank ev) \<noteq> [] \<longleftrightarrow> has_upload ev" for ev by (simp add: has_upload_def)
qed

lemma watch_sub_fine:
  "watch_sub G T ex api evs w = ((h, None), w') \<Longrightarrow>
   SubErr None \<in> set evs \<or> (\<exists>hash raw. InBlock hash \<in> set evs \<and> rpc_GetStorageRaw G api hash w = (Inr raw, w') \<and> ex (DecodeEvents G raw))"
proof (induction evs)
  case (Cons ev evs)
  then show ?case
    by (cases ev) (auto simp: Let_def split: sum.splits prod.splits if_splits)
qed simp

lemma retry_submit_accepted:
  "retry_submit G T api call n k e w = (Inr sub, w') \<Longrightarrow> \<exists>m w1. rpc_Submit G api (call, m) w1 = (Inr sub, w')"
  by (induction k arbitrary: e w) (auto split: option.splits sum.splits prod.splits)

lemma submit_tx_fine:
  assumes "submit_tx G T name ex call c w = (Ret (h, None), c', w')"
  shows "in_block G ex call \<or> abandoned G call"
proof -
  obtain api m sub w1 w2 where "rpc_Submit G api (call, m) w1 = (Inr sub, w2)" "watch_sub G T ex api sub w2 = ((h, None), w')"
    using assms retry_submit_accepted [of G T _ call]
    unfolding submit_tx_def
    by (fastforce split: option.splits sum.splits prod.splits if_splits)
  then show ?thesis using watch_sub_fine unfolding in_block_def abandoned_def by metis
qed

lemma SubmitFileMeta_fine:
  assumes "SubmitFileMeta G fid n blocks c w = (Ret (h, None), c', w')"
  shows "in_block G has_upload (Call_Upload (bytes_of_string fid) n blocks) \<or> abandoned G (Call_Upload (bytes_of_string fid) n blocks)"
proof -
  obtain ok c1 w1 where "IsChainClientOk G c w = (ok, c1, w1)" by (metis prod.collapse)
  then obtain T c2 w2 where "submit_tx G T TX_FILEBANK_UPLOAD has_upload (Call_Upload (bytes_of_string fid) n blocks) c2 w2 = (Ret (h, None), c', w')"
    using assms by (auto simp: SubmitFileMeta_def with_connection_def no_connection_def has_upload_filter split: if_splits)
  then show ?thesis by (rule submit_tx_fine)
qed

section \<open>The loop\<close>

text \<open>
  What holds of the loop: \<open>P n\<close> is kept by the queries and becomes \<open>P (n + 1)\<close> with a submission.
\<close>

lemma submit_meta_run:
  assumes "submit_meta submit meta t s = (r, s')" "t \<le> 3"
    and "\<And>n s. P n s \<Longrightarrow> P (Suc n) (snd (submit s))" "\<And>n s. P n s \<Longrightarrow> P n (snd (meta s))" "P t s"
  shows "\<exists>n \<le> 4. P n s'"
    and "r = Stored \<Longrightarrow> (\<exists>s0 h. submit s0 = (Ret (h, None), s')) \<or> (\<exists>s0. meta s0 = (Ret (Inr FILE_STATE_ACTIVE), s'))"
proof -
  have "(\<exists>n \<le> 4. P n s') \<and> (r = Stored \<longrightarrow> (\<exists>s0 h. submit s0 = (Ret (h, None), s')) \<or> (\<exists>s0. meta s0 = (Ret (Inr FILE_STATE_ACTIVE), s')))"
    using assms(1,2,5)
  proof (induction "4 - t" arbitrary: t s)
    case (Suc d)
    obtain q s1 where q: "submit s = (q, s1)" by fastforce
    obtain f s2 where f: "file_state meta 0 s1 = (f, s2)" by fastforce
    have s1: "P (Suc t) s1" using assms(3) [OF Suc.prems(3)] q by simp
    then have s2: "P (Suc t) s2" using file_state_cases(2) [OF f, where P = "P (Suc t)"] assms(4) by simp
    note unfolded = Suc.prems(1) [unfolded submit_meta.simps [of submit meta t] q]
    consider (first) "s' = s1" "r = Stored \<Longrightarrow> \<exists>h. q = Ret (h, None)"
      | (queried) "s' = s2" "r = Stored \<Longrightarrow> f = Ret (Inr FILE_STATE_ACTIVE)"
      | (again) "t + 1 \<le> 3" "submit_meta submit meta (t + 1) s2 = (r, s')"
      using unfolded f by (auto split: outcome.splits option.splits sum.splits if_splits)
    then show ?case
    proof cases
      case first
      then show ?thesis using s1 q Suc.prems(2) by (intro conjI exI [of _ "Suc t"]) auto
    next
      case queried
      then show ?thesis using s2 file_state_cases(1) [OF f] Suc.prems(2) by (intro conjI exI [of _ "Suc t"]) auto
    next
      case again
      have d: "d = 4 - (t + 1)" using Suc.hyps(2) by simp
      show ?thesis using Suc.hyps(1) [OF d again(2,1)] s2 by simp
    qed
  qed simp
  then show "\<exists>n \<le> 4. P n s'"
    and "r = Stored \<Longrightarrow> (\<exists>s0 h. submit s0 = (Ret (h, None), s')) \<or> (\<exists>s0. meta s0 = (Ret (Inr FILE_STATE_ACTIVE), s'))"
    by blast+
qed

lemma submit_meta_stored:
  assumes "submit_meta submit meta 0 s = (Stored, s')"
  shows "(\<exists>s0 h. submit s0 = (Ret (h, None), s')) \<or> (\<exists>s0. meta s0 = (Ret (Inr FILE_STATE_ACTIVE), s'))"
  by (rule submit_meta_run(2) [OF assms, where P = "\<lambda>_ _. True"]) simp_all

section \<open>How often a backup submits\<close>

lemma GetFileMetaInfo_log: "snd (snd (snd (GetFileMetaInfo (logged G) fid c (w, l)))) = l"
proof -
  have query: "snd (snd (snd (query_latest (logged G) p it arg dec c (w, l)))) = l" for p it arg dec c w l
    by (simp add: query_latest_def split: sum.split option.split prod.split)
  show ?thesis
    unfolding GetFileMetaInfo_def
    by (rule with_connection_log [where P = "\<lambda>l l'. l' = l"]) (auto simp: query split: sum.split)
qed

lemma file_meta_log: "snd (snd (snd (file_meta (logged G) fid (c, (w, l))))) = l"
  using GetFileMetaInfo_log [of G fid c w l]
  by (auto simp: file_meta_def on_chain_def split: prod.split outcome.split sum.split)

lemma SubmitFileMeta_log:
  "\<exists>m. snd (snd (snd (SubmitFileMeta (logged G) fid n blocks c (w, l)))) = l @ m \<and> length m \<le> 21
     \<and> fst ` set m \<subseteq> {Call_Upload (bytes_of_string fid) n blocks}"
proof -
  let ?P = "\<lambda>l l'. \<exists>m. l' = l @ m \<and> length m \<le> 21 \<and> fst ` set m \<subseteq> {Call_Upload (bytes_of_string fid) n blocks}"
  have tx: "?P l (snd (snd (snd (submit_tx (logged G) T name ex (Call_Upload (bytes_of_string fid) n blocks) c (w, l)))))" for T name ex c w l
  proof -
    from submit_tx_log_retry [of G T name ex "Call_Upload (bytes_of_string fid) n blocks" c w l]
    consider "snd (snd (snd (submit_tx (logged G) T name ex (Call_Upload (bytes_of_string fid) n blocks) c (w, l)))) = l"
      | k nonce where "k \<le> 20" "snd (snd (snd (submit_tx (logged G) T name ex (Call_Upload (bytes_of_string fid) n blocks) c (w, l))))
          = l @ (Call_Upload (bytes_of_string fid) n blocks, nonce) # replicate k (Call_Upload (bytes_of_string fid) n blocks, nonce + 1)" by blast
    then show ?thesis by cases auto
  qed
  have refl: "?P l l" for l by (rule exI [of _ "[]"]) simp
  show ?thesis
    unfolding SubmitFileMeta_def
    by (rule with_connection_log [where P = ?P]) (use tx refl in \<open>simp_all\<close>)
qed

text \<open>How a backup that reaches the chain goes on from the placed chunks.\<close>

lemma Backup_on_chain_ended:
  assumes "Backup_on_chain G b58enc sum512 C sched ios fid fsize chunks (k, s) = (Ended r, k', s')"
  shows "\<exists>blocks. list_all2 (\<lambda>chunk b. \<exists>io \<in> set ios. \<exists>c0 c1. backupFile C io chunk c0 = (Some (b, None), c1) \<and> bi_MinerId b \<noteq> 0) chunks blocks
    \<and> submit_meta (on_chain (SubmitFileMeta G fid (word_of_int fsize) blocks)) (file_meta G fid) 0 s = (r, s')"
proof -
  have ne: "\<not> length chunks \<le> 0" using assms by (auto simp: Backup_on_chain_def FileBackupManagement_def Let_def)
  obtain q c1 where pl: "place_chunks b58enc sum512 C fid 0 chunks (first_store fid fsize sched) ios
      (save_store C fid (first_store fid fsize sched) k) = (q, c1)" by fastforce
  obtain blocks f1 where q: "q = Some (blocks, f1)"
    using assms ne pl by (cases q) (auto simp: Backup_on_chain_def FileBackupManagement_def Let_def)
  obtain e s1 where sm: "submit_meta (on_chain (SubmitFileMeta G fid (word_of_int fsize) blocks)) (file_meta G fid) 0 s = (e, s1)"
    by (cases "submit_meta (on_chain (SubmitFileMeta G fid (word_of_int fsize) blocks)) (file_meta G fid) 0 s") blast
  have "e = r \<and> s1 = s'"
    using assms ne pl q sm by (cases e) (auto simp: Backup_on_chain_def FileBackupManagement_def Let_def)
  then show ?thesis using place_chunks_blocks [OF pl [unfolded q]] sm by blast
qed

lemma Backup_on_chain_unended:
  assumes "Backup_on_chain G b58enc sum512 C sched ios fid fsize chunks (k, s) = (e, k', s')" "\<And>r. e \<noteq> Ended r"
  shows "s' = s"
  using assms by (auto simp: Backup_on_chain_def FileBackupManagement_def Let_def split: if_splits option.splits prod.splits submission.splits)

text \<open>What the loop means for the chain when it ends with the file stored.\<close>

lemma stored_meaning:
  assumes "submit_meta (on_chain (SubmitFileMeta G fid n blocks)) (file_meta G fid) 0 s = (Stored, (c', w'))"
  shows "in_block G has_upload (Call_Upload (bytes_of_string fid) n blocks)
    \<or> (\<exists>c0 w0 fmeta. GetFileMetaInfo G fid c0 w0 = (Ret (Inr fmeta), c', w') \<and> string_of_bytes (fm_State fmeta) = FILE_STATE_ACTIVE)
    \<or> abandoned G (Call_Upload (bytes_of_string fid) n blocks)"
  using submit_meta_stored [OF assms]
proof
  assume "\<exists>s0 h. on_chain (SubmitFileMeta G fid n blocks) s0 = (Ret (h, None), (c', w'))"
  then show ?thesis using SubmitFileMeta_fine [of G fid n blocks] by (fastforce simp: on_chain_def)
next
  assume "\<exists>s0. file_meta G fid s0 = (Ret (Inr FILE_STATE_ACTIVE), (c', w'))"
  then show ?thesis
    by (fastforce simp: file_meta_def on_chain_def split: outcome.splits sum.splits prod.splits)
qed

section \<open>Properties\<close>

text \<open>
  C5: What it takes for a file to be recorded as active.  When a backup over the chain client ends with the file
  stored, either the call with the blocks of its chunks was put into a block with a file upload among its events,
  or the chain answered that the file is active, or the subscription of the call was closed: the error channel
  then delivers nil, which the client takes for success.
\<close>

theorem active_file_is_on_chain:
  assumes "Backup_on_chain G b58enc sum512 C sched ios fid fsize chunks (k, c, w) = (Ended Stored, k', c', w')"
  shows "\<exists>blocks. list_all2 (\<lambda>chunk b. \<exists>io \<in> set ios. \<exists>c0 c1. backupFile C io chunk c0 = (Some (b, None), c1) \<and> bi_MinerId b \<noteq> 0) chunks blocks
    \<and> (in_block G has_upload (Call_Upload (bytes_of_string fid) (word_of_int fsize) blocks)
      \<or> (\<exists>c0 w0 fmeta. GetFileMetaInfo G fid c0 w0 = (Ret (Inr fmeta), c', w') \<and> string_of_bytes (fm_State fmeta) = FILE_STATE_ACTIVE)
      \<or> abandoned G (Call_Upload (bytes_of_string fid) (word_of_int fsize) blocks))"
  using Backup_on_chain_ended [OF assms] stored_meaning [of G fid "word_of_int fsize" _ "(c, w)" c' w'] by meson

text \<open>
  C39: A backup submits its file at most 84 times, four times 21: always the same call, with the file, its size and
  one block for each chunk; and a backup that did not come to the submission has sent nothing.
\<close>

theorem backup_submissions_bounded:
  assumes "Backup_on_chain (logged G) b58enc sum512 C sched ios fid fsize chunks (k, c, (w, [])) = (e, k', c', (w', sent))"
  shows "length sent \<le> 84
    \<and> (\<exists>blocks. fst ` set sent \<subseteq> {Call_Upload (bytes_of_string fid) (word_of_int fsize) blocks} \<and> (sent \<noteq> [] \<longrightarrow> length blocks = length chunks))
    \<and> ((\<forall>r. e \<noteq> Ended r) \<longrightarrow> sent = [])"
proof (cases "\<exists>r. e = Ended r")
  case False
  then have "sent = []" using Backup_on_chain_unended [OF assms] by auto
  then show ?thesis by simp
next
  case True
  then obtain r where r: "e = Ended r" by blast
  let ?call = "\<lambda>blocks. Call_Upload (bytes_of_string fid) (word_of_int fsize) blocks"
  obtain blocks where blocks: "length blocks = length chunks"
    "submit_meta (on_chain (SubmitFileMeta (logged G) fid (word_of_int fsize) blocks)) (file_meta (logged G) fid) 0 (c, (w, [])) = (r, (c', (w', sent)))"
    using Backup_on_chain_ended [OF assms [unfolded r]] by (auto dest: list_all2_lengthD)
  let ?P = "\<lambda>n s. length (snd (snd s)) \<le> 21 * n \<and> fst ` set (snd (snd s)) \<subseteq> {?call blocks}"
  have step: "?P (Suc n) (snd (on_chain (SubmitFileMeta (logged G) fid (word_of_int fsize) blocks) s))" if "?P n s" for n s
  proof -
    obtain c0 w0 l where s: "s = (c0, (w0, l))" by (cases s) auto
    obtain m where "snd (snd (snd (on_chain (SubmitFileMeta (logged G) fid (word_of_int fsize) blocks) s))) = l @ m"
      "length m \<le> 21" "fst ` set m \<subseteq> {?call blocks}"
      using SubmitFileMeta_log [of G fid "word_of_int fsize" blocks c0 w0 l] by (auto simp: s on_chain_def)
    then show ?thesis using that by (simp add: s image_Un)
  qed
  have query: "?P n (snd (file_meta (logged G) fid s))" if "?P n s" for n s
    using that file_meta_log [of G fid "fst s" "fst (snd s)" "snd (snd s)"] by simp
  have "\<exists>n \<le> 4. ?P n (c', (w', sent))"
    by (rule submit_meta_run(1) [OF blocks(2), where P = ?P]) (simp, erule step, erule query, simp)
  then obtain n where n: "n \<le> 4" "length sent \<le> 21 * n" "fst ` set sent \<subseteq> {?call blocks}" by auto
  show ?thesis
  proof (intro conjI)
    show "length sent \<le> 84" using n(1,2) by simp
    show "\<exists>blocks. fst ` set sent \<subseteq> {?call blocks} \<and> (sent \<noteq> [] \<longrightarrow> length blocks = length chunks)"
      by (rule exI [of _ blocks]) (use n(3) blocks(1) in simp)
    show "(\<forall>r. e \<noteq> Ended r) \<longrightarrow> sent = []" using r by simp
  qed
qed

text \<open>The sample backup over the sample node.\<close>

lemma sample_backup_stored:
  assumes "\<And>bs. submit_meta (submit sample_name 5 bs) meta 0 s = (Stored, s' bs)"
  shows "\<exists>k' bs. FileBackupManagement string_of_bytes (\<lambda>_. replicate 64 0) mem_cache submit meta ''10.0.0.1:15000''
     [sample_backup_io] sample_name 5 [sample_name] (sample_cache, s) = (Ended Stored, k', s' bs)"
proof -
  have "replicate 32 (1 :: byte) \<noteq> bytes_of_string sample_name"
    by (rule bytes_of_string_differ) (simp add: sample_name_def)
  then have get: "cGet mem_cache (save_store mem_cache sample_name g sample_cache) (replicate 32 1)
      = Inr (marshal_miner (miner_record sample_miner))" for g
    by (simp add: save_store_def sample_cache_def mem_db_def LevelDB_defs mem_leveldb_def del: replicate.simps)
  show ?thesis
    by (simp add: FileBackupManagement_def Let_def sample_backup_runs_on [OF get] assms
        del: replicate.simps split: prod.split) blast
qed

lemma sample_submission:
  "on_chain (SubmitFileMeta sample_node sample_name n bs) (sample_client, True) = (Ret (''ab'', None), SetChainState True sample_client, True)"
  by (simp add: on_chain_def SubmitFileMeta_def with_connection_def len_FileHash_def sample_name_def)
     (simp add: submit_tx_def sample_defs SetChainState_def hex_171 no_events_def)

lemma submit_meta_first: "submit s = (Ret (h, None), s') \<Longrightarrow> submit_meta submit meta t s = (Stored, s')"
  by (subst submit_meta.simps) simp

lemma sample_backup_on_chain:
  assumes "\<And>bs. on_chain (SubmitFileMeta G sample_name 5 bs) s = (Ret (h, None), s' bs)"
  shows "\<exists>k' bs. Backup_on_chain G string_of_bytes (\<lambda>_. replicate 64 0) mem_cache ''10.0.0.1:15000''
     [sample_backup_io] sample_name 5 [sample_name] (sample_cache, s) = (Ended Stored, k', s' bs)"
  unfolding Backup_on_chain_def
  by (rule sample_backup_stored) (rule submit_meta_first, rule assms)

theorem active_file_is_on_chain_witness:
  "\<exists>blocks :: BlockInfo list. length blocks = 1
    \<and> (in_block sample_node has_upload (Call_Upload (bytes_of_string sample_name) 5 blocks)
      \<or> abandoned sample_node (Call_Upload (bytes_of_string sample_name) 5 blocks))"
proof -
  obtain k' where "Backup_on_chain sample_node string_of_bytes (\<lambda>_. replicate 64 0) mem_cache ''10.0.0.1:15000''
     [sample_backup_io] sample_name 5 [sample_name] (sample_cache, sample_client, True) = (Ended Stored, k', SetChainState True sample_client, True)"
    using sample_backup_on_chain [where s' = "\<lambda>_. (SetChainState True sample_client, True)", OF sample_submission] by blast
  from active_file_is_on_chain [OF this] obtain blocks where blocks:
    "list_all2 (\<lambda>chunk b. \<exists>io \<in> set [sample_backup_io]. \<exists>c0 c1. backupFile mem_cache io chunk c0 = (Some (b, None), c1) \<and> bi_MinerId b \<noteq> 0) [sample_name] blocks"
    "in_block sample_node has_upload (Call_Upload (bytes_of_string sample_name) 5 blocks)
      \<or> (\<exists>c0 w0 fmeta. GetFileMetaInfo sample_node sample_name c0 w0 = (Ret (Inr fmeta), SetChainState True sample_client, True) \<and> string_of_bytes (fm_State fmeta) = FILE_STATE_ACTIVE)
      \<or> abandoned sample_node (Call_Upload (bytes_of_string sample_name) 5 blocks)" by auto
  have "\<not> (\<exists>c0 w0 fmeta c1 w1. GetFileMetaInfo sample_node sample_name c0 w0 = (Ret (Inr fmeta), c1, w1))"
    by (auto simp: GetFileMetaInfo_def with_connection_def query_latest_def sample_node_def split: prod.splits if_splits option.splits)
  then show ?thesis using blocks list_all2_lengthD [OF blocks(1)] by auto
qed

theorem backup_submissions_bounded_witness:
  "\<exists>k' c' sent. Backup_on_chain (logged sample_node) string_of_bytes (\<lambda>_. replicate 64 0) mem_cache ''10.0.0.1:15000''
     [sample_backup_io] sample_name 5 [sample_name] (sample_cache, sample_client, (True, [])) = (Ended Stored, k', c', (True, sent))
     \<and> length sent \<le> 84"
proof -
  have "on_chain (SubmitFileMeta (logged sample_node) sample_name 5 bs) (sample_client, (True, []))
      = (Ret (''ab'', None), SetChainState True sample_client, (True, [(Call_Upload (bytes_of_string sample_name) 5 bs, 7)]))" for bs
    by (simp add: on_chain_def SubmitFileMeta_def with_connection_def len_FileHash_def sample_name_def IsChainClientOk_def healthchek_def logged_def sample_node_def sample_client_def)
       (simp add: submit_tx_def sample_events_def SetChainState_def hex_171 no_events_def)
  note sample_backup_on_chain [where s' = "\<lambda>bs. (SetChainState True sample_client, (True, [(Call_Upload (bytes_of_string sample_name) 5 bs, 7)]))", OF this]
  then obtain k' bs where run: "Backup_on_chain (logged sample_node) string_of_bytes (\<lambda>_. replicate 64 0) mem_cache ''10.0.0.1:15000''
     [sample_backup_io] sample_name 5 [sample_name] (sample_cache, sample_client, (True, []))
     = (Ended Stored, k', SetChainState True sample_client, (True, [(Call_Upload (bytes_of_string sample_name) 5 bs, 7)]))" by blast
  from backup_submissions_bounded [OF run] run show ?thesis by blast
qed

text \<open>
  C21: A dropped connection makes a file active.  When the error channel of the call's subscription is closed
  before the call is in a block, \<open>SubmitFileMeta\<close> returns neither a hash nor an error, and the backup
  ends as stored and records the file as active, although no block was looked at.
\<close>

theorem closed_subscription_counts_as_stored:
  assumes "place_chunks b58enc sum512 C fid 0 chunks (first_store fid fsize sched) ios
      (save_store C fid (first_store fid fsize sched) k) = (Some (blocks, f1), k1)" "chunks \<noteq> []"
    and "IsChainClientOk G c w = (True, c1, w1)" "cc_api c1 = Some api" "length fid = 64"
    and "NewCall G TX_FILEBANK_UPLOAD (Call_Upload (bytes_of_string fid) (word_of_int fsize) blocks) = None"
    and "CreateStorageKey G SYSTEM ACCOUNT (Some (cc_publicKey c1)) = Inr key"
    and "rpc_GetStorageLatest G api key w1 = (Inr (Some raw), w2)" "DecAccountInfo G raw = Inr acc"
    and "Sign G (Call_Upload (bytes_of_string fid) (word_of_int fsize) blocks) (ai_Nonce acc) = None"
    and "rpc_Submit G api (Call_Upload (bytes_of_string fid) (word_of_int fsize) blocks, ai_Nonce acc) w2
      = (Inr (replicate m OtherStatus @ SubErr None # later), w3)"
  shows "Backup_on_chain G b58enc sum512 C sched ios fid fsize chunks (k, c, w)
     = (Ended Stored, save_store C fid (f1\<lparr>st_FileState := FILE_STATE_ACTIVE\<rparr>) k1, SetChainState True c1, w3)"
proof -
  have watch: "watch_sub G T ex api (replicate m OtherStatus @ SubErr None # later) w3 = (([], None), w3)" for T ex
    by (induction m) simp_all
  have "SubmitFileMeta G fid (word_of_int fsize) blocks c w = (Ret ([], None), SetChainState True c1, w3)"
    using assms(3-11) watch
    by (simp add: SubmitFileMeta_def with_connection_def submit_tx_def len_FileHash_def SetChainState_def)
  then have "submit_meta (on_chain (SubmitFileMeta G fid (word_of_int fsize) blocks)) (file_meta G fid) 0 (c, w) = (Stored, (SetChainState True c1, w3))"
    by (intro submit_meta_first) (simp add: on_chain_def)
  then show ?thesis
    using assms(1,2) by (simp add: Backup_on_chain_def FileBackupManagement_def Let_def)
qed

definition closing_node :: "(unit, bool) gsrpc" where
  "closing_node = sample_node\<lparr>rpc_Submit := (\<lambda>a x up. (Inr [OtherStatus, SubErr None], up)),
     rpc_GetStorageRaw := (\<lambda>a h up. (Inl ''no block was made'', up))\<rparr>"

theorem closed_subscription_counts_as_stored_witness:
  "\<exists>k' f. Backup_on_chain closing_node string_of_bytes (\<lambda>_. replicate 64 0) mem_cache ''10.0.0.1:15000''
     [sample_backup_io] sample_name 5 [sample_name] (sample_cache, sample_client, True)
     = (Ended Stored, save_store mem_cache sample_name (f\<lparr>st_FileState := FILE_STATE_ACTIVE\<rparr>) k', SetChainState True sample_client, True)"
proof -
  let ?f0 = "first_store sample_name 5 ''10.0.0.1:15000''"
  have "replicate 32 (1 :: byte) \<noteq> bytes_of_string sample_name"
    by (rule bytes_of_string_differ) (simp add: sample_name_def)
  then have get: "cGet mem_cache (save_store mem_cache sample_name g sample_cache) (replicate 32 1)
      = Inr (marshal_miner (miner_record sample_miner))" for g
    by (simp add: save_store_def sample_cache_def mem_db_def LevelDB_defs mem_leveldb_def del: replicate.simps)
  obtain blocks f1 k1 where placed: "place_chunks string_of_bytes (\<lambda>_. replicate 64 0) mem_cache sample_name 0 [sample_name] ?f0 [sample_backup_io]
      (save_store mem_cache sample_name ?f0 sample_cache) = (Some (blocks, f1), k1)"
    by (simp add: Let_def sample_backup_runs_on [OF get] del: replicate.simps)
  have ok: "IsChainClientOk closing_node sample_client True = (True, sample_client, True)"
    by (simp add: closing_node_def sample_defs IsChainClientOk_def healthchek_def)
  show ?thesis
    by (intro exI, rule closed_subscription_counts_as_stored [OF placed _ ok, where m = 1 and api = "()" and acc = "\<lparr>ai_Nonce = 7, ai_Free = 0\<rparr>"
        and later = "[]" and raw = "[]" and ?w2.0 = True])
      (simp_all add: closing_node_def sample_defs, simp add: sample_name_def)
qed

text \<open>
  A transaction counts as successful with any event of its kind in its block: an upload of whatever account stands for
  the one that was submitted.
\<close>

theorem any_upload_event_confirms:
  assumes "rpc_GetStorageRaw G api hash w = (Inr raw, w')" "FileUpload other \<in> set (ev_FileBank (DecodeEvents G raw))"
  shows "watch_sub G T (\<lambda>ev. length (filter is_FileUpload (ev_FileBank ev)) > 0) api (InBlock hash # later) w = ((t_Hex T hash, None), w')"
proof -
  have "has_upload (DecodeEvents G raw)" using assms(2) by (auto simp: has_upload_def)
  then have "filter is_FileUpload (ev_FileBank (DecodeEvents G raw)) \<noteq> []" by (simp add: has_upload_filter [symmetric])
  then show ?thesis using assms(1) by simp
qed

end
