(* ===== verification/MinerPass.thy ===== *)
theory MinerPass
  imports BackupOnChain
begin

text \<open>
  One pass of the miner cache task over the chain client (node/sub_minerCache.go, pkg/chain/chainState.go):
  the queries for the miners and their details with the client and the world they change, what the cache
  then holds, and the way of a miner from the storage of the chain into the blocks of a file.
\<close>

section \<open>The pass\<close>

text \<open>The loop over the miners: an account that has no text is not asked for; a panic ends the task.\<close>

fun miner_loop ::
  "('api, 'w) gsrpc \<Rightarrow> (bytes \<Rightarrow> string) \<Rightarrow> (bytes \<Rightarrow> bytes) \<Rightarrow> 'c Cacher \<Rightarrow> AccountID list
   \<Rightarrow> 'c \<Rightarrow> 'api chainClient \<times> 'w \<Rightarrow> unit outcome \<times> 'c \<times> 'api chainClient \<times> 'w" where
  "miner_loop G b58enc sum512 C [] k s = (Ret (), k, s)"
| "miner_loop G b58enc sum512 C (acc # accs) k s =
     (case EncodePublicKeyAsCessAccount b58enc sum512 acc of
        Inl err \<Rightarrow> miner_loop G b58enc sum512 C accs k s
      | Inr addr \<Rightarrow>
          (case on_chain (GetStorageMinerInfo G acc) s of
             (Panic, s1) \<Rightarrow> (Panic, k, s1)
           | (Ret answer, s1) \<Rightarrow>
               miner_loop G b58enc sum512 C accs (cache_miner b58enc sum512 C (acc, answer) k) s1))"

text \<open>The error of the first query is dropped: the list is then empty, and the pass waits.\<close>

definition miner_pass ::
  "('api, 'w) gsrpc \<Rightarrow> (bytes \<Rightarrow> string) \<Rightarrow> (bytes \<Rightarrow> bytes) \<Rightarrow> 'c Cacher
   \<Rightarrow> 'c \<Rightarrow> 'api chainClient \<times> 'w \<Rightarrow> unit outcome \<times> 'c \<times> 'api chainClient \<times> 'w" where
  "miner_pass G b58enc sum512 C k s =
     (if GetChainStatus (fst s) then
        (case on_chain (GetAllStorageMiner G) s of
           (Panic, s1) \<Rightarrow> (Panic, k, s1)
         | (Ret (Inl err), s1) \<Rightarrow> (Ret (), k, s1)
         | (Ret (Inr allMinerAcc), s1) \<Rightarrow>
             if length allMinerAcc = 0 then (Ret (), k, s1)
             else miner_loop G b58enc sum512 C allMinerAcc k s1)
      else (Ret (), k, s))"

section \<open>A pass is a round\<close>

lemma cache_miner_unencodable:
  "EncodePublicKeyAsCessAccount b58enc sum512 acc = Inl err \<Longrightarrow> cache_miner b58enc sum512 C (acc, answer) k = k"
  by (simp add: cache_miner_def)

lemma miner_loop_round:
  "miner_loop G b58enc sum512 C accs k s = (r, k', s') \<Longrightarrow>
   \<exists>entries rest. accs = map fst entries @ rest \<and> (r = Ret () \<longrightarrow> rest = []) \<and> k' = cache_round b58enc sum512 C entries k"
proof (induction accs arbitrary: k s)
  case Nil
  then show ?case by (auto simp: cache_round_def)
next
  case (Cons acc accs)
  show ?case
  proof (cases "EncodePublicKeyAsCessAccount b58enc sum512 acc")
    case (Inl err)
    then have "miner_loop G b58enc sum512 C accs k s = (r, k', s')" using Cons.prems by simp
    from Cons.IH [OF this] obtain entries rest where
      ent: "accs = map fst entries @ rest" "r = Ret () \<longrightarrow> rest = []" "k' = cache_round b58enc sum512 C entries k" by blast
    then show ?thesis using cache_miner_unencodable [OF Inl, of C "Inl []" k]
      by (intro exI [of _ "(acc, Inl []) # entries"] exI [of _ rest]) (simp add: cache_round_def)
  next
    case (Inr addr)
    obtain q s1 where q: "on_chain (GetStorageMinerInfo G acc) s = (q, s1)" by (metis prod.collapse)
    show ?thesis
    proof (cases q)
      case Panic
      then show ?thesis using Cons.prems Inr q by (intro exI [of _ "[]"] exI [of _ "acc # accs"]) (simp add: cache_round_def)
    next
      case (Ret answer)
      then have "miner_loop G b58enc sum512 C accs (cache_miner b58enc sum512 C (acc, answer) k) s1 = (r, k', s')"
        using Cons.prems Inr q by simp
      from Cons.IH [OF this] obtain entries rest where "accs = map fst entries @ rest" "r = Ret () \<longrightarrow> rest = []"
        "k' = cache_round b58enc sum512 C entries (cache_miner b58enc sum512 C (acc, answer) k)" by blast
      then show ?thesis
        by (intro exI [of _ "(acc, answer) # entries"] exI [of _ rest]) (simp add: cache_round_def)
    qed
  qed
qed

section \<open>A chain whose storage does not change\<close>

text \<open>What a query yields for a storage.\<close>

definition stored_value ::
  "('api, 'w) gsrpc \<Rightarrow> (bytes \<Rightarrow> bytes option) \<Rightarrow> string \<Rightarrow> string \<Rightarrow> bytes option \<Rightarrow> (bytes \<Rightarrow> go_error + 'a) \<Rightarrow> go_error + 'a" where
  "stored_value G storage pallet item arg dec =
     (case CreateStorageKey G pallet item arg of
        Inl err \<Rightarrow> Inl (wrap_error ''[CreateStorageKey]'' err)
      | Inr key \<Rightarrow>
          (case storage key of
             None \<Rightarrow> Inl ERR_RPC_EMPTY_VALUE
           | Some raw \<Rightarrow> (case dec raw of Inl err \<Rightarrow> Inl (wrap_error ''[GetStorageLatest]'' err) | Inr data \<Rightarrow> Inr data)))"

definition stored_miner :: "('api, 'w) gsrpc \<Rightarrow> (bytes \<Rightarrow> bytes option) \<Rightarrow> AccountID \<Rightarrow> go_error + MinerInfo" where
  "stored_miner G storage acc = stored_value G storage SMINER MINERITEMS (Some acc) (DecMiner G)"

text \<open>While the node stays reachable, \<open>GetStorageLatest\<close> answers with the value under the key.\<close>

locale steady_storage = steady_node G up
  for G :: "('api, 'w) gsrpc" and up :: "'w \<Rightarrow> bool" +
  fixes storage :: "bytes \<Rightarrow> bytes option"
  assumes stored: "up w \<Longrightarrow> fst (rpc_GetStorageLatest G a key w) = Inr (storage key)"
begin

lemma query_stored:
  assumes "up w" "cc_api c = Some api"
  shows "\<exists>w1. query_latest G p it arg dec c w = (Ret (stored_value G storage p it arg dec), c, w1) \<and> up w1"
proof (cases "CreateStorageKey G p it arg")
  case (Inl err)
  then show ?thesis using assms(1) by (simp add: query_latest_def stored_value_def)
next
  case (Inr key)
  obtain w1 where w1: "rpc_GetStorageLatest G api key w = (Inr (storage key), w1)" "up w1"
    using stored [OF assms(1), of api key] latest_up [OF assms(1), of api key] by (metis prod.collapse)
  then show ?thesis using Inr assms(2) by (auto simp: query_latest_def stored_value_def split: option.split sum.split)
qed

lemma connected_query:
  assumes "up w" "cc_api c = Some api"
  shows "\<exists>w1. with_connection G fl (query_latest G p it arg dec) c w = (Ret (stored_value G storage p it arg dec), SetChainState True c, w1) \<and> up w1"
proof -
  obtain w1 where w1: "IsChainClientOk G c w = (True, c, w1)" "up w1" using steady_client [OF assms] by blast
  have "cc_api (SetChainState True c) = Some api" using assms(2) by (simp add: SetChainState_def)
  from query_stored [OF w1(2) this] w1(1) show ?thesis by (simp add: with_connection_def)
qed

lemma loop_stored:
  assumes "up w" "cc_api c = Some api"
  shows "\<exists>c1 w1. miner_loop G b58enc sum512 C accs k (c, w)
      = (Ret (), cache_round b58enc sum512 C (map (\<lambda>acc. (acc, stored_miner G storage acc)) accs) k, (c1, w1))
    \<and> cc_api c1 = Some api \<and> up w1"
  using assms
proof (induction accs arbitrary: k c w)
  case Nil
  then show ?case by (simp add: cache_round_def)
next
  case (Cons acc accs)
  show ?case
  proof (cases "EncodePublicKeyAsCessAccount b58enc sum512 acc")
    case (Inl err)
    then show ?thesis using Cons.IH [OF Cons.prems, of k] by (simp add: cache_round_def cache_miner_unencodable)
  next
    case (Inr addr)
    obtain w1 where "GetStorageMinerInfo G acc c w = (Ret (stored_miner G storage acc), SetChainState True c, w1)" "up w1"
      using connected_query [OF Cons.prems] unfolding GetStorageMinerInfo_def stored_miner_def by metis
    then show ?thesis
      using Inr Cons.IH [of w1 "SetChainState True c" "cache_miner b58enc sum512 C (acc, stored_miner G storage acc) k"] Cons.prems(2)
      by (auto simp: on_chain_def cache_round_def SetChainState_def)
  qed
qed

lemma pass_stored:
  assumes "up w" "cc_api c = Some api" "GetChainStatus c"
    and "stored_value G storage SMINER ALLMINER None (DecAccounts G) = Inr accs"
  shows "\<exists>c1 w1. miner_pass G b58enc sum512 C k (c, w)
      = (Ret (), cache_round b58enc sum512 C (map (\<lambda>acc. (acc, stored_miner G storage acc)) accs) k, (c1, w1))
    \<and> cc_api c1 = Some api \<and> up w1"
proof -
  obtain w1 where w1: "GetAllStorageMiner G c w = (Ret (Inr accs), SetChainState True c, w1)" "up w1"
    using connected_query [OF assms(1,2)] assms(4) unfolding GetAllStorageMiner_def by metis
  have api: "cc_api (SetChainState True c) = Some api" using assms(2) by (simp add: SetChainState_def)
  show ?thesis
  proof (cases "accs = []")
    case True
    then show ?thesis using w1 api assms(3) by (simp add: miner_pass_def on_chain_def cache_round_def)
  next
    case False
    then show ?thesis using w1 loop_stored [OF w1(2) api, of b58enc sum512 C accs k] assms(3)
      by (auto simp: miner_pass_def on_chain_def)
  qed
qed

end

interpretation sample_storage: steady_storage sample_node "\<lambda>b. b" "\<lambda>_. Some []"
  by unfold_locales (simp add: sample_node_def)

section \<open>Properties\<close>


text \<open>A node whose storage has one miner.\<close>

definition miner_node :: "(unit, bool) gsrpc" where
  "miner_node = sample_node\<lparr>DecAccounts := (\<lambda>_. Inr [replicate 32 1]), DecMiner := (\<lambda>_. Inr sample_miner)\<rparr>"

interpretation one_miner: steady_storage miner_node "\<lambda>b. b" "\<lambda>_. Some []"
  by unfold_locales (auto simp: miner_node_def sample_node_def)

lemma miner_node_list: "stored_value miner_node (\<lambda>_. Some []) SMINER ALLMINER None (DecAccounts miner_node) = Inr [replicate 32 1]"
  by (simp add: stored_value_def miner_node_def sample_node_def)

lemma miner_node_miner: "stored_miner miner_node (\<lambda>_. Some []) acc = Inr sample_miner"
  by (simp add: stored_miner_def stored_value_def miner_node_def sample_node_def)

lemma sample_client_connected: "cc_api sample_client = Some ()" "GetChainStatus sample_client"
  by (simp_all add: sample_client_def GetChainStatus_def GetChainState_def)

lemma sample_accounts: "\<forall>acc \<in> set [replicate 32 (1 :: byte)]. length acc = 32
     \<and> (\<exists>addr. EncodePublicKeyAsCessAccount string_of_bytes (\<lambda>_. replicate 64 0) acc = Inr addr)"
  using sample_entries by simp


text \<open>
  C4: What the chain stores of its miners comes back to it in the blocks of a file.  A pass of the miner cache
  reads the storage; a later backup over the chain client, whose queries answer with miners of the list, ends with
  the file stored.  Then the call it submitted, which was put into a block with an upload, or whose file the chain
  calls active, or whose subscription was closed, holds one block for each chunk, and each block names a miner that the
  storage calls positive, with the peer number, the octets and the port of the storage, and a size that fits its free space.
\<close>

theorem stored_miners_reach_the_call:
  assumes "reliable_cacher C contents is_open" "is_open k" "steady_storage G up storage" "up w"
    and "cc_api c = Some api" "GetChainStatus c"
    and "stored_value G storage SMINER ALLMINER None (DecAccounts G) = Inr accs" "distinct accs"
    and "\<forall>acc \<in> set accs. length acc = 32 \<and> (\<exists>addr. EncodePublicKeyAsCessAccount b58enc sum512 acc = Inr addr)"
    and "miner_pass G b58enc sum512 C k (c, w) = (r, k1, s1)" "length fid \<noteq> 32"
    and "\<forall>io \<in> set ios. \<forall>as. await_miners (bo_miners io) = Some (Ret as)
      \<longrightarrow> (\<forall>acc \<in> set as. acc \<in> set accs \<and> (\<exists>mi. stored_miner G storage acc = Inr mi \<and> length (ip_Value (mi_Ip mi)) = 4))"
    and "Backup_on_chain G b58enc sum512 C sched ios fid fsize chunks (k1, c2, w2) = (Ended Stored, k3, c3, w3)"
  shows "\<exists>blocks. (in_block G has_upload (Call_Upload (bytes_of_string fid) (word_of_int fsize) blocks)
        \<or> (\<exists>c0 w0 fmeta. GetFileMetaInfo G fid c0 w0 = (Ret (Inr fmeta), c3, w3) \<and> string_of_bytes (fm_State fmeta) = FILE_STATE_ACTIVE)
        \<or> abandoned G (Call_Upload (bytes_of_string fid) (word_of_int fsize) blocks))
    \<and> list_all2 (\<lambda>chunk b. \<exists>mi. stored_miner G storage (bi_MinerAcc b) = Inr mi \<and> bi_MinerAcc b \<in> set accs
         \<and> string_of_bytes (mi_State mi) = MINER_STATE_POSITIVE \<and> bi_MinerId b = mi_PeerId mi
         \<and> bi_MinerIp b = \<lparr>ip_Index = 0, ip_Value = ip_Value (mi_Ip mi), ip_Port = ip_Port (mi_Ip mi)\<rparr>
         \<and> bi_BlockSize b \<le> cm_Free (miner_record mi)
         \<and> (\<exists>io \<in> set ios. \<exists>n. bo_stat io = Inr n \<and> bi_BlockSize b = word_of_nat n)) chunks blocks"
proof -
  let ?entries = "map (\<lambda>acc. (acc, stored_miner G storage acc)) accs"
  have entries: "distinct (map fst ?entries)"
    "\<forall>e \<in> set ?entries. length (fst e) = 32 \<and> (\<exists>addr. EncodePublicKeyAsCessAccount b58enc sum512 (fst e) = Inr addr)"
    using assms(8,9) by (simp_all add: comp_def)
  have map: "map_of ?entries acc = (if acc \<in> set accs then Some (stored_miner G storage acc) else None)" for acc
    by (simp add: map_of_map_restrict)
  have k1: "k1 = cache_round b58enc sum512 C ?entries k"
    using steady_storage.pass_stored [OF assms(3-7), of b58enc sum512 C k] assms(10) by auto
  have known: "\<forall>io \<in> set ios. \<forall>as. await_miners (bo_miners io) = Some (Ret as)
      \<longrightarrow> (\<forall>acc \<in> set as. \<exists>mi. map_of ?entries acc = Some (Inr mi) \<and> length (ip_Value (mi_Ip mi)) = 4)"
    using assms(12) by (auto simp: map)
  from reported_blocks_name_chain_miners [OF assms(1,2) entries assms(11) known
      assms(13) [unfolded Backup_on_chain_def k1]]
  obtain blocks where sm: "submit_meta (on_chain (SubmitFileMeta G fid (word_of_int fsize) blocks)) (file_meta G fid) 0 (c2, w2) = (Stored, (c3, w3))"
    and each: "list_all2 (\<lambda>chunk b. \<exists>mi. map_of ?entries (bi_MinerAcc b) = Some (Inr mi)
         \<and> string_of_bytes (mi_State mi) = MINER_STATE_POSITIVE \<and> bi_MinerId b = mi_PeerId mi
         \<and> bi_MinerIp b = \<lparr>ip_Index = 0, ip_Value = ip_Value (mi_Ip mi), ip_Port = ip_Port (mi_Ip mi)\<rparr>
         \<and> bi_BlockSize b \<le> cm_Free (miner_record mi)
         \<and> (\<exists>io \<in> set ios. \<exists>n. bo_stat io = Inr n \<and> bi_BlockSize b = word_of_nat n)) chunks blocks" by blast
  show ?thesis
    by (intro exI conjI, rule stored_meaning [OF sm], rule list_all2_mono [OF each]) (auto simp: map split: if_splits)
qed

lemma miner_node_pass:
  "\<exists>s1. miner_pass miner_node string_of_bytes (\<lambda>_. replicate 64 0) mem_cache (mem_db []) (sample_client, True) = (Ret (), sample_round, s1)"
  using one_miner.pass_stored [OF _ sample_client_connected miner_node_list, of True string_of_bytes "\<lambda>_. replicate 64 0" mem_cache "mem_db []"]
  by (auto simp: sample_round_def miner_node_miner)

lemma miner_node_submission:
  "on_chain (SubmitFileMeta miner_node sample_name n bs) (sample_client, True) = (Ret (''ab'', None), SetChainState True sample_client, True)"
  by (simp add: on_chain_def SubmitFileMeta_def with_connection_def len_FileHash_def sample_name_def IsChainClientOk_def healthchek_def miner_node_def sample_node_def sample_client_def)
     (simp add: submit_tx_def sample_events_def SetChainState_def hex_171 no_events_def)

theorem stored_miners_reach_the_call_witness:
  "\<exists>b :: BlockInfo. bi_MinerAcc b = replicate 32 1 \<and> bi_MinerId b = 9 \<and> bi_BlockSize b = 5
     \<and> bi_MinerIp b = \<lparr>ip_Index = 0, ip_Value = [10, 0, 0, 7], ip_Port = 15001\<rparr>"
proof -
  have name: "length sample_name \<noteq> 32" by (simp add: sample_name_def)
  obtain s1 where pass: "miner_pass miner_node string_of_bytes (\<lambda>_. replicate 64 0) mem_cache (mem_db []) (sample_client, True) = (Ret (), sample_round, s1)"
    using miner_node_pass by blast
  have "submit_meta (on_chain (SubmitFileMeta miner_node sample_name 5 bs)) (file_meta miner_node sample_name) 0 (sample_client, True)
      = (Stored, (SetChainState True sample_client, True))" for bs
    by (rule submit_meta_first, rule miner_node_submission)
  then obtain k3 where run: "Backup_on_chain miner_node string_of_bytes (\<lambda>_. replicate 64 0) mem_cache ''10.0.0.1:15000''
      [sample_backup_io] sample_name 5 [sample_name] (sample_round, sample_client, True) = (Ended Stored, k3, SetChainState True sample_client, True)"
    by (simp add: Backup_on_chain_def FileBackupManagement_def Let_def sample_backup_runs_on [OF sample_round_get [OF name]]
        del: replicate.simps split: prod.split)
  have known: "\<forall>io \<in> set [sample_backup_io]. \<forall>as. await_miners (bo_miners io) = Some (Ret as)
      \<longrightarrow> (\<forall>acc \<in> set as. acc \<in> set [replicate 32 1] \<and> (\<exists>mi. stored_miner miner_node (\<lambda>_. Some []) acc = Inr mi \<and> length (ip_Value (mi_Ip mi)) = 4))"
    by (simp add: miner_node_miner sample_backup_io_def sample_miner_def)
  have up: "(\<lambda>b. b) True" and open_db: "snd (db (mem_db []))" and d: "distinct [replicate 32 (1 :: byte)]" by simp_all
  from stored_miners_reach_the_call [OF mem_reliable.reliable_cacher_axioms open_db one_miner.steady_storage_axioms up
      sample_client_connected miner_node_list d sample_accounts pass name known run]
  show ?thesis
    by (auto simp: list_all2_Cons1 miner_node_miner sample_miner_def sample_backup_io_def)
qed

end
