(* ===== verification/ProofPass.thy ===== *)
theory ProofPass
  imports MinerPass
begin

text \<open>
  One pass of the validation task over the chain client (node/sub_verifyProofs.go, pkg/chain): the proofs that
  the storage of the chain has for the scheduler, and the calls that settle them.
\<close>

section \<open>The pass\<close>

text \<open>An error of the query is logged and the loop waits; the boolean is whether \<open>workLock\<close> is held.\<close>

definition validate_pass ::
  "('api, 'w) gsrpc \<Rightarrow> RSAKeyPair \<Rightarrow> bool \<times> 'api chainClient \<times> 'w \<Rightarrow> (bool \<times> 'api chainClient \<times> 'w) run option" where
  "validate_pass G key st =
     (case st of (lock, s) \<Rightarrow>
        (case on_chain (GetProofs G) s of
           (Panic, s1) \<Rightarrow> Some (PanicIn (lock, s1))
         | (Ret (Inl err), s1) \<Rightarrow> Some (Done (lock, s1))
         | (Ret (Inr proofs), s1) \<Rightarrow> validate_round (chain_submit G) key proofs (lock, s1)))"

section \<open>The batches of a round\<close>

text \<open>A list cut into pieces of \<open>n\<close>, of which the last may be shorter.\<close>

function batches :: "nat \<Rightarrow> 'a list \<Rightarrow> 'a list list" where
  "batches n xs = (if n = 0 \<or> xs = [] then [] else take n xs # batches n (drop n xs))"
  by pat_completeness auto
termination by (relation "measure (\<lambda>(n, xs). length xs)") auto

declare batches.simps [simp del]

lemma batches_Nil [simp]: "batches n [] = []"
  by (simp add: batches.simps)

lemma batches_full: "0 < n \<Longrightarrow> length b = n \<Longrightarrow> batches n (b @ xs) = b # batches n xs"
  by (subst batches.simps) auto

lemma batches_short: "0 < n \<Longrightarrow> xs \<noteq> [] \<Longrightarrow> length xs \<le> n \<Longrightarrow> batches n xs = [xs]"
  by (subst batches.simps) simp

lemma concat_batches: "0 < n \<Longrightarrow> concat (batches n xs) = xs"
proof (induction n xs rule: batches.induct)
  case (1 n xs)
  then show ?case by (subst batches.simps) auto
qed

text \<open>A submitter that takes every batch with a hash and keeps what it has taken.\<close>

locale accepting_submitter =
  fixes submit :: "'s submitter" and ok :: "'s \<Rightarrow> bool" and sent :: "'s \<Rightarrow> 'c list" and call :: "ProofResult list \<Rightarrow> 'c"
  assumes accepts: "ok s \<Longrightarrow> \<exists>h err s1. submit ps s = (Ret (h, err), s1) \<and> h \<noteq> [] \<and> ok s1 \<and> sent s1 = sent s @ [call ps]"
begin

lemma submit_once:
  assumes "ok s" "ps \<noteq> []"
  shows "\<exists>s1. submitProofResult submit ps s = Some (Done s1) \<and> ok s1 \<and> sent s1 = sent s @ [call ps]"
proof -
  obtain h err s1 where "submit ps s = (Ret (h, err), s1)" "h \<noteq> []" "ok s1" "sent s1 = sent s @ [call ps]"
    using accepts [OF assms(1)] by blast
  then show ?thesis using assms(2) by (simp add: submitProofResult_def submit_loop.simps)
qed

lemma verify_batches:
  assumes "ok s" "\<forall>p \<in> set proofs. verifyProof key p = Done (f p)" "length acc \<le> 40"
  shows "\<exists>vr s1 bs. verify_batch submit key proofs acc s = Some (Done (vr, s1)) \<and> ok s1 \<and> sent s1 = sent s @ map call bs
    \<and> batches 40 (acc @ map f proofs) = bs @ batches 40 vr \<and> length vr \<le> 40 \<and> (acc @ map f proofs \<noteq> [] \<longrightarrow> vr \<noteq> [])"
  using assms
proof (induction proofs arbitrary: acc s)
  case Nil
  then show ?case by (intro exI [of _ acc] exI [of _ s] exI [of _ "[]"]) simp
next
  case (Cons p proofs)
  have v: "verifyProof key p = Done (f p)" and rest: "\<forall>p \<in> set proofs. verifyProof key p = Done (f p)"
    using Cons.prems(2) by auto
  show ?case
  proof (cases "length acc = 40")
    case False
    then have "length (acc @ [f p]) \<le> 40" using Cons.prems(3) by simp
    then show ?thesis using Cons.IH [OF Cons.prems(1) rest, of "acc @ [f p]"] False Cons.prems(3) v
      by (simp add: Max_SubProofResults_def)
  next
    case True
    then obtain s1 where s1: "submitProofResult submit acc s = Some (Done s1)" "ok s1" "sent s1 = sent s @ [call acc]"
      using submit_once [OF Cons.prems(1), of acc] by (cases acc) auto
    obtain vr s2 bs where "verify_batch submit key proofs [f p] s1 = Some (Done (vr, s2))" "ok s2" "sent s2 = sent s1 @ map call bs"
      "batches 40 ([f p] @ map f proofs) = bs @ batches 40 vr" "length vr \<le> 40" "vr \<noteq> []"
      using Cons.IH [OF s1(2) rest, of "[f p]"] by auto
    then show ?thesis using s1 True v batches_full [of 40 acc "f p # map f proofs"]
      by (intro exI [of _ vr] exI [of _ s2] exI [of _ "acc # bs"]) (simp add: Max_SubProofResults_def)
  qed
qed

lemma round_batches:
  assumes "ok s" "\<forall>p \<in> set proofs. verifyProof key p = Done (f p)"
  shows "\<exists>s1. validate_round submit key proofs (False, s) = Some (Done (False, s1)) \<and> ok s1
    \<and> sent s1 = sent s @ map call (batches 40 (map f proofs))"
proof (cases "proofs = []")
  case True
  then show ?thesis using assms(1) by (simp add: validate_round_def)
next
  case False
  obtain vr s1 bs where vb: "verify_batch submit key proofs [] s = Some (Done (vr, s1))" "ok s1" "sent s1 = sent s @ map call bs"
    "batches 40 (map f proofs) = bs @ batches 40 vr" "length vr \<le> 40" "vr \<noteq> []"
    using verify_batches [OF assms, of "[]"] False by auto
  obtain s2 where "submitProofResult submit vr s1 = Some (Done s2)" "ok s2" "sent s2 = sent s1 @ [call vr]"
    using submit_once [OF vb(2,6)] by blast
  then show ?thesis using vb False batches_short [of 40 vr] by (simp add: validate_round_def)
qed

end

section \<open>A chain that takes the calls\<close>

text \<open>
  A node with an unchanged storage that has the account of the scheduler, and puts every call into a block whose
  events can be read.
\<close>

locale accepting_node = steady_storage G up storage
  for G :: "('api, 'w) gsrpc" and up :: "'w \<Rightarrow> bool" and storage :: "bytes \<Rightarrow> bytes option" +
  fixes pk :: bytes and nonce :: u32
  assumes call_made: "NewCall G name call = None" and signs: "Sign G call n = None"
    and account: "\<exists>key raw acc. CreateStorageKey G SYSTEM ACCOUNT (Some pk) = Inr key \<and> storage key = Some raw
      \<and> DecAccountInfo G raw = Inr acc \<and> ai_Nonce acc = nonce"
    and in_blocks: "up w \<Longrightarrow> \<exists>m hash later w1. rpc_Submit G a x w = (Inr (replicate m OtherStatus @ InBlock hash # later), w1)"
    and events_read: "up w \<Longrightarrow> \<exists>raw w1. rpc_GetStorageRaw G a h w = (Inr raw, w1)"
begin

lemma watch_in_block:
  assumes "up w"
  shows "\<exists>err w1. watch_sub (logged G) T ex a (replicate m OtherStatus @ InBlock hash # later) (w, l) = ((t_Hex T hash, err), (w1, l)) \<and> up w1"
proof -
  obtain raw w1 where "rpc_GetStorageRaw G a hash w = (Inr raw, w1)" "up w1"
    using events_read [OF assms, of a hash] raw_up [OF assms, of a hash] by (metis snd_conv)
  then show ?thesis by (induction m) (auto simp: Let_def logged_def)
qed

lemma tx_in_block:
  assumes "up w" "cc_api c = Some api" "cc_publicKey c = pk"
  shows "\<exists>hash err w1. submit_tx (logged G) T name ex call c (w, l) = (Ret (t_Hex T hash, err), c, (w1, l @ [(call, nonce)])) \<and> up w1"
proof -
  obtain key raw acc where acc: "CreateStorageKey G SYSTEM ACCOUNT (Some pk) = Inr key" "storage key = Some raw"
    "DecAccountInfo G raw = Inr acc" "ai_Nonce acc = nonce" using account by blast
  obtain w1 where w1: "rpc_GetStorageLatest G api key w = (Inr (Some raw), w1)" "up w1"
    using stored [OF assms(1), of api key] latest_up [OF assms(1), of api key] acc(2) by (metis prod.collapse)
  obtain m hash later w2 where w2: "rpc_Submit G api (call, nonce) w1 = (Inr (replicate m OtherStatus @ InBlock hash # later), w2)" "up w2"
    using in_blocks [OF w1(2), of api "(call, nonce)"] submit_up [OF w1(2), of api "(call, nonce)"] by (metis snd_conv)
  obtain err w3 where "watch_sub (logged G) T ex api (replicate m OtherStatus @ InBlock hash # later) (w2, l @ [(call, nonce)])
      = ((t_Hex T hash, err), (w3, l @ [(call, nonce)]))" "up w3"
    using watch_in_block [OF w2(2)] by blast
  then show ?thesis using acc w1 w2 assms call_made signs
    by (intro exI [of _ hash] exI [of _ err] exI [of _ w3]) (simp add: submit_tx_def logged_def)
qed

lemma logged_client:
  assumes "up w" "cc_api c = Some api"
  shows "\<exists>w1. IsChainClientOk (logged G) c (w, l) = (True, c, (w1, l)) \<and> up w1"
  using healthy [OF assms(1), of api] assms(2) by (auto simp: IsChainClientOk_def healthchek_def logged_def)

lemma proofs_stored:
  assumes "up w" "cc_api c = Some api" "cc_publicKey c = pk"
    and "stored_value G storage AUDIT UNVERIFYPROOF (Some pk) (DecProofs G) = Inr proofs"
  shows "\<exists>w1. GetProofs (logged G) c (w, l) = (Ret (Inr proofs), SetChainState True c, (w1, l)) \<and> up w1"
proof -
  obtain w1 where ok: "IsChainClientOk (logged G) c (w, l) = (True, c, (w1, l))" and w1: "up w1"
    using logged_client [OF assms(1,2)] by blast
  obtain key raw where key: "CreateStorageKey G AUDIT UNVERIFYPROOF (Some pk) = Inr key" "storage key = Some raw" "DecProofs G raw = Inr proofs"
    using assms(4) by (auto simp: stored_value_def split: sum.splits option.splits)
  obtain w2 where "rpc_GetStorageLatest G api key w1 = (Inr (Some raw), w2)" "up w2"
    using stored [OF w1, of api key] latest_up [OF w1, of api key] key(2) by (metis prod.collapse)
  then show ?thesis using ok key assms(2,3)
    by (simp add: GetProofs_def with_connection_def query_latest_def logged_def SetChainState_def)
qed

lemma submission_in_block:
  assumes "up w" "cc_api c = Some api" "cc_publicKey c = pk"
  shows "\<exists>h err w1. chain_submit (logged G) ps (c, (w, l)) = (Ret (h, err), (SetChainState True c, (w1, l @ [(Call_VerifyProof ps, nonce)])))
    \<and> h \<noteq> [] \<and> up w1"
proof -
  obtain w1 where ok: "IsChainClientOk (logged G) c (w, l) = (True, c, (w1, l))" and w1: "up w1"
    using logged_client [OF assms(1,2)] by blast
  have "cc_api (SetChainState True c) = Some api" "cc_publicKey (SetChainState True c) = pk"
    using assms(2,3) by (simp_all add: SetChainState_def)
  from tx_in_block [OF w1 this, of "texts_bracketed\<lparr>t_Retry := False\<rparr>" TX_AUDIT_VERIFYPROOF
      "\<lambda>ev. length (filter is_VerifyProofEv (ev_SegmentBook ev)) > 0" "Call_VerifyProof ps" l]
  obtain hash err w2 where "submit_tx (logged G) (texts_bracketed\<lparr>t_Retry := False\<rparr>) TX_AUDIT_VERIFYPROOF
      (\<lambda>ev. length (filter is_VerifyProofEv (ev_SegmentBook ev)) > 0) (Call_VerifyProof ps) (SetChainState True c) (w1, l)
      = (Ret (EncodeToHex hash, err), SetChainState True c, (w2, l @ [(Call_VerifyProof ps, nonce)]))" "up w2"
    by (auto simp: texts_bracketed_def)
  then show ?thesis using ok
    by (intro exI [of _ "EncodeToHex hash"] exI [of _ err] exI [of _ w2])
       (simp add: chain_submit_def SubmitProofResults_def with_connection_def EncodeToHex_def)
qed

end

sublocale accepting_node \<subseteq>
  taken: accepting_submitter "chain_submit (logged G)"
    "\<lambda>s. cc_api (fst s) \<noteq> None \<and> cc_publicKey (fst s) = pk \<and> up (fst (snd s))" "\<lambda>s. snd (snd s)" "\<lambda>ps. (Call_VerifyProof ps, nonce)"
proof unfold_locales
  fix s :: "'api chainClient \<times> 'w \<times> (tx_call \<times> u32) list" and ps
  assume s: "cc_api (fst s) \<noteq> None \<and> cc_publicKey (fst s) = pk \<and> up (fst (snd s))"
  obtain c w l where eq: "s = (c, (w, l))" by (cases s)
  with s obtain api where "up w" "cc_api c = Some api" "cc_publicKey c = pk" by auto
  from submission_in_block [OF this, of ps l] this(2,3)
  show "\<exists>h err s1. chain_submit (logged G) ps s = (Ret (h, err), s1) \<and> h \<noteq> []
    \<and> (cc_api (fst s1) \<noteq> None \<and> cc_publicKey (fst s1) = pk \<and> up (fst (snd s1))) \<and> snd (snd s1) = snd (snd s) @ [(Call_VerifyProof ps, nonce)]"
    by (auto simp: eq SetChainState_def)
qed

context accepting_node
begin

lemma pass_settles:
  assumes "up w" "cc_api c \<noteq> None" "cc_publicKey c = pk"
    and "stored_value G storage AUDIT UNVERIFYPROOF (Some pk) (DecProofs G) = Inr proofs"
    and "\<forall>p \<in> set proofs. verifyProof key p = Done (verdict p)"
  shows "\<exists>c1 w1. validate_pass (logged G) key (False, (c, (w, [])))
      = Some (Done (False, (c1, (w1, map (\<lambda>b. (Call_VerifyProof b, nonce)) (batches 40 (map verdict proofs))))))
    \<and> cc_api c1 \<noteq> None \<and> up w1"
proof -
  obtain api where api: "cc_api c = Some api" using assms(2) by blast
  obtain w1 where w1: "GetProofs (logged G) c (w, []) = (Ret (Inr proofs), SetChainState True c, (w1, []))" "up w1"
    using proofs_stored [OF assms(1) api assms(3,4)] by blast
  have "cc_api (fst (SetChainState True c, (w1, []))) \<noteq> None \<and> cc_publicKey (fst (SetChainState True c, (w1, []))) = pk
      \<and> up (fst (snd (SetChainState True c, (w1, []))))"
    using api assms(3) w1(2) by (simp add: SetChainState_def)
  from taken.round_batches [OF this assms(5)] w1(1)
  show ?thesis by (auto simp: validate_pass_def on_chain_def)
qed

end

interpretation sample_accepts: accepting_node sample_node "\<lambda>b. b" "\<lambda>_. Some []" "replicate 32 1" 7
proof unfold_locales
  fix up :: bool and a x
  show "\<exists>m hash later w1. rpc_Submit sample_node a x up = (Inr (replicate m OtherStatus @ InBlock hash # later), w1)"
    by (intro exI [of _ "1 :: nat"] exI [of _ "[171]"] exI [of _ "[]"]) (simp add: sample_node_def)
qed (auto simp: sample_node_def)

section \<open>Properties\<close>


text \<open>A node whose storage has forty-one proofs.\<close>

definition proof_node :: "(unit, bool) gsrpc" where
  "proof_node = sample_node\<lparr>DecProofs := (\<lambda>_. Inr (replicate 41 sample_proof))\<rparr>"

interpretation forty_one: accepting_node proof_node "\<lambda>b. b" "\<lambda>_. Some []" "replicate 32 1" 7
proof unfold_locales
  fix up :: bool and a x
  show "\<exists>m hash later w1. rpc_Submit proof_node a x up = (Inr (replicate m OtherStatus @ InBlock hash # later), w1)"
    by (intro exI [of _ "1 :: nat"] exI [of _ "[171]"] exI [of _ "[]"]) (simp add: proof_node_def sample_node_def)
qed (auto simp: proof_node_def sample_node_def)


text \<open>
  A miner that holds the challenged blocks, whose numbers are \<open>m\<close>, answers with the sum of the blocks and the
  product of their tags, each to the random number of its block; the tags were made with the secret exponent \<open>d\<close>.
  A proof without one of its parts is incomplete.
\<close>

definition honest_answer :: "nat \<Rightarrow> (nat \<Rightarrow> nat) \<Rightarrow> Proof \<Rightarrow> bool" where
  "honest_answer d m prf =
     (let ch = pf_Challenge_info prf; blocks = ch_Block_list ch; v = (\<lambda>i. SetBytes (ch_Random ch ! i));
          h = (\<lambda>i. SetBytes (pf_HashMi prf ! i)); u = SetBytes (pf_U prf) in
      blocks \<noteq> [] \<and> length (ch_Random ch) = length blocks \<and> length blocks \<le> length (pf_HashMi prf)
      \<and> pf_Mu prf = big_Bytes (\<Sum>i<length blocks. v i * m i)
      \<and> pf_Sigma prf = big_Bytes (\<Prod>i<length blocks. ((h i * u ^ m i) ^ d) ^ v i))"

definition incomplete :: "Proof \<Rightarrow> bool" where
  "incomplete prf = (pf_U prf = [] \<or> pf_Sigma prf = [] \<or> pf_Omega prf = [])"

lemma incomplete_fails: "incomplete prf \<Longrightarrow> verifyProof key prf = Done (result_of prf False)"
  by (auto simp: verifyProof_def incomplete_def)

lemma honest_passes:
  assumes "honest_answer d m prf" "\<not> incomplete prf"
    and "spk_N key = Some n" "0 < n" "spk_E key = int e" "\<forall>x. (x ^ d) ^ e mod nat n = x mod nat n"
  shows "verifyProof key prf = Done (result_of prf True)"
proof -
  let ?blocks = "ch_Block_list (pf_Challenge_info prf)" and ?random = "ch_Random (pf_Challenge_info prf)"
  have h: "?blocks \<noteq> []" "length ?random = length ?blocks" "length ?blocks \<le> length (pf_HashMi prf)"
    "pf_Mu prf = big_Bytes (\<Sum>i<length ?blocks. SetBytes (?random ! i) * m i)"
    "pf_Sigma prf = big_Bytes (\<Prod>i<length ?blocks. ((SetBytes (pf_HashMi prf ! i) * SetBytes (pf_U prf) ^ m i) ^ d) ^ SetBytes (?random ! i))"
    using assms(1) by (simp_all add: honest_answer_def Let_def)
  obtain Q where Q: "PoDR2ChallengeGenerateFromChain ?blocks ?random = Inr Q" "length Q = length ?blocks"
    "\<forall>i < length Q. q_V (Q ! i) = ?random ! i"
    using h(2) by (auto simp: PoDR2ChallengeGenerateFromChain_def)
  have "Q \<noteq> []" using Q(2) h(1) by auto
  then have "VerifyProof key (pf_U prf) Q (pf_Mu prf) (pf_Sigma prf) (pf_HashMi prf) = Verdict True"
    using honest_proof_accepted [of Q "pf_HashMi prf" key n e d "pf_U prf" m] h Q(2,3) assms(3-6) by auto
  then show ?thesis using assms(2) Q(1) by (simp add: verifyProof_def incomplete_def)
qed


text \<open>A node with the proof of a miner that holds its block, and one without an answer.\<close>

definition honest_sample :: Proof where
  "honest_sample = sample_proof\<lparr>pf_Mu := big_Bytes 4, pf_Sigma := big_Bytes ((5 * 2 ^ 4) ^ 7), pf_HashMi := [[5]]\<rparr>"

definition two_miners :: "(unit, bool) gsrpc" where
  "two_miners = sample_node\<lparr>DecProofs := (\<lambda>_. Inr [honest_sample, sample_proof\<lparr>pf_Sigma := []\<rparr>])\<rparr>"

interpretation two_miners: accepting_node two_miners "\<lambda>b. b" "\<lambda>_. Some []" "replicate 32 1" 7
proof unfold_locales
  fix up :: bool and a x
  show "\<exists>m hash later w1. rpc_Submit two_miners a x up = (Inr (replicate m OtherStatus @ InBlock hash # later), w1)"
    by (intro exI [of _ "1 :: nat"] exI [of _ "[171]"] exI [of _ "[]"]) (simp add: two_miners_def sample_node_def)
qed (auto simp: two_miners_def sample_node_def)


end
