(* ===== verification/UploadProtocol.thy ===== *)
theory UploadProtocol
  imports HandlerProps Steps
begin

text \<open>
  What a connection promises about uploads, without messages, offsets and answers of the system: an
  abstract protocol in which a file is opened, grows by what is received and is accepted as a whole, and the
  refinement of it by the handler of node/handler.go.
\<close>

section \<open>The protocol\<close>

record upload =
  up_open :: "string option"
  up_files :: "string \<Rightarrow> bytes option"
  up_backups :: "(string \<times> int \<times> string list) list"

datatype upload_event =
    Granting string
  | NotOpened
  | Received bytes
  | Accepted string bytes "(string \<times> int \<times> string list) list"

inductive upload_step :: "upload \<Rightarrow> upload_event \<Rightarrow> upload \<Rightarrow> bool" where
  granting: "upload_step u (Granting p) (u\<lparr>up_open := Some p, up_files := (up_files u)(p \<mapsto> [])\<rparr>)"
| not_opened: "upload_step u NotOpened (u\<lparr>up_open := None\<rparr>)"
| received: "up_open u = Some p \<Longrightarrow> up_files u p = Some old \<Longrightarrow>
    upload_step u (Received bs) (u\<lparr>up_files := (up_files u)(p \<mapsto> old @ bs)\<rparr>)"
| accepted: "up_open u = Some p \<Longrightarrow> up_files u p = Some bs \<Longrightarrow> length backups \<le> 1 \<Longrightarrow>
    upload_step u (Accepted p bs backups) (u\<lparr>up_open := None, up_backups := up_backups u @ backups\<rparr>)"

inductive_simps upload_step_simps [simp]:
  "upload_step u (Granting p) u'" "upload_step u NotOpened u'"
  "upload_step u (Received bs) u'" "upload_step u (Accepted p bs backups) u'"

text \<open>The open file is there, and an acceptance starts one backup at most.\<close>

interpretation upload: labelled_stable upload_step "\<lambda>u. \<forall>p. up_open u = Some p \<longrightarrow> up_files u p \<noteq> None"
  "\<lambda>e. case e of Accepted p bs backups \<Rightarrow> length backups \<le> 1 | _ \<Rightarrow> True"
  by unfold_locales (auto elim!: upload_step.cases)

text \<open>
  In every run an accepted file is what was received since it was granted: before the acceptance come the grant of
  this file and then nothing but received bytes.
\<close>

definition since_grant :: "upload_event list \<Rightarrow> upload \<Rightarrow> bool" where
  "since_grant es u \<longleftrightarrow> (\<forall>p. up_open u = Some p \<longrightarrow>
     (\<exists>before rs. es = before @ Granting p # map Received rs \<and> up_files u p = Some (concat rs)))"

lemma step_since_grant:
  assumes "upload_step u e u'" "since_grant es u"
  shows "since_grant (es @ [e]) u'"
  using assms
proof (cases rule: upload_step.cases)
  case (granting p)
  then show ?thesis
    by (simp add: since_grant_def) (rule exI [of _ es], rule exI [of _ "[]"], simp)
next
  case (received p old bs)
  then obtain before rs where "es = before @ Granting p # map Received rs" "old = concat rs"
    using assms(2) by (auto simp: since_grant_def)
  then show ?thesis using received
    by (simp add: since_grant_def) (rule exI [of _ before], rule exI [of _ "rs @ [bs]"], simp)
qed (auto simp: since_grant_def)

lemma run_since_grant: "runs upload_step u es u' \<Longrightarrow> since_grant before u \<Longrightarrow> since_grant (before @ es) u'"
proof (induction arbitrary: before rule: runs.induct)
  case (runs_more s e s1 es s2)
  from runs_more.IH [OF step_since_grant [OF runs_more.hyps(1) runs_more.prems]] show ?case by simp
qed simp

lemma accepted_since_grant:
  assumes "runs upload_step u (es @ Accepted p bs backups # later) u'" "up_open u = None"
  shows "\<exists>before rs. es = before @ Granting p # map Received rs \<and> bs = concat rs \<and> length backups \<le> 1"
proof -
  have one: "length backups \<le> 1"
    using upload.runs_allowed [OF assms(1), of "Accepted p bs backups"] assms(2) by simp
  obtain u1 u2 where run: "runs upload_step u es u1" and acc: "upload_step u1 (Accepted p bs backups) u2"
    using assms(1) by (auto simp: runs_append runs_Cons)
  have "since_grant [] u" using assms(2) by (simp add: since_grant_def)
  from run_since_grant [OF run this] have "since_grant es u1" by simp
  then show ?thesis using acc one by (auto simp: since_grant_def)
qed

section \<open>The handler\<close>

text \<open>What a message of a connection is for the protocol, and the events of a run of the loop.\<close>

definition upload_events :: "handler_env \<Rightarrow> msg_io \<Rightarrow> Message \<Rightarrow> conn_state \<Rightarrow> upload_event list" where
  "upload_events env io m s =
     (if m_MsgType m = MsgHead then
        (if \<not> granted env io m then [] else if io_open io = None then [Granting (upload_path env m)] else [NotOpened])
      else if m_MsgType m = MsgFile then
        (case (cs_fs s, slice_to (m_Bytes m) (unat (m_FileSize m))) of
           (Some f, Ret bs) \<Rightarrow> [Received (case io_write io of None \<Rightarrow> bs | Some (k, e) \<Rightarrow> take k bs)]
         | _ \<Rightarrow> [])
      else if m_MsgType m = MsgEnd then
        (case cs_fs s of
           None \<Rightarrow> []
         | Some f \<Rightarrow>
             if io_stat io \<noteq> None \<or> int (file_length f (cs_disk s)) \<noteq> sint (m_FileSize m) then []
             else [Accepted (of_path f) (case content (cs_disk s) (of_path f) of None \<Rightarrow> [] | Some bs \<Rightarrow> bs)
               (if m_LastMark m then
                  (case Uint64 (m_SignMsg m) of
                     Panic \<Rightarrow> []
                   | Ret n \<Rightarrow> [(m_FileHash m, sint n, glob (he_dir env @ ''/'' @ m_FileHash m @ ''*'') (cs_disk s))])
                else [])])
      else [])"

fun loop_events :: "handler_env \<Rightarrow> arrival list \<Rightarrow> conn_state \<Rightarrow> upload_event list" where
  "loop_events env [] s = []"
| "loop_events env (Lost # as) s = []"
| "loop_events env (Quiet # as) s = loop_events env as s"
| "loop_events env (Arrive io m # as) s = upload_events env io m s @
     (case handle_msg env io m s of Go s' \<Rightarrow> loop_events env as s' | _ \<Rightarrow> [])"

text \<open>What the protocol sees of a connection, and the place of the open file's offset, at its end.\<close>

definition upload_view :: "conn_state \<Rightarrow> upload" where
  "upload_view s = \<lparr>up_open = map_option of_path (cs_fs s), up_files = content (cs_disk s), up_backups = cs_backups s\<rparr>"

definition at_end :: "conn_state \<Rightarrow> bool" where
  "at_end s \<longleftrightarrow> (\<forall>f. cs_fs s = Some f \<longrightarrow> (\<exists>bs. content (cs_disk s) (of_path f) = Some bs \<and> of_off f = length bs))"

lemma upload_view_fields [simp]:
  "up_open (upload_view s) = map_option of_path (cs_fs s)" "up_files (upload_view s) = content (cs_disk s)"
  "up_backups (upload_view s) = cs_backups s"
  by (simp_all add: upload_view_def)

lemma upload_eqI:
  "up_open u = up_open v \<Longrightarrow> up_files u = up_files v \<Longrightarrow> up_backups u = up_backups v \<Longrightarrow> (u :: upload) = v"
  by simp

lemma head_refines:
  assumes "m_MsgType m = MsgHead" "at_end s"
  shows "runs upload_step (upload_view s) (upload_events env io m s) (upload_view (round_state (handle_msg env io m s)))
    \<and> at_end (round_state (handle_msg env io m s))"
proof (cases "granted env io m")
  case False
  note same = handle_head_cases [OF assms(1) False, of s]
  then have "upload_view (round_state (handle_msg env io m s)) = upload_view s" by (intro upload_eqI) simp_all
  then show ?thesis using same assms False by (simp add: upload_events_def at_end_def)
next
  case True
  then show ?thesis
    using assms(1)
    by (cases "io_open io")
       (auto simp: upload_events_def handle_head_granted reject_def send_msg_def runs_Cons at_end_def intro!: upload_eqI)
qed

lemma file_refines:
  assumes "m_MsgType m = MsgFile" "at_end s"
  shows "runs upload_step (upload_view s) (upload_events env io m s) (upload_view (round_state (handle_msg env io m s)))
    \<and> at_end (round_state (handle_msg env io m s))"
proof (cases "cs_fs s")
  case None
  then show ?thesis using assms
    by (auto simp: upload_events_def msg_defs handle_file_def send_msg_def at_end_def intro!: upload_eqI)
next
  case (Some f)
  obtain old where old: "content (cs_disk s) (of_path f) = Some old" "of_off f = length old"
    using assms(2) Some by (auto simp: at_end_def)
  show ?thesis
  proof (cases "slice_to (m_Bytes m) (unat (m_FileSize m))")
    case Panic
    then show ?thesis using assms Some
      by (auto simp: upload_events_def msg_defs handle_file_def send_msg_def at_end_def intro!: upload_eqI)
  next
    case (Ret bs)
    then show ?thesis using assms(1) Some old
      by (cases "io_write io")
         (auto simp: upload_events_def msg_defs handle_file_def file_write_def send_msg_def at_end_def runs_Cons Let_def intro!: upload_eqI)
  qed
qed

lemma end_refines:
  assumes "m_MsgType m = MsgEnd" "at_end s"
  shows "runs upload_step (upload_view s) (upload_events env io m s) (upload_view (round_state (handle_msg env io m s)))
    \<and> at_end (round_state (handle_msg env io m s))"
proof (cases "cs_fs s")
  case None
  then show ?thesis using assms
    by (auto simp: upload_events_def msg_defs handle_end_def reject_def send_msg_def at_end_def intro!: upload_eqI)
next
  case (Some f)
  obtain old where old: "content (cs_disk s) (of_path f) = Some old" "of_off f = length old"
    using assms(2) Some by (auto simp: at_end_def)
  show ?thesis
    using assms Some old
    by (cases "Uint64 (m_SignMsg m)")
       (auto simp: upload_events_def msg_defs handle_end_def reject_def send_msg_def at_end_def runs_Cons Let_def intro!: upload_eqI)
qed

lemma message_refines:
  assumes "at_end s"
  shows "runs upload_step (upload_view s) (upload_events env io m s) (upload_view (round_state (handle_msg env io m s)))
    \<and> at_end (round_state (handle_msg env io m s))"
proof (cases "m_MsgType m = MsgHead \<or> m_MsgType m = MsgFile \<or> m_MsgType m = MsgEnd")
  case True
  then show ?thesis using head_refines file_refines end_refines assms by metis
next
  case False
  then have no: "m_MsgType m \<noteq> MsgHead" "m_MsgType m \<noteq> MsgFile" "m_MsgType m \<noteq> MsgEnd" by auto
  note same = handle_other_round [OF no, of env io s]
  then have "upload_view (round_state (handle_msg env io m s)) = upload_view s" by (intro upload_eqI) simp_all
  then show ?thesis using same assms no by (simp add: upload_events_def at_end_def)
qed

lemma loop_refines:
  "at_end s \<Longrightarrow> runs upload_step (upload_view s) (loop_events env as s) (upload_view (round_state (handler_loop env as s)))"
proof (induction env as s rule: loop_events.induct)
  case (4 env io m as s)
  note one = message_refines [OF "4.prems", of env io m]
  show ?case
    using one "4.IH" by (cases "handle_msg env io m s") (auto simp: runs_append)
qed simp_all

section \<open>Properties\<close>

text \<open>
  C3: The handler refines the upload protocol.  Whatever messages a peer sends and whatever the operating system
  and the chain answer, the run of a new connection is a run of the protocol on what it sees of the
  connection: the open file, the files and the backups.  Writes at the offset are appends, a file is opened
  only by a granted head, and a backup starts only with the acceptance of a file.
\<close>

theorem handler_refines_upload:
  "runs upload_step (upload_view (new_conn d)) (loop_events env as (new_conn d))
     (upload_view (round_state (handler_loop env as (new_conn d))))"
  by (rule loop_refines) (simp add: at_end_def new_conn_def)



end
