(* ===== verification/ChainLost.thy ===== *)
theory ChainLost
  imports VerifyTask
begin

text \<open>
  The operations of the chain client together (pkg/chain/client.go, chainState.go, transaction.go): any sequence
  of them over a node that stays reachable, and after a reconnection that failed.
\<close>

section \<open>Sequences of operations\<close>

datatype chain_op =
    OpSyncStatus
  | OpMinerInfo bytes
  | OpAllMiners
  | OpFileMeta string
  | OpSchedulers
  | OpProofs
  | OpAccount bytes
  | OpRegister string string u16
  | OpUpdate string string
  | OpSubmitFile string u64 "BlockInfo list"
  | OpSubmitFiller AccountID "FillerMetaInfo list"
  | OpSubmitProofs "ProofResult list"

text \<open>Of the answers, whether a query gave a value and whether a transaction gave a hash or no error.\<close>

fun answered :: "(go_error + 'a) outcome \<Rightarrow> bool outcome" where
  "answered (Ret (Inl err)) = Ret False"
| "answered (Ret (Inr a)) = Ret True"
| "answered Panic = Panic"

fun accepted_tx :: "(string \<times> go_error option) outcome \<Rightarrow> bool outcome" where
  "accepted_tx (Ret (h, err)) = Ret (h \<noteq> [] \<or> err = None)"
| "accepted_tx Panic = Panic"

definition judge :: "('r \<Rightarrow> bool outcome) \<Rightarrow> 'r \<times> 's \<Rightarrow> bool outcome \<times> 's" where
  "judge f rs = (case rs of (r, s) \<Rightarrow> (f r, s))"

fun do_chain_op ::
  "('api, 'w) gsrpc \<Rightarrow> (string \<Rightarrow> bytes) \<Rightarrow> (bytes \<Rightarrow> bytes) \<Rightarrow> chain_op
   \<Rightarrow> 'api chainClient \<Rightarrow> 'w \<Rightarrow> bool outcome \<times> 'api chainClient \<times> 'w" where
  "do_chain_op G b58dec sum512 OpSyncStatus c w = judge answered (GetSyncStatus G c w)"
| "do_chain_op G b58dec sum512 (OpMinerInfo pk) c w = judge answered (GetStorageMinerInfo G pk c w)"
| "do_chain_op G b58dec sum512 OpAllMiners c w = judge answered (GetAllStorageMiner G c w)"
| "do_chain_op G b58dec sum512 (OpFileMeta fid) c w = judge answered (GetFileMetaInfo G fid c w)"
| "do_chain_op G b58dec sum512 OpSchedulers c w = judge answered (GetAllSchedulerInfo G c w)"
| "do_chain_op G b58dec sum512 OpProofs c w = judge answered (GetProofs G c w)"
| "do_chain_op G b58dec sum512 (OpAccount pk) c w = judge answered (GetAccountInfo G pk c w)"
| "do_chain_op G b58dec sum512 (OpRegister stash ip port) c w = judge accepted_tx (Register G b58dec sum512 stash ip port c w)"
| "do_chain_op G b58dec sum512 (OpUpdate ip port) c w = judge accepted_tx (Update G ip port c w)"
| "do_chain_op G b58dec sum512 (OpSubmitFile fid n bs) c w = judge accepted_tx (SubmitFileMeta G fid n bs c w)"
| "do_chain_op G b58dec sum512 (OpSubmitFiller acc info) c w = judge accepted_tx (SubmitFillerMeta G acc info c w)"
| "do_chain_op G b58dec sum512 (OpSubmitProofs prs) c w = judge accepted_tx (SubmitProofResults G prs c w)"

fun do_chain_ops ::
  "('api, 'w) gsrpc \<Rightarrow> (string \<Rightarrow> bytes) \<Rightarrow> (bytes \<Rightarrow> bytes) \<Rightarrow> chain_op list
   \<Rightarrow> 'api chainClient \<Rightarrow> 'w \<Rightarrow> bool outcome list \<times> 'api chainClient \<times> 'w" where
  "do_chain_ops G b58dec sum512 [] c w = ([], c, w)"
| "do_chain_ops G b58dec sum512 (op # ops) c w =
     (case do_chain_op G b58dec sum512 op c w of (r, c1, w1) \<Rightarrow>
        case do_chain_ops G b58dec sum512 ops c1 w1 of (rs, c2, w2) \<Rightarrow> (r # rs, c2, w2))"

lemma judge_simp [simp]: "judge f (r, s) = (f r, s)"
  by (simp add: judge_def)

section \<open>Without a connection\<close>

lemma query_nil:
  assumes "cc_api c = None"
  shows "\<exists>r. query_latest G p it arg dec c w = (r, c, w) \<and> answered r \<noteq> Ret True"
  using assms by (simp add: query_latest_nil split: sum.split)

lemma tx_nil:
  assumes "cc_api c = None"
  shows "\<exists>r. submit_tx G T name ex call c w = (r, c, w) \<and> accepted_tx r \<noteq> Ret True"
  using assms by (simp add: submit_tx_def split: sum.split option.split)

lemma nil_set [simp]: "cc_api (SetChainState b c) = cc_api c"
  by (simp add: SetChainState_def)

lemma connection_nil:
  assumes "cc_api c = None" "\<And>c. cc_api c = None \<Longrightarrow> \<exists>r. body c w = (r, c, w) \<and> f r \<noteq> Ret True"
  shows "\<exists>b s. judge f (with_connection G fl body c w) = (b, SetChainState s c, w) \<and> b \<noteq> Ret True"
proof -
  obtain r where "body (SetChainState True c) w = (r, SetChainState True c, w)" "f r \<noteq> Ret True"
    using assms(2) [of "SetChainState True c"] assms(1) by auto
  then have "judge f (with_connection G fl body c w) = (f r, SetChainState True c, w) \<and> f r \<noteq> Ret True"
    by (simp add: with_connection_nil assms(1))
  then show ?thesis by blast
qed

lemma do_chain_op_nil:
  assumes "cc_api c = None"
  shows "\<exists>b s. do_chain_op G b58dec sum512 op c w = (b, SetChainState s c, w) \<and> b \<noteq> Ret True"
proof (cases op)
  case OpSyncStatus
  have "SetChainState (cc_chainState c) c = c" by (simp add: SetChainState_def)
  then show ?thesis using OpSyncStatus assms
    by (intro exI [of _ Panic] exI [of _ "cc_chainState c"]) (simp add: GetSyncStatus_def)
next
  case (OpMinerInfo pk)
  show ?thesis unfolding OpMinerInfo do_chain_op.simps GetStorageMinerInfo_def
    by (rule connection_nil [OF assms]) (rule query_nil)
next
  case OpAllMiners
  show ?thesis unfolding OpAllMiners do_chain_op.simps GetAllStorageMiner_def
    by (rule connection_nil [OF assms]) (rule query_nil)
next
  case (OpFileMeta fid)
  show ?thesis unfolding OpFileMeta do_chain_op.simps GetFileMetaInfo_def
    by (rule connection_nil [OF assms]) (simp add: query_nil split: sum.split)
next
  case OpSchedulers
  show ?thesis unfolding OpSchedulers do_chain_op.simps GetAllSchedulerInfo_def
    by (rule connection_nil [OF assms]) (rule query_nil)
next
  case OpProofs
  show ?thesis unfolding OpProofs do_chain_op.simps GetProofs_def
    by (rule connection_nil [OF assms]) (rule query_nil)
next
  case (OpAccount pk)
  show ?thesis unfolding OpAccount do_chain_op.simps GetAccountInfo_def
    by (rule connection_nil [OF assms]) (simp add: query_nil split: sum.split)
next
  case (OpRegister stash ip port)
  show ?thesis unfolding OpRegister do_chain_op.simps Register_def
    by (rule connection_nil [OF assms]) (simp add: tx_nil split: sum.split outcome.split)
next
  case (OpUpdate ip port)
  show ?thesis unfolding OpUpdate do_chain_op.simps Update_def
    by (rule connection_nil [OF assms]) (simp add: tx_nil split: outcome.split)
next
  case (OpSubmitFile fid n bs)
  show ?thesis unfolding OpSubmitFile do_chain_op.simps SubmitFileMeta_def
    by (rule connection_nil [OF assms]) (simp add: tx_nil)
next
  case (OpSubmitFiller acc info)
  show ?thesis unfolding OpSubmitFiller do_chain_op.simps SubmitFillerMeta_def
    by (rule connection_nil [OF assms]) (rule tx_nil)
next
  case (OpSubmitProofs prs)
  show ?thesis unfolding OpSubmitProofs do_chain_op.simps SubmitProofResults_def
    by (rule connection_nil [OF assms]) (rule tx_nil)
qed

lemma do_chain_ops_nil:
  "cc_api c = None \<Longrightarrow> \<exists>rs s. do_chain_ops G b58dec sum512 ops c w = (rs, SetChainState s c, w) \<and> Ret True \<notin> set rs"
proof (induction ops arbitrary: c)
  case Nil
  have "SetChainState (cc_chainState c) c = c" by (simp add: SetChainState_def)
  then show ?case by (metis do_chain_ops.simps(1) empty_iff empty_set)
next
  case (Cons op ops)
  obtain b s where b: "do_chain_op G b58dec sum512 op c w = (b, SetChainState s c, w)" "b \<noteq> Ret True"
    using do_chain_op_nil [OF Cons.prems, of G b58dec sum512 op w] by blast
  obtain rs s1 where "do_chain_ops G b58dec sum512 ops (SetChainState s c) w = (rs, SetChainState s1 (SetChainState s c), w)" "Ret True \<notin> set rs"
    using Cons.IH [of "SetChainState s c"] Cons.prems by auto
  moreover have "SetChainState s1 (SetChainState s c) = SetChainState s1 c" by (simp add: SetChainState_def)
  ultimately show ?case using b by auto
qed

section \<open>With a node that stays reachable\<close>

lemma answered_Ret: "\<exists>b. answered (Ret a) = Ret b"
  by (cases a) (metis answered.simps)+

lemma accepted_tx_Ret: "\<exists>b. accepted_tx (Ret a) = Ret b"
  by (cases a) (metis accepted_tx.simps)

context steady_node
begin

lemma query_steady:
  assumes "up w" "cc_api c = Some api"
  shows "\<exists>a w1. query_latest G p it arg dec c w = (Ret a, c, w1) \<and> up w1"
proof (cases "CreateStorageKey G p it arg")
  case (Inr key)
  obtain r w1 where "rpc_GetStorageLatest G api key w = (r, w1)" "up w1"
    using latest_up [OF assms(1), of api key] by (metis prod.collapse)
  then show ?thesis using Inr assms(2) by (auto simp: query_latest_def split: sum.split option.split)
qed (use assms in \<open>simp add: query_latest_def\<close>)

lemma tx_steady:
  assumes "up w" "cc_api c = Some api"
  shows "\<exists>h err w1. submit_tx G T name ex call c w = (Ret (h, err), c, w1) \<and> up w1"
  using submit_tx_steady [OF assms, of T name ex call] by blast

lemma connection_steady:
  assumes "up w" "cc_api c = Some api" "\<And>a. \<exists>b. f (Ret a) = Ret b"
    and "\<And>c w. up w \<Longrightarrow> cc_api c = Some api \<Longrightarrow> \<exists>a w1. body c w = (Ret a, c, w1) \<and> up w1"
  shows "\<exists>b c1 w1. judge f (with_connection G fl body c w) = (Ret b, c1, w1) \<and> cc_api c1 = Some api \<and> up w1"
proof -
  obtain w1 where w1: "IsChainClientOk G c w = (True, c, w1)" "up w1" using steady_client [OF assms(1,2)] by blast
  obtain a w2 where "body (SetChainState True c) w1 = (Ret a, SetChainState True c, w2)" "up w2"
    using assms(4) [OF w1(2), of "SetChainState True c"] assms(2) by auto
  then show ?thesis using w1(1) assms(2) assms(3) [of a] by (auto simp: with_connection_def)
qed

lemma do_chain_op_steady:
  assumes "up w" "cc_api c = Some api" "\<forall>bs. length (sum512 bs) = 64"
  shows "\<exists>b c1 w1. do_chain_op G b58dec sum512 op c w = (Ret b, c1, w1) \<and> cc_api c1 = Some api \<and> up w1"
proof (cases op)
  case OpSyncStatus
  obtain w1 where w1: "IsChainClientOk G c w = (True, c, w1)" "up w1" using steady_client [OF assms(1,2)] by blast
  obtain syncing w2 where "rpc_Health G api w1 = (Inr syncing, w2)" "up w2" using healthy [OF w1(2)] by blast
  then have "do_chain_op G b58dec sum512 op c w = (Ret True, c, w2)"
    using OpSyncStatus w1(1) assms(2) by (simp add: GetSyncStatus_def)
  then show ?thesis using assms(2) \<open>up w2\<close> by blast
next
  case (OpMinerInfo pk)
  show ?thesis unfolding OpMinerInfo do_chain_op.simps GetStorageMinerInfo_def
    by (rule connection_steady [where f = answered, OF assms(1,2) answered_Ret]) (rule query_steady)
next
  case OpAllMiners
  show ?thesis unfolding OpAllMiners do_chain_op.simps GetAllStorageMiner_def
    by (rule connection_steady [where f = answered, OF assms(1,2) answered_Ret]) (rule query_steady)
next
  case (OpFileMeta fid)
  show ?thesis unfolding OpFileMeta do_chain_op.simps GetFileMetaInfo_def
    by (rule connection_steady [where f = answered, OF assms(1,2) answered_Ret]) (simp add: query_steady split: sum.split)
next
  case OpSchedulers
  show ?thesis unfolding OpSchedulers do_chain_op.simps GetAllSchedulerInfo_def
    by (rule connection_steady [where f = answered, OF assms(1,2) answered_Ret]) (rule query_steady)
next
  case OpProofs
  show ?thesis unfolding OpProofs do_chain_op.simps GetProofs_def
    by (rule connection_steady [where f = answered, OF assms(1,2) answered_Ret]) (rule query_steady)
next
  case (OpAccount pk)
  show ?thesis unfolding OpAccount do_chain_op.simps GetAccountInfo_def
    by (rule connection_steady [where f = answered, OF assms(1,2) answered_Ret]) (simp add: query_steady split: sum.split)
next
  case (OpRegister stash ip port)
  have octets: "IsIPv4 ip \<Longrightarrow> ipv4_octets ip \<noteq> Panic"
    using IsIPv4_dots [of ip] by (simp add: ipv4_octets_def length_split_char Let_def)
  have account: "NewAccountID pk = Inr pk" if "DecodePublicKeyOfCessAccount b58dec sum512 stash = Inr pk" for pk
    using that decode_iff [of sum512] assms(3) by (auto simp: DecodePublicKeyOfCessAccount_def NewAccountID_def)
  show ?thesis unfolding OpRegister do_chain_op.simps Register_def
    by (rule connection_steady [where f = accepted_tx, OF assms(1,2) accepted_tx_Ret])
      (use octets in \<open>auto simp: tx_steady account split: sum.split outcome.split\<close>)
next
  case (OpUpdate ip port)
  have octets: "IsIPv4 ip \<Longrightarrow> ipv4_octets ip \<noteq> Panic"
    using IsIPv4_dots [of ip] by (simp add: ipv4_octets_def length_split_char Let_def)
  show ?thesis unfolding OpUpdate do_chain_op.simps Update_def
    by (rule connection_steady [where f = accepted_tx, OF assms(1,2) accepted_tx_Ret])
      (use octets in \<open>auto simp: tx_steady split: outcome.split\<close>)
next
  case (OpSubmitFile fid n bs)
  show ?thesis unfolding OpSubmitFile do_chain_op.simps SubmitFileMeta_def
    by (rule connection_steady [where f = accepted_tx, OF assms(1,2) accepted_tx_Ret]) (simp add: tx_steady)
next
  case (OpSubmitFiller acc info)
  show ?thesis unfolding OpSubmitFiller do_chain_op.simps SubmitFillerMeta_def
    by (rule connection_steady [where f = accepted_tx, OF assms(1,2) accepted_tx_Ret]) (simp add: tx_steady)
next
  case (OpSubmitProofs prs)
  show ?thesis unfolding OpSubmitProofs do_chain_op.simps SubmitProofResults_def
    by (rule connection_steady [where f = accepted_tx, OF assms(1,2) accepted_tx_Ret]) (simp add: tx_steady)
qed

lemma do_chain_ops_steady:
  assumes "up w" "cc_api c = Some api" "\<forall>bs. length (sum512 bs) = 64"
  shows "\<exists>rs c1 w1. do_chain_ops G b58dec sum512 ops c w = (rs, c1, w1) \<and> Panic \<notin> set rs \<and> length rs = length ops
    \<and> cc_api c1 = Some api \<and> up w1"
  using assms(1,2)
proof (induction ops arbitrary: c w)
  case (Cons op ops)
  obtain b c1 w1 where "do_chain_op G b58dec sum512 op c w = (Ret b, c1, w1)" "cc_api c1 = Some api" "up w1"
    using do_chain_op_steady [OF Cons.prems assms(3)] by blast
  then show ?case using Cons.IH [of w1 c1] by auto
qed simp

end

section \<open>Properties\<close>

text \<open>
  C20: A failed reconnection is final.  Once the client could not reconnect, no sequence of its operations, by
  whatever tasks and in whatever order, reaches the network again or gives an answer: the world is unchanged, every
  query and transaction fails or panics, and the client stays without an api, although its health check says it is well.
\<close>

theorem failed_reconnection_is_final:
  assumes "IsChainClientOk G c w = (False, c1, w1)"
  shows "\<exists>rs c2. do_chain_ops G b58dec sum512 ops c1 w2 = (rs, c2, w2) \<and> Ret True \<notin> set rs
    \<and> cc_api c2 = None \<and> (\<forall>w3. IsChainClientOk G c2 w3 = (True, c2, w3))"
proof -
  have nil: "cc_api c1 = None" using IsChainClientOk_False [OF assms] by simp
  from do_chain_ops_nil [OF nil, of G b58dec sum512 ops w2] nil show ?thesis by auto
qed

theorem failed_reconnection_is_final_witness:
  "\<exists>rs c2. do_chain_ops sample_node bytes_of_string (\<lambda>_. replicate 64 0) [OpAllMiners, OpProofs, OpSubmitProofs []]
       (sample_client\<lparr>cc_api := None\<rparr>) True = (rs, c2, True) \<and> Ret True \<notin> set rs \<and> cc_api c2 = None"
  using failed_reconnection_is_final [OF sample_client_ok(2), of bytes_of_string "\<lambda>_. replicate 64 0"
      "[OpAllMiners, OpProofs, OpSubmitProofs []]" True] by blast

text \<open>
  C19: The client does not panic while its node stays reachable.  Over a node that answers the health check, no
  sequence of operations with whatever arguments panics or loses the connection: texts that are no
  addresses, accounts that are none, file identifiers of a wrong length and values that do not decode are all errors.
\<close>

theorem reachable_node_never_panics:
  assumes "steady_node G up" "up w" "cc_api c = Some api" "\<forall>bs. length (sum512 bs) = 64"
  shows "\<exists>rs c1 w1. do_chain_ops G b58dec sum512 ops c w = (rs, c1, w1) \<and> Panic \<notin> set rs \<and> length rs = length ops
    \<and> cc_api c1 = Some api \<and> up w1"
  using steady_node.do_chain_ops_steady [OF assms] .

theorem reachable_node_never_panics_witness:
  "\<exists>rs c1. do_chain_ops sample_node bytes_of_string (\<lambda>_. replicate 64 0) [OpAccount [1], OpRegister ''x'' ''1.2'' 5, OpFileMeta ''a''] sample_client True
     = (rs, c1, True) \<and> Panic \<notin> set rs"
proof -
  have up: "(\<lambda>b. b) True" and api: "cc_api sample_client = Some ()" and len: "\<forall>bs :: bytes. length ((\<lambda>_. replicate 64 (0 :: byte)) bs) = 64"
    by (simp_all add: sample_client_def)
  from reachable_node_never_panics [OF sample.steady_node_axioms up api len, of bytes_of_string
      "[OpAccount [1], OpRegister ''x'' ''1.2'' 5, OpFileMeta ''a'']"] show ?thesis by auto
qed

end
