(* ===== verification/FillerFlow.thy ===== *)
theory FillerFlow
  imports FillerProps SpaceProps
begin

text \<open>
  The way of a filler from \<open>task_GenerateFiller\<close> (node/sub_filler.go) over the channel \<open>C_Filler\<close> to
  \<open>task_Space\<close> (node/sub_space.go).  The two tasks share the directory of the fillers, the cache, the
  channel of tags and the channel of fillers; their steps, and what the other tasks do to the cache, the
  key and the tags, interleave.
\<close>

section \<open>The two tasks\<close>

text \<open>Where the producer is: it has no filler, one without tag, or one that is to be put into \<open>C_Filler\<close>.\<close>

datatype making = Idle | Generated string | Ready Filler

record 'c flow =
  fw_disk :: disk
  fw_cache :: 'c
  fw_key :: RSAKeyPair
  fw_tags :: "PoDR2PubData option"
  fw_black :: blacklist
  fw_making :: making
  fw_queue :: "Filler list"
  fw_hand :: "string list"
  fw_waits :: bool

datatype flow_event = Generates string | Fails | Tagged | Dropped string | Leaked string | Queued | Taken
  | Delivered string | Kept | Silenced | Elsewhere

definition tag_part :: "'c flow \<Rightarrow> 'c tag_state" where
  "tag_part s = \<lparr>ts_disk = fw_disk s, ts_cache = fw_cache s, ts_key = fw_key s, ts_ch = fw_tags s\<rparr>"

definition put_tag_part :: "'c tag_state \<Rightarrow> 'c flow \<Rightarrow> 'c flow" where
  "put_tag_part t s = s\<lparr>fw_disk := ts_disk t, fw_cache := ts_cache t, fw_key := ts_key t, fw_tags := ts_ch t\<rparr>"

text \<open>The goroutine of a miner goes on when it has \<open>workLock\<close>.\<close>

definition space_part :: "'c flow \<Rightarrow> 'c space_state" where
  "space_part s = \<lparr>ss_cache = fw_cache s, ss_disk = fw_disk s, ss_black = fw_black s, ss_locked = False\<rparr>"

definition put_space_part :: "'c space_state \<Rightarrow> 'c flow \<Rightarrow> 'c flow" where
  "put_space_part t s = s\<lparr>fw_disk := ss_disk t, fw_cache := ss_cache t, fw_black := ss_black t\<rparr>"

definition filler_element :: "string \<Rightarrow> Filler" where
  "filler_element fillerpath =
     \<lparr>f_Hash = filepath_Base fillerpath, f_FillerPath = fillerpath, f_TagPath = fillerpath @ TagFileExt\<rparr>"

text \<open>
  A panic of the producer, in the generation or in the request of a tag, ends its task, which the manager
  starts again without the filler.  \<open>clock\<close> are readings of the clock in nanoseconds.
\<close>

inductive flow_step ::
    "(bytes \<Rightarrow> bytes) \<Rightarrow> confile \<Rightarrow> 'c Cacher \<Rightarrow> string \<Rightarrow> 'c flow \<Rightarrow> flow_event \<Rightarrow> 'c flow \<Rightarrow> bool"
  for sha256 conf C dir where
  generates: "fw_making s = Idle \<Longrightarrow> length (fw_queue s) < Num_Filler_Reserved \<Longrightarrow>
    free_name dir (fw_disk s) clock = Some fpath \<Longrightarrow> \<forall>t \<in> set clock. t < 2 ^ 63 \<Longrightarrow>
    GenerateFiller sha256 io dir fpath (fw_disk s) = (Ret (Inr fillerpath), d) \<Longrightarrow>
    flow_step sha256 conf C dir s (Generates fillerpath) (s\<lparr>fw_disk := d, fw_making := Generated fillerpath\<rparr>)"
| fails: "fw_making s = Idle \<Longrightarrow> length (fw_queue s) < Num_Filler_Reserved \<Longrightarrow>
    free_name dir (fw_disk s) clock = Some fpath \<Longrightarrow> \<forall>t \<in> set clock. t < 2 ^ 63 \<Longrightarrow>
    GenerateFiller sha256 io dir fpath (fw_disk s) = (r, d) \<Longrightarrow> r = Panic \<or> r = Ret (Inl err) \<Longrightarrow>
    flow_step sha256 conf C dir s Fails (s\<lparr>fw_disk := d\<rparr>)"
| tagged: "fw_making s = Generated fillerpath \<Longrightarrow>
    RequestAndSaveTag conf C io fillerpath (fillerpath @ TagFileExt) (tag_part s) = (Ret None, t) \<Longrightarrow>
    flow_step sha256 conf C dir s Tagged ((put_tag_part t s)\<lparr>fw_making := Ready (filler_element fillerpath)\<rparr>)"
| dropped: "fw_making s = Generated fillerpath \<Longrightarrow>
    RequestAndSaveTag conf C io fillerpath (fillerpath @ TagFileExt) (tag_part s) = (Ret (Some err), t) \<Longrightarrow>
    flow_step sha256 conf C dir s (Dropped fillerpath)
      ((put_tag_part (t\<lparr>ts_disk := remove_file fillerpath (ts_disk t)\<rparr>) s)\<lparr>fw_making := Idle\<rparr>)"
| leaked: "fw_making s = Generated fillerpath \<Longrightarrow>
    RequestAndSaveTag conf C io fillerpath (fillerpath @ TagFileExt) (tag_part s) = (Panic, t) \<Longrightarrow>
    flow_step sha256 conf C dir s (Leaked fillerpath) ((put_tag_part t s)\<lparr>fw_making := Idle\<rparr>)"
| queued: "fw_making s = Ready f \<Longrightarrow> length (fw_queue s) < Num_Filler_Reserved \<Longrightarrow>
    flow_step sha256 conf C dir s Queued (s\<lparr>fw_making := Idle, fw_queue := fw_queue s @ [f]\<rparr>)"
| taken: "\<not> fw_waits s \<Longrightarrow> fw_hand s = [] \<Longrightarrow> fw_queue s = f # q \<Longrightarrow>
    flow_step sha256 conf C dir s Taken (s\<lparr>fw_hand := [f_TagPath f, f_FillerPath f], fw_queue := q\<rparr>)"
| delivered: "\<not> fw_waits s \<Longrightarrow> fw_hand s = [tagpath, fillerpath] \<Longrightarrow>
    storagefiller C dir io pkey (fw_hand s) (space_part s) = Some (Reply True, t) \<Longrightarrow>
    flow_step sha256 conf C dir s (Delivered fillerpath) ((put_space_part t s)\<lparr>fw_hand := []\<rparr>)"
| kept: "\<not> fw_waits s \<Longrightarrow> fw_hand s \<noteq> [] \<Longrightarrow>
    storagefiller C dir io pkey (fw_hand s) (space_part s) = Some (Reply False, t) \<Longrightarrow>
    flow_step sha256 conf C dir s Kept (put_space_part t s)"
| silenced: "\<not> fw_waits s \<Longrightarrow> fw_hand s \<noteq> [] \<Longrightarrow>
    storagefiller C dir io pkey (fw_hand s) (space_part s) = Some (Silent, t) \<Longrightarrow>
    flow_step sha256 conf C dir s Silenced ((put_space_part t s)\<lparr>fw_waits := True\<rparr>)"
| elsewhere: "flow_step sha256 conf C dir s Elsewhere (s\<lparr>fw_cache := c, fw_key := k, fw_tags := ch\<rparr>)"

inductive_cases flow_stepE: "flow_step sha256 conf C dir s e s'"

text \<open>A restart begins with empty channels and an empty directory (\<open>buildDir\<close>).\<close>

definition flow_start :: "disk \<Rightarrow> 'c \<Rightarrow> 'c flow" where
  "flow_start d c = \<lparr>fw_disk = d, fw_cache = c, fw_key = init_key, fw_tags = None, fw_black = Map.empty,
     fw_making = Idle, fw_queue = [], fw_hand = [], fw_waits = False\<rparr>"

section \<open>What the operations leave on the disk\<close>

lemma free_name_free: "free_name dir d clock = Some fpath \<Longrightarrow>
    content d fpath = None \<and> (\<exists>t \<in> set clock. fpath = filepath_Join [dir, show_nat t])"
  by (induction dir d clock rule: free_name.induct) (auto simp: Let_def split: option.splits)

lemma GenerateFiller_effect:
  assumes "GenerateFiller sha256 io dir fpath d = (r, D)" "content d fpath = None"
    and "\<And>bs. filepath_Join [dir, CalcFileSHA256 sha256 bs] \<noteq> fpath"
  shows "(\<exists>bs. r = Ret (Inr (filepath_Join [dir, CalcFileSHA256 sha256 bs])) \<and> length bs = FillerSize
            \<and> content D = (content d)(filepath_Join [dir, CalcFileSHA256 sha256 bs] \<mapsto> bs))
       \<or> (r = Panic \<or> (\<exists>err. r = Ret (Inl err))) \<and> content D = content d"
  using assms
  by (auto simp: GenerateFiller_def generateFiller_def Let_def fun_eq_iff split: option.splits if_splits)

definition has_tag :: "disk \<Rightarrow> string \<Rightarrow> bool" where
  "has_tag d p \<longleftrightarrow> (\<exists>bs tag. content d (p @ TagFileExt) = Some bs \<and> parse_json (string_of_bytes bs) = Some (json_of_tag tag))"

lemma saveTagToFile_effect:
  "saveTagToFile io p tag d = (D, r) \<Longrightarrow>
     (r = None \<longrightarrow> content D = (content d)(p \<mapsto> bytes_of_string (print_json (json_of_tag tag))))
     \<and> (\<forall>q. q \<noteq> p \<longrightarrow> content D q = content d q)"
  by (auto simp: saveTagToFile_def Let_def fun_eq_iff split: option.splits prod.splits)

lemma RequestAndSaveTag_effect:
  assumes "RequestAndSaveTag conf C io fpath (p @ TagFileExt) s = (r, s')"
  shows "(r = Ret None \<longrightarrow> has_tag (ts_disk s') p)
     \<and> (\<forall>q. q \<noteq> p @ TagFileExt \<longrightarrow> content (ts_disk s') q = content (ts_disk s) q)
     \<and> ((\<exists>err. r = Ret (Some err)) \<longrightarrow> ts_disk s' = ts_disk s \<or> content (ts_disk s') (p @ TagFileExt) = None)"
  using assms
  by (auto simp: RequestAndSaveTag_def Let_def has_tag_def parse_saved_tag dest!: saveTagToFile_effect
      split: option.splits outcome.splits sum.splits prod.splits if_splits)

lemma storagefiller_effect:
  assumes "storagefiller C dir io pkey fillers s = Some (r, s')"
  shows "content (ss_disk s') q =
      (if r = Reply True \<and> (q = filepath_Join [dir, take 64 (filler_of fillers)]
          \<or> q = filepath_Join [dir, take 64 (filler_of fillers)] @ TagFileExt) then None else content (ss_disk s) q)"
  using assms
proof (rule storagefiller_cases)
  fix mi
  assume d: "deliver_filler dir io pkey fillers mi s = Some (r, s')"
  show ?thesis
  proof (cases "r = Reply True")
    case True
    with d obtain meta where "combineFillerMeta (filler_of fillers) pkey = Ret meta"
      "s' = s\<lparr>ss_disk := remove_filler dir meta (ss_disk s)\<rparr>" by (metis deliver_filler_true)
    then show ?thesis using True combineFillerMeta_hash by (simp add: remove_filler_def Let_def)
  next
    case False
    then show ?thesis using deliver_filler_other [OF d False] by auto
  qed
qed auto

section \<open>The fillers that are under way\<close>

fun in_making :: "making \<Rightarrow> string list" where
  "in_making Idle = []"
| "in_making (Generated p) = [p]"
| "in_making (Ready f) = [f_FillerPath f]"

fun in_hand :: "string list \<Rightarrow> string list" where
  "in_hand [t, p] = [p]"
| "in_hand _ = []"

definition under_way :: "'c flow \<Rightarrow> string list" where
  "under_way s = in_hand (fw_hand s) @ map f_FillerPath (fw_queue s) @ in_making (fw_making s)"

text \<open>The fillers with a tag: in the channel, in the hands of the space task, or about to be put.\<close>

fun ready_fillers :: "making \<Rightarrow> Filler list" where
  "ready_fillers (Ready f) = [f]"
| "ready_fillers _ = []"

definition tagged_fillers :: "'c flow \<Rightarrow> string list" where
  "tagged_fillers s = in_hand (fw_hand s) @ map f_FillerPath (fw_queue s @ ready_fillers (fw_making s))"

text \<open>A filler on the disk: 8 MiB under the digest of the content.\<close>

definition whole :: "(bytes \<Rightarrow> bytes) \<Rightarrow> string \<Rightarrow> disk \<Rightarrow> string \<Rightarrow> bool" where
  "whole sha256 dir d p \<longleftrightarrow>
     (\<exists>bs. content d p = Some bs \<and> length bs = FillerSize \<and> p = filepath_Join [dir, CalcFileSHA256 sha256 bs])"

definition digest_path :: "(bytes \<Rightarrow> bytes) \<Rightarrow> string \<Rightarrow> string \<Rightarrow> bool" where
  "digest_path sha256 dir p \<longleftrightarrow> (\<exists>bs. p = filepath_Join [dir, CalcFileSHA256 sha256 bs])"

fun generated :: "flow_event list \<Rightarrow> string list" where
  "generated [] = []"
| "generated (Generates p # es) = p # generated es"
| "generated (_ # es) = generated es"

fun leaked_paths :: "flow_event list \<Rightarrow> string list" where
  "leaked_paths [] = []"
| "leaked_paths (Leaked p # es) = p # leaked_paths es"
| "leaked_paths (_ # es) = leaked_paths es"

lemma generated_append: "generated (es @ fs) = generated es @ generated fs"
  by (induction es rule: generated.induct) simp_all

lemma leaked_append: "leaked_paths (es @ fs) = leaked_paths es @ leaked_paths fs"
  by (induction es rule: leaked_paths.induct) simp_all

text \<open>
  The invariant, for the paths \<open>made\<close> generated so far and the paths \<open>lost\<close> that a panic left behind.
  What is on the disk beside the fillers, \<open>d0\<close>, does not change.
\<close>

definition flow_ok ::
    "(bytes \<Rightarrow> bytes) \<Rightarrow> string \<Rightarrow> disk \<Rightarrow> string list \<Rightarrow> string list \<Rightarrow> 'c flow \<Rightarrow> bool" where
  "flow_ok sha256 dir d0 made lost s \<longleftrightarrow>
     length (fw_queue s) \<le> Num_Filler_Reserved \<and> distinct (under_way s)
     \<and> set (under_way s) \<subseteq> set made \<and> set lost \<subseteq> set made \<and> set lost \<inter> set (under_way s) = {}
     \<and> (\<forall>p \<in> set made. digest_path sha256 dir p)
     \<and> (\<forall>p \<in> set (under_way s). whole sha256 dir (fw_disk s) p)
     \<and> (\<forall>p \<in> set (tagged_fillers s). has_tag (fw_disk s) p)
     \<and> (\<forall>p. fw_making s = Generated p \<longrightarrow> content (fw_disk s) (p @ TagFileExt) = None)
     \<and> (\<forall>f \<in> set (fw_queue s @ ready_fillers (fw_making s)). f = filler_element (f_FillerPath f))
     \<and> (fw_hand s = [] \<or> (\<exists>p. fw_hand s = [p @ TagFileExt, p]))
     \<and> (\<forall>p \<in> set made. p \<notin> set (under_way s) \<longrightarrow> p \<notin> set lost \<longrightarrow>
          content (fw_disk s) p = None \<and> content (fw_disk s) (p @ TagFileExt) = None)
     \<and> (\<forall>q. q \<notin> set made \<longrightarrow> (\<forall>p \<in> set made. q \<noteq> p @ TagFileExt) \<longrightarrow> content (fw_disk s) q = content d0 q)"

text \<open>The directory of the fillers, and a digest of 32 bytes, as in a running node.\<close>

definition flow_setting :: "(bytes \<Rightarrow> bytes) \<Rightarrow> string \<Rightarrow> bool" where
  "flow_setting sha256 dir \<longleftrightarrow> clean_dir dir \<and> (\<forall>bs. length (sha256 bs) = 32)"

lemma digest_path_names:
  assumes "flow_setting sha256 dir" "digest_path sha256 dir p"
  shows "length p = length dir + 65"
    and "filepath_Join [dir, take 64 (filler_of [p @ TagFileExt, x])] = p"
    and "\<And>t. t < 2 ^ 63 \<Longrightarrow> p \<noteq> filepath_Join [dir, show_nat t]"
proof -
  obtain bs where p: "p = filepath_Join [dir, CalcFileSHA256 sha256 bs]" using assms(2) by (auto simp: digest_path_def)
  let ?h = "hex_EncodeToString (sha256 bs)"
  have l: "length (sha256 bs) = 32" and c: "clean_dir dir" using assms(1) by (auto simp: flow_setting_def)
  have ph: "p = dir @ CHR ''/'' # ?h"
    using Join_simple [OF c simple_names(2) [OF l]] p by (simp add: CalcFileSHA256_def)
  then show "length p = length dir + 65" using l by simp
  show "p \<noteq> filepath_Join [dir, show_nat t]" if "t < 2 ^ 63" for t
    using filler_names_differ [OF c that l] p by (simp add: CalcFileSHA256_def)
  have plain: "CHR ''/'' \<notin> set (?h @ TagFileExt)" using hex_plain [of "sha256 bs"] by (auto simp: TagFileExt_def)
  have "filepath_Base (dir @ CHR ''/'' # (?h @ TagFileExt)) = ?h @ TagFileExt"
    by (rule filepath_Base_name(2)) (use plain in \<open>auto simp: TagFileExt_def\<close>)
  then have "filler_of [p @ TagFileExt, x] = ?h"
    using TrimSuffix_append [of ?h TagFileExt] by (simp add: filler_of_def ph)
  then show "filepath_Join [dir, take 64 (filler_of [p @ TagFileExt, x])] = p"
    using l p by (simp add: CalcFileSHA256_def)
qed

text \<open>A digest path is never the path of a tag.\<close>

lemma digest_not_tag:
  "flow_setting sha256 dir \<Longrightarrow> digest_path sha256 dir p \<Longrightarrow> digest_path sha256 dir q \<Longrightarrow> p \<noteq> q @ TagFileExt"
  using digest_path_names(1) [of sha256 dir p] digest_path_names(1) [of sha256 dir q] by (auto simp: TagFileExt_def)

text \<open>What a change of the disk leaves of the invariant.\<close>

lemma whole_frame: "content d' p = content d p \<Longrightarrow> whole sha256 dir d' p = whole sha256 dir d p"
  by (simp add: whole_def)

lemma has_tag_frame: "content d' (p @ TagFileExt) = content d (p @ TagFileExt) \<Longrightarrow> has_tag d' p = has_tag d p"
  by (simp add: has_tag_def)

definition empty_dir :: "string \<Rightarrow> disk \<Rightarrow> bool" where
  "empty_dir dir d \<longleftrightarrow> (\<forall>n. content d (dir @ CHR ''/'' # n) = None)"

lemma digest_in_dir:
  assumes "flow_setting sha256 dir" "digest_path sha256 dir p"
  shows "\<exists>n. p = dir @ CHR ''/'' # n"
proof -
  obtain bs where p: "p = filepath_Join [dir, CalcFileSHA256 sha256 bs]" using assms(2) by (auto simp: digest_path_def)
  then show ?thesis
    using Join_simple [of dir "hex_EncodeToString (sha256 bs)"] simple_names(2) [of "sha256 bs"] assms(1)
    by (auto simp: CalcFileSHA256_def flow_setting_def)
qed

lemma flow_start_ok: "flow_ok sha256 dir d [] [] (flow_start d c)"
  by (simp add: flow_ok_def flow_start_def under_way_def tagged_fillers_def)

lemma flow_okD:
  assumes "flow_ok sha256 dir d0 made lost s"
  shows flow_ok_digest: "p \<in> set made \<Longrightarrow> digest_path sha256 dir p"
    and flow_ok_whole: "p \<in> set (under_way s) \<Longrightarrow> whole sha256 dir (fw_disk s) p"
    and flow_ok_tag: "p \<in> set (tagged_fillers s) \<Longrightarrow> has_tag (fw_disk s) p"
    and flow_ok_made: "p \<in> set (under_way s) \<Longrightarrow> p \<in> set made"
    and flow_ok_gone: "p \<in> set made \<Longrightarrow> p \<notin> set (under_way s) \<Longrightarrow> p \<notin> set lost \<Longrightarrow>
      content (fw_disk s) p = None \<and> content (fw_disk s) (p @ TagFileExt) = None"
    and flow_ok_rest: "q \<notin> set made \<Longrightarrow> (\<And>p. p \<in> set made \<Longrightarrow> q \<noteq> p @ TagFileExt) \<Longrightarrow>
      content (fw_disk s) q = content d0 q"
  using assms by (auto simp: flow_ok_def)

lemma generates_ok:
  assumes st: "flow_setting sha256 dir" "empty_dir dir d0" and ok: "flow_ok sha256 dir d0 made lost s"
    and gen: "fw_making s = Idle" "free_name dir (fw_disk s) clock = Some fpath" "\<forall>t \<in> set clock. t < 2 ^ 63"
      "GenerateFiller sha256 io dir fpath (fw_disk s) = (Ret (Inr p), d)"
    and new: "p \<notin> set made"
  shows "flow_ok sha256 dir d0 (made @ [p]) lost (s\<lparr>fw_disk := d, fw_making := Generated p\<rparr>)"
proof -
  obtain t where t: "content (fw_disk s) fpath = None" "t < 2 ^ 63" "fpath = filepath_Join [dir, show_nat t]"
    using free_name_free [OF gen(2)] gen(3) by blast
  have "filepath_Join [dir, CalcFileSHA256 sha256 bs] \<noteq> fpath" for bs
    using digest_path_names(3) [OF st(1) _ t(2)] t(3) by (auto simp: digest_path_def)
  from GenerateFiller_effect [OF gen(4) t(1) this]
  obtain bs where p: "p = filepath_Join [dir, CalcFileSHA256 sha256 bs]" "length bs = FillerSize"
    "content d = (content (fw_disk s))(p \<mapsto> bs)" by auto
  have dp: "digest_path sha256 dir p" using p(1) by (auto simp: digest_path_def)
  have made: "digest_path sha256 dir q" if "q \<in> set made" for q using ok that by (simp add: flow_ok_def)
  have tag: "q @ TagFileExt \<noteq> p" if "q \<in> set made" for q
    using digest_not_tag [OF st(1) dp made [OF that]] by auto
  obtain n where n: "p = dir @ CHR ''/'' # n" using digest_in_dir [OF st(1) dp] by blast
  have "p @ TagFileExt \<noteq> q" if "q \<in> set made" for q
    using digest_not_tag [OF st(1) made [OF that] dp] by auto
  moreover have "p @ TagFileExt \<noteq> q @ TagFileExt" if "q \<in> set made" for q using new that by auto
  ultimately have "content (fw_disk s) (p @ TagFileExt) = content d0 (p @ TagFileExt)"
    by (intro flow_ok_rest [OF ok]) auto
  then have ptag: "content d (p @ TagFileExt) = None"
    using st(2) p(3) digest_not_tag [OF st(1) dp dp] n by (simp add: empty_dir_def)
  have sub: "set (under_way s) \<subseteq> set made" "set (tagged_fillers s) \<subseteq> set (under_way s)"
    using ok gen(1) by (auto simp: flow_ok_def under_way_def tagged_fillers_def)
  have uw: "under_way (s\<lparr>fw_disk := d, fw_making := Generated p\<rparr>) = under_way s @ [p]"
    "tagged_fillers (s\<lparr>fw_disk := d, fw_making := Generated p\<rparr>) = tagged_fillers s"
    using gen(1) by (simp_all add: under_way_def tagged_fillers_def)
  have same: "content d q = content (fw_disk s) q" if "q \<noteq> p" for q using p(3) that by simp
  have wh: "whole sha256 dir d q" if "q \<in> set (under_way s @ [p])" for q
  proof (cases "q = p")
    case True
    then show ?thesis using p by (auto simp: whole_def)
  next
    case False
    then show ?thesis using that ok whole_frame [OF same] by (auto simp: flow_ok_def)
  qed
  have ht: "has_tag d q" if "q \<in> set (tagged_fillers s)" for q
    using that ok sub tag has_tag_frame [OF same] by (auto simp: flow_ok_def)
  show ?thesis
    unfolding flow_ok_def uw using ok new sub dp tag same ptag wh ht gen(1)
    by (auto simp: flow_ok_def)
qed

text \<open>The invariant looks at the contents of the files, the producer, the channel and the hand only.\<close>

lemma flow_ok_same:
  assumes "flow_ok sha256 dir d0 made lost s" "content (fw_disk s') = content (fw_disk s)"
    and "fw_making s' = fw_making s" "fw_queue s' = fw_queue s" "fw_hand s' = fw_hand s"
  shows "flow_ok sha256 dir d0 made lost s'"
proof -
  have "whole sha256 dir (fw_disk s') p = whole sha256 dir (fw_disk s) p"
    "has_tag (fw_disk s') p = has_tag (fw_disk s) p" for p
    using assms(2) by (simp_all add: whole_def has_tag_def)
  then show ?thesis
    using assms by (simp add: flow_ok_def under_way_def tagged_fillers_def)
qed

lemma tag_saved_ok:
  assumes st: "flow_setting sha256 dir" and ok: "flow_ok sha256 dir d0 made lost s"
    and gen: "fw_making s = Generated p" and tag: "has_tag d p"
    and frame: "\<And>q. q \<noteq> p @ TagFileExt \<Longrightarrow> content d q = content (fw_disk s) q"
  shows "flow_ok sha256 dir d0 made lost (s\<lparr>fw_disk := d, fw_making := Ready (filler_element p)\<rparr>)"
proof -
  let ?s = "s\<lparr>fw_disk := d, fw_making := Ready (filler_element p)\<rparr>"
  have uw: "under_way ?s = under_way s" "set (tagged_fillers ?s) = insert p (set (tagged_fillers s))"
    using gen by (auto simp: under_way_def tagged_fillers_def filler_element_def)
  have p: "p \<in> set (under_way s)" using gen by (simp add: under_way_def)
  have dp: "digest_path sha256 dir q" if "q \<in> set made" for q by (rule flow_ok_digest [OF ok that])
  have ne: "q \<noteq> p @ TagFileExt" if "q \<in> set made" for q
    by (rule digest_not_tag [OF st dp [OF that] dp [OF flow_ok_made [OF ok p]]])
  have wh: "whole sha256 dir d q" if "q \<in> set (under_way s)" for q
    using flow_ok_whole [OF ok that] whole_frame [OF frame [OF ne [OF flow_ok_made [OF ok that]]]] by simp
  have ht: "has_tag d q" if "q \<in> insert p (set (tagged_fillers s))" for q
  proof (cases "q = p")
    case False
    then show ?thesis using that flow_ok_tag [OF ok, of q] has_tag_frame [OF frame, of q] by simp
  qed (use tag in simp)
  have gone: "content d q = None \<and> content d (q @ TagFileExt) = None"
    if q: "q \<in> set made" "q \<notin> set (under_way s)" "q \<notin> set lost" for q
  proof -
    have "q \<noteq> p" using p q(2) by auto
    then show ?thesis using flow_ok_gone [OF ok q] frame [OF ne [OF q(1)]] frame [of "q @ TagFileExt"] by simp
  qed
  have rest: "content d q = content d0 q" if q: "q \<notin> set made" "\<And>p. p \<in> set made \<Longrightarrow> q \<noteq> p @ TagFileExt" for q
    using frame [OF q(2) [OF flow_ok_made [OF ok p]]] flow_ok_rest [OF ok q] by simp
  have el: "filler_element p = filler_element (f_FillerPath (filler_element p))" by (simp add: filler_element_def)
  show ?thesis
    unfolding flow_ok_def uw using ok wh ht gone rest el gen by (simp add: flow_ok_def)
qed

lemma producer_gives_up_ok:
  assumes st: "flow_setting sha256 dir" and ok: "flow_ok sha256 dir d0 made lost s"
    and gen: "fw_making s = Generated p"
    and frame: "\<And>q. q \<noteq> p @ TagFileExt \<Longrightarrow> q \<noteq> p \<Longrightarrow> content d q = content (fw_disk s) q"
    and gone: "lost' = lost \<and> content d p = None \<and> content d (p @ TagFileExt) = None \<or> lost' = lost @ [p]"
  shows "flow_ok sha256 dir d0 made lost' (s\<lparr>fw_disk := d, fw_making := Idle\<rparr>)"
proof -
  let ?s = "s\<lparr>fw_disk := d, fw_making := Idle\<rparr>"
  have uw: "under_way s = under_way ?s @ [p]" "tagged_fillers ?s = tagged_fillers s"
    using gen by (simp_all add: under_way_def tagged_fillers_def)
  have d: "distinct (under_way s)" using ok by (simp add: flow_ok_def)
  then have other: "q \<noteq> p" if "q \<in> set (under_way ?s)" for q using uw(1) that by auto
  have sub: "set (tagged_fillers s) \<subseteq> set (under_way ?s)"
    using gen by (auto simp: under_way_def tagged_fillers_def)
  have p: "p \<in> set made" by (rule flow_ok_made [OF ok]) (simp add: uw(1))
  have ne: "q \<noteq> p @ TagFileExt" if "q \<in> set made" for q
    by (rule digest_not_tag [OF st flow_ok_digest [OF ok that] flow_ok_digest [OF ok p]])
  have tne: "q @ TagFileExt \<noteq> p" if "q \<in> set made" for q
    using digest_not_tag [OF st flow_ok_digest [OF ok p] flow_ok_digest [OF ok that]] by auto
  have made: "q \<in> set made" if "q \<in> set (under_way ?s)" for q
    by (rule flow_ok_made [OF ok]) (use that uw(1) in simp)
  have wh: "whole sha256 dir d q" if "q \<in> set (under_way ?s)" for q
    using flow_ok_whole [OF ok, of q] whole_frame [OF frame [OF ne [OF made [OF that]] other [OF that]]] that uw(1) by simp
  have ht: "has_tag d q" if "q \<in> set (tagged_fillers s)" for q
  proof -
    have "q \<in> set (under_way ?s)" using sub that by blast
    then show ?thesis
      using has_tag_frame [OF frame, of q] other tne [OF made] flow_ok_tag [OF ok that] by simp
  qed
  have away: "content d q = None \<and> content d (q @ TagFileExt) = None"
    if q: "q \<in> set made" "q \<notin> set (under_way ?s)" "q \<notin> set lost'" for q
  proof (cases "q = p")
    case True
    then show ?thesis using gone q(3) by auto
  next
    case False
    have "content (fw_disk s) q = None \<and> content (fw_disk s) (q @ TagFileExt) = None"
      by (rule flow_ok_gone [OF ok q(1)]) (use q(2,3) uw(1) False gone in auto)
    then show ?thesis
      using frame [OF ne [OF q(1)] False] frame [of "q @ TagFileExt"] False tne [OF q(1)] by simp
  qed
  have rest: "content d q = content d0 q" if q: "q \<notin> set made" "\<And>p. p \<in> set made \<Longrightarrow> q \<noteq> p @ TagFileExt" for q
    using frame [OF q(2) [OF p]] flow_ok_rest [OF ok q] q(1) p by auto
  have "set lost' \<subseteq> set made" "set lost' \<inter> set (under_way ?s) = {}"
    using ok gone p uw(1) other by (auto simp: flow_ok_def)
  moreover have "distinct (under_way ?s)" "set (under_way ?s) \<subseteq> set made" using d uw(1) made by auto
  ultimately show ?thesis
    unfolding flow_ok_def uw(2) using ok wh ht away rest gen by (simp add: flow_ok_def)
qed

lemma queued_ok:
  assumes ok: "flow_ok sha256 dir d0 made lost s" and f: "fw_making s = Ready f"
    and room: "length (fw_queue s) < Num_Filler_Reserved"
  shows "flow_ok sha256 dir d0 made lost (s\<lparr>fw_making := Idle, fw_queue := fw_queue s @ [f]\<rparr>)"
  using ok f room by (simp add: flow_ok_def under_way_def tagged_fillers_def)

lemma taken_ok:
  assumes ok: "flow_ok sha256 dir d0 made lost s" and f: "fw_hand s = []" "fw_queue s = f # q"
  shows "flow_ok sha256 dir d0 made lost (s\<lparr>fw_hand := [f_TagPath f, f_FillerPath f], fw_queue := q\<rparr>)"
proof -
  have "f = filler_element (f_FillerPath f)" using ok f(2) by (simp add: flow_ok_def)
  then have "f_TagPath f = f_FillerPath f @ TagFileExt" by (metis Filler.select_convs(3) filler_element_def)
  then show ?thesis using ok f by (simp add: flow_ok_def under_way_def tagged_fillers_def)
qed

lemma delivered_ok:
  assumes st: "flow_setting sha256 dir" and ok: "flow_ok sha256 dir d0 made lost s"
    and hand: "fw_hand s = [tagpath, p]"
    and disk: "\<And>q. content d q = (if q = p \<or> q = p @ TagFileExt then None else content (fw_disk s) q)"
  shows "flow_ok sha256 dir d0 made lost (s\<lparr>fw_disk := d, fw_hand := []\<rparr>)"
proof -
  let ?s = "s\<lparr>fw_disk := d, fw_hand := []\<rparr>"
  have uw: "under_way s = p # under_way ?s" "tagged_fillers s = p # tagged_fillers ?s"
    using hand by (simp_all add: under_way_def tagged_fillers_def)
  have d: "distinct (under_way s)" using ok by (simp add: flow_ok_def)
  then have other: "q \<noteq> p" if "q \<in> set (under_way ?s)" for q using uw(1) that by auto
  have sub: "set (tagged_fillers ?s) \<subseteq> set (under_way ?s)"
    by (cases "fw_making s") (auto simp: under_way_def tagged_fillers_def)
  have made: "q \<in> set made" if "q \<in> set (under_way s)" for q by (rule flow_ok_made [OF ok that])
  have p: "p \<in> set made" by (rule made) (simp add: uw(1))
  have ne: "q \<noteq> r @ TagFileExt" if "q \<in> set made" "r \<in> set made" for q r
    by (rule digest_not_tag [OF st flow_ok_digest [OF ok that(1)] flow_ok_digest [OF ok that(2)]])
  have keep: "content d q = content (fw_disk s) q \<and> content d (q @ TagFileExt) = content (fw_disk s) (q @ TagFileExt)"
    if "q \<in> set (under_way ?s)" for q
    using disk other [OF that] ne [OF made p, of q] ne [OF p made, of q] that uw(1) by auto
  have wh: "whole sha256 dir d q" if "q \<in> set (under_way ?s)" for q
    using flow_ok_whole [OF ok, of q] whole_frame [of d q "fw_disk s"] keep [OF that] that uw(1) by simp
  have ht: "has_tag d q" if "q \<in> set (tagged_fillers ?s)" for q
    using flow_ok_tag [OF ok, of q] has_tag_frame [of d q "fw_disk s"] keep sub that uw(2) by auto
  have away: "content d q = None \<and> content d (q @ TagFileExt) = None"
    if q: "q \<in> set made" "q \<notin> set (under_way ?s)" "q \<notin> set lost" for q
  proof (cases "q = p")
    case False
    then show ?thesis using flow_ok_gone [OF ok q(1) _ q(3)] q(2) uw(1) disk by auto
  qed (simp add: disk)
  have rest: "content d q = content d0 q" if q: "q \<notin> set made" "\<And>p. p \<in> set made \<Longrightarrow> q \<noteq> p @ TagFileExt" for q
    using disk [of q] q p flow_ok_rest [OF ok q] by auto
  have gen: "content d (q @ TagFileExt) = None" if "fw_making s = Generated q" for q
  proof -
    have "q \<in> set (under_way ?s)" using that by (simp add: under_way_def)
    then show ?thesis using keep ok that by (simp add: flow_ok_def)
  qed
  have "distinct (under_way ?s)" "set (under_way ?s) \<subseteq> set made" "set lost \<inter> set (under_way ?s) = {}"
    using ok d uw(1) made by (auto simp: flow_ok_def)
  then show ?thesis
    unfolding flow_ok_def using ok wh ht away rest gen by (simp add: flow_ok_def)
qed

text \<open>Every step keeps the invariant, if no filler is generated twice.\<close>

lemma flow_step_ok:
  assumes step: "flow_step sha256 conf C dir s e s'"
    and st: "flow_setting sha256 dir" "empty_dir dir d0" and ok: "flow_ok sha256 dir d0 made lost s"
    and new: "\<forall>p \<in> set (generated [e]). p \<notin> set made"
  shows "flow_ok sha256 dir d0 (made @ generated [e]) (lost @ leaked_paths [e]) s'"
  using step
proof cases
  case (generates clock fpath io p d)
  then show ?thesis using generates_ok [OF st ok generates(3,5-7)] new by simp
next
  case (fails clock fpath io r d err)
  obtain t where t: "content (fw_disk s) fpath = None" "t < 2 ^ 63" "fpath = filepath_Join [dir, show_nat t]"
    using free_name_free [OF fails(5)] fails(6) by blast
  have "filepath_Join [dir, CalcFileSHA256 sha256 bs] \<noteq> fpath" for bs
    using digest_path_names(3) [OF st(1) _ t(2)] t(3) by (auto simp: digest_path_def)
  from GenerateFiller_effect [OF fails(7) t(1) this] fails(8) have "content d = content (fw_disk s)" by auto
  then have "flow_ok sha256 dir d0 made lost (s\<lparr>fw_disk := d\<rparr>)" by (intro flow_ok_same [OF ok]) simp_all
  then show ?thesis using fails by simp
next
  case (tagged p io t)
  note eff = RequestAndSaveTag_effect [OF tagged(4)]
  have "flow_ok sha256 dir d0 made lost (s\<lparr>fw_disk := ts_disk t, fw_making := Ready (filler_element p)\<rparr>)"
    by (rule tag_saved_ok [OF st(1) ok tagged(3)]) (use eff in \<open>auto simp: tag_part_def\<close>)
  then have "flow_ok sha256 dir d0 made lost s'"
    by (rule flow_ok_same) (simp_all add: tagged(2) put_tag_part_def)
  then show ?thesis using tagged(1) by simp
next
  case (dropped p io err t)
  note eff = RequestAndSaveTag_effect [OF dropped(4)]
  have none: "content (fw_disk s) (p @ TagFileExt) = None" using ok dropped(3) by (simp add: flow_ok_def)
  have "flow_ok sha256 dir d0 made lost (s\<lparr>fw_disk := remove_file p (ts_disk t), fw_making := Idle\<rparr>)"
    by (rule producer_gives_up_ok [OF st(1) ok dropped(3)]) (use eff none in \<open>auto simp: tag_part_def\<close>)
  then have "flow_ok sha256 dir d0 made lost s'"
    by (rule flow_ok_same) (simp_all add: dropped(2) put_tag_part_def)
  then show ?thesis using dropped(1) by simp
next
  case (leaked p io t)
  note eff = RequestAndSaveTag_effect [OF leaked(4)]
  have "flow_ok sha256 dir d0 made (lost @ [p]) (s\<lparr>fw_disk := ts_disk t, fw_making := Idle\<rparr>)"
    by (rule producer_gives_up_ok [OF st(1) ok leaked(3)]) (use eff in \<open>auto simp: tag_part_def\<close>)
  then have "flow_ok sha256 dir d0 made (lost @ [p]) s'"
    by (rule flow_ok_same) (simp_all add: leaked(2) put_tag_part_def)
  then show ?thesis using leaked(1) by simp
next
  case (queued f)
  then show ?thesis using queued_ok [OF ok queued(3,4)] by simp
next
  case (taken f q)
  then show ?thesis using taken_ok [OF ok taken(4,5)] by simp
next
  case (delivered tagpath p io pkey t)
  have p: "p \<in> set (under_way s)" using delivered(4) by (simp add: under_way_def)
  have "fw_hand s = [p @ TagFileExt, p]" using ok delivered(4) by (auto simp: flow_ok_def)
  then have "filepath_Join [dir, take 64 (filler_of (fw_hand s))] = p"
    using digest_path_names(2) [OF st(1) flow_ok_digest [OF ok flow_ok_made [OF ok p]]] by simp
  then have "content (ss_disk t) q = (if q = p \<or> q = p @ TagFileExt then None else content (fw_disk s) q)" for q
    using storagefiller_effect [OF delivered(5), of q] by (simp add: space_part_def)
  from delivered_ok [OF st(1) ok delivered(4) this]
  have "flow_ok sha256 dir d0 made lost s'"
    by (rule flow_ok_same) (simp_all add: delivered(2) put_space_part_def)
  then show ?thesis using delivered(1) by simp
next
  case (kept io pkey t)
  have "content (ss_disk t) = content (fw_disk s)"
    using storagefiller_effect [OF kept(5)] by (simp add: space_part_def fun_eq_iff)
  then have "flow_ok sha256 dir d0 made lost s'"
    by (intro flow_ok_same [OF ok]) (simp_all add: kept(2) put_space_part_def)
  then show ?thesis using kept(1) by simp
next
  case (silenced io pkey t)
  have "content (ss_disk t) = content (fw_disk s)"
    using storagefiller_effect [OF silenced(5)] by (simp add: space_part_def fun_eq_iff)
  then have "flow_ok sha256 dir d0 made lost s'"
    by (intro flow_ok_same [OF ok]) (simp_all add: silenced(2) put_space_part_def)
  then show ?thesis using silenced(1) by simp
next
  case (elsewhere c k ch)
  have "flow_ok sha256 dir d0 made lost s'" by (rule flow_ok_same [OF ok]) (simp_all add: elsewhere(2))
  then show ?thesis using elsewhere(1) by simp
qed

lemma flow_runs_ok:
  assumes "runs (flow_step sha256 conf C dir) s es s'"
    and st: "flow_setting sha256 dir" "empty_dir dir d0"
    and "flow_ok sha256 dir d0 made lost s" "distinct (made @ generated es)"
  shows "flow_ok sha256 dir d0 (made @ generated es) (lost @ leaked_paths es) s'"
  using assms(1,4,5)
proof (induction arbitrary: made lost rule: runs.induct)
  case (runs_none s)
  then show ?case by simp
next
  case (runs_more s e s1 es s2)
  have split: "generated (e # es) = generated [e] @ generated es" "leaked_paths (e # es) = leaked_paths [e] @ leaked_paths es"
    using generated_append [of "[e]" es] leaked_append [of "[e]" es] by simp_all
  have "flow_ok sha256 dir d0 (made @ generated [e]) (lost @ leaked_paths [e]) s1"
    by (rule flow_step_ok [OF runs_more.hyps(1) st runs_more.prems(1)]) (use runs_more.prems(2) split in auto)
  from runs_more.IH [OF this] show ?case using runs_more.prems(2) split by simp
qed

section \<open>Properties\<close>


definition demo_hash :: "bytes \<Rightarrow> bytes" where "demo_hash = (\<lambda>_. replicate 32 0)"

lemma demo_setting: "flow_setting demo_hash ''/filler''" "empty_dir ''/filler'' []"
proof -
  have "clean_dir ''/filler''"
    unfolding clean_dir_def by (rule exI [of _ "[''filler'']"]) (simp add: simple_name_def)
  then show "flow_setting demo_hash ''/filler''" by (simp add: flow_setting_def demo_hash_def)
qed (simp add: empty_dir_def content_def)

lemma demo_generates:
  "\<exists>d. flow_step demo_hash conf C ''/filler'' (flow_start [] c) (Generates (filler_path demo_hash ''/filler'' calm_filler))
     ((flow_start [] c)\<lparr>fw_disk := d, fw_making := Generated (filler_path demo_hash ''/filler'' calm_filler)\<rparr>)"
proof -
  let ?f = "filepath_Join [''/filler'', show_nat 5]"
  have clean: "clean_dir ''/filler''" using demo_setting(1) by (simp add: flow_setting_def)
  have rows: "FillerSize div FillerLineLength = 2048" by (simp add: size_defs)
  have full: "length (filler_rows calm_filler 2048) = FillerSize"
    using filler_rows_full [of calm_filler] by (simp add: calm_filler_def)
  have differ: "?f \<noteq> filler_path demo_hash ''/filler'' calm_filler"
    using filler_names_differ [OF clean, of 5 "demo_hash (filler_rows calm_filler 2048)"]
    by (simp add: filler_path_def CalcFileSHA256_def demo_hash_def)
  obtain d where d: "GenerateFiller demo_hash calm_filler ''/filler'' ?f []
      = (Ret (Inr (filler_path demo_hash ''/filler'' calm_filler)), d)"
    using full differ by (simp add: GenerateFiller_def generateFiller_def rows calm_filler_def Let_def filler_path_def)
  have free: "free_name ''/filler'' [] [5] = Some ?f" by (simp add: content_def)
  have "flow_step demo_hash conf C ''/filler'' (flow_start [] c) (Generates (filler_path demo_hash ''/filler'' calm_filler))
     ((flow_start [] c)\<lparr>fw_disk := d, fw_making := Generated (filler_path demo_hash ''/filler'' calm_filler)\<rparr>)"
    by (rule flow_step.generates [where clock = "[5]" and io = calm_filler])
       (use d free in \<open>simp_all add: flow_start_def Num_Filler_Reserved_def del: free_name.simps\<close>)
  then show ?thesis by blast
qed


text \<open>
  A tag whose exponent is no number is saved before the panic that ends the task, which gives up the
  filler without removing it: 8 MiB stay on the disk, which no other step takes away.
\<close>
theorem bad_exponent_leaks_filler:
  assumes "fw_making s = Generated p" "enclave_takes conf io p" "save_succeeds (ti_save io)"
    and "tag_of_post post = Ret (Inr tag)" "fw_tags s = Some post" "SetString10 (pd_E post) = None"
    and "content (fw_disk s) p = Some bs"
  shows "\<exists>s'. flow_step sha256 conf C dir s (Leaked p) s' \<and> fw_making s' = Idle \<and> content (fw_disk s') p = Some bs"
proof -
  obtain t where t: "RequestAndSaveTag conf C io p (p @ TagFileExt) (tag_part s) = (Panic, t)"
    using RequestAndSaveTag_saves [OF assms(2-4), of "tag_part s" C "p @ TagFileExt"] assms(5,6)
    by (simp add: tag_part_def)
  have "content (ts_disk t) p = Some bs"
    using RequestAndSaveTag_effect [OF t] assms(7) by (simp add: tag_part_def TagFileExt_def)
  then show ?thesis
    using flow_step.leaked [OF assms(1) t, of sha256 dir]
    by (intro exI [of _ "(put_tag_part t s)\<lparr>fw_making := Idle\<rparr>"]) (simp add: put_tag_part_def)
qed

theorem bad_exponent_leaks_filler_witness:
  "\<exists>s'. flow_step demo_hash demo_conf mem_cache ''/filler''
       ((flow_start [(''/filler/a'', [1])] (mem_db []))\<lparr>fw_making := Generated ''/filler/a'', fw_tags := Some (demo_post\<lparr>pd_E := []\<rparr>)\<rparr>)
       (Leaked ''/filler/a'') s' \<and> content (fw_disk s') ''/filler/a'' = Some [1]"
proof -
  let ?s = "(flow_start [(''/filler/a'', [1])] (mem_db []))\<lparr>fw_making := Generated ''/filler/a'', fw_tags := Some (demo_post\<lparr>pd_E := []\<rparr>)\<rparr>"
  have "encodes (demo_post\<lparr>pd_E := []\<rparr>) (demo_tag\<lparr>st_E := []\<rparr>) [300]"
    using demo_encodes by (simp add: encodes_def)
  then have "tag_of_post (demo_post\<lparr>pd_E := []\<rparr>) = Ret (Inr (demo_tag\<lparr>st_E := []\<rparr>))" by (rule tag_of_post_encodes)
  from bad_exponent_leaks_filler [of ?s "''/filler/a''" demo_conf "demo_io None" _ _ "[1]" demo_hash mem_cache "''/filler''",
    OF _ demo_taken(1,3) this]
  show ?thesis by (auto simp: flow_start_def content_def SetString10_def)
qed

end
