(* ===== verification/Decoders.thy ===== *)
theory Decoders
  imports TcpProps FillerGen
begin

text \<open>
  What the decoders of the program can yield, whatever the peer sends: the JSON decoders of messages
  (node/transfer.go) and of posted tags (node/route.go) give values of the types of their fields, and
  no more bytes than they were given.
\<close>

section \<open>The size of a parsed value\<close>

fun weight :: "json \<Rightarrow> nat" where
  "weight (JStr s) = 1 + length s"
| "weight (JArr xs) = 1 + sum_list (map (\<lambda>x. weight x + 1) xs)"
| "weight (JObj ms) = 1 + sum_list (map (\<lambda>m. weight (snd m)) ms)"
| "weight v = 1"

lemma weight_pos: "1 \<le> weight v"
  by (cases v) simp_all

lemma length_elements: "2 * length xs \<le> sum_list (map (\<lambda>x. weight x + 1) xs)"
  by (induction xs) (simp_all add: add_mono [OF weight_pos, simplified])

lemma length_skip_ws: "length (skip_ws s) \<le> length s"
  by (simp add: skip_ws_def length_dropWhile_le)

lemma skip_ws_Cons: "skip_ws s = c # r \<Longrightarrow> length r < length s"
  using length_skip_ws [of s] by simp

lemma length_utf8: "length (utf8 n) \<le> 3"
  by (simp add: utf8_def)

lemma parse_hex4_length: "parse_hex4 s = Some n \<Longrightarrow> 4 \<le> length s"
  by (auto simp: parse_hex4_def split: list.splits)

lemma parse_str_length: "parse_str s = Some (t, r) \<Longrightarrow> length t + length r < length s"
proof (induction s arbitrary: t r rule: parse_str.induct)
  case (1 s)
  obtain c u where s: "s = c # u" using "1.prems" by (cases s) (simp_all add: parse_str.simps [of "[]"])
  have P: "parse_str (c # u) = Some (t, r)" using "1.prems" by (simp only: s)
  note P = P [unfolded parse_str.simps [of "c # u"] list.case]
  consider "c = CHR 0x22" | "c = CHR 0x5C" | "c \<noteq> CHR 0x22" "c \<noteq> CHR 0x5C" by blast
  then show ?case
  proof cases
    case 1
    then show ?thesis using P s by auto
  next
    case 2
    then obtain e r1 where u: "u = e # r1" using P by (cases u) simp_all
    show ?thesis
    proof (cases "e = CHR ''u''")
      case True
      then obtain n t' where n: "parse_hex4 r1 = Some n" and p: "parse_str (drop 4 r1) = Some (t', r)" "t = utf8 n @ t'"
        using P 2 by (auto simp: u split: option.splits)
      have "length t' + length r < length (drop 4 r1)" by (rule "1.IH" (1) [OF s _ _ u True n p(1)]) (use 2 in simp_all)
      then show ?thesis using p(2) parse_hex4_length [OF n] length_utf8 [of n] by (simp add: s u)
    next
      case False
      then obtain x t' where x: "unescape e = Some x" and p: "parse_str r1 = Some (t', r)" "t = x # t'"
        using P 2 by (auto simp: u split: option.splits)
      have "length t' + length r < length r1" by (rule "1.IH" (2) [OF s _ _ u False x p(1)]) (use 2 in simp_all)
      then show ?thesis using p(2) by (simp add: s u)
    qed
  next
    case 3
    then obtain t' where p: "parse_str u = Some (t', r)" "t = c # t'" and c: "\<not> (of_char c :: nat) < 32"
      using P 3 by (auto split: if_splits)
    have "length t' + length r < length u" by (rule "1.IH" (3) [OF s 3 c p(1)])
    then show ?thesis using p(2) by (simp add: s)
  qed
qed

text \<open>A value is at least as long as its weight; so are the elements and members of a list.\<close>

lemma parse_weight:
  "parse_value n s = Some (v, r) \<Longrightarrow> weight v + length r \<le> length s"
  "parse_elems n s = Some (vs, r) \<Longrightarrow> sum_list (map (\<lambda>x. weight x + 1) vs) + length r \<le> length s"
  "parse_members n s = Some (ms, r) \<Longrightarrow> sum_list (map (\<lambda>m. weight (snd m)) ms) + length r < length s"
proof (induction n s and n s and n s arbitrary: v r and vs r and ms r rule: parse_value_parse_elems_parse_members.induct)
  case (2 n s)
  obtain c u where s: "skip_ws s = c # u" using "2.prems" by (cases "skip_ws s") simp_all
  have lt: "length u < length s" by (rule skip_ws_Cons [OF s])
  note P = "2.prems" [unfolded parse_value.simps s list.case]
  consider (str) "c = CHR 0x22" | (obj) "c = CHR ''{''" | (arr) "c = CHR ''[''"
    | (other) "c \<noteq> CHR 0x22" "c \<noteq> CHR ''{''" "c \<noteq> CHR ''[''" by blast
  then show ?case
  proof cases
    case str
    then obtain t where "parse_str u = Some (t, r)" "v = JStr t" using P by auto
    then show ?thesis using parse_str_length [of u t r] lt by simp
  next
    case obj
    then obtain d r' where d: "skip_ws u = d # r'" using P by (cases "skip_ws u") simp_all
    have r': "length r' < length u" by (rule skip_ws_Cons [OF d])
    show ?thesis
    proof (cases "d = CHR ''}''")
      case True
      then show ?thesis using P obj d r' lt by auto
    next
      case False
      then obtain ms where ms: "parse_members n (d # r') = Some (ms, r)" "v = JObj ms" using P obj d by auto
      have "sum_list (map (\<lambda>m. weight (snd m)) ms) + length r < length (d # r')"
        by (rule "2.IH"(1) [OF s _ _ d False ms(1)]) (use obj in simp_all)
      then show ?thesis using ms(2) r' lt by simp
    qed
  next
    case arr
    then obtain d r' where d: "skip_ws u = d # r'" using P by (cases "skip_ws u") simp_all
    have r': "length r' < length u" by (rule skip_ws_Cons [OF d])
    show ?thesis
    proof (cases "d = CHR '']''")
      case True
      then show ?thesis using P arr d r' lt by auto
    next
      case False
      then obtain xs where xs: "parse_elems n (d # r') = Some (xs, r)" "v = JArr xs" using P arr d by auto
      have "sum_list (map (\<lambda>x. weight x + 1) xs) + length r \<le> length (d # r')"
        by (rule "2.IH"(2) [OF s _ _ _ d False xs(1)]) (use arr in simp_all)
      then show ?thesis using xs(2) r' lt by simp
    qed
  next
    case other
    then have "weight v = 1 \<and> length r \<le> length u"
      using P by (auto simp: Let_def valid_number_def split: if_splits)
    then show ?thesis using lt by simp
  qed
next
  case (4 n s)
  obtain v r1 where v: "parse_value n s = Some (v, r1)" using "4.prems" by (cases "parse_value n s") auto
  obtain e r' where e: "skip_ws r1 = e # r'" using "4.prems" v by (cases "skip_ws r1") simp_all
  have lt: "length r' < length r1" by (rule skip_ws_Cons [OF e])
  have w: "weight v + length r1 \<le> length s" by (rule "4.IH"(1) [OF v])
  show ?case
  proof (cases "e = CHR '']''")
    case True
    then show ?thesis using "4.prems" v e w lt by auto
  next
    case False
    then obtain vs' where vs': "parse_elems n r' = Some (vs', r)" "vs = v # vs'" "e = CHR '',''"
      using "4.prems" v e by (auto split: if_splits)
    have "sum_list (map (\<lambda>x. weight x + 1) vs') + length r \<le> length r'"
      by (rule "4.IH"(2) [OF v refl e False vs'(3) vs'(1)])
    then show ?thesis using vs'(2) w lt by simp
  qed
next
  case (6 n s)
  obtain u where s: "skip_ws s = CHR 0x22 # u" using "6.prems" by (auto split: list.splits if_splits)
  obtain k r1 where k: "parse_str u = Some (k, r1)" using "6.prems" s by (cases "parse_str u") auto
  obtain r2 where r2: "skip_ws r1 = CHR '':'' # r2" using "6.prems" s k by (auto split: list.splits if_splits)
  obtain v r3 where v: "parse_value n r2 = Some (v, r3)" using "6.prems" s k r2 by (cases "parse_value n r2") auto
  obtain e r4 where e: "skip_ws r3 = e # r4" using "6.prems" s k r2 v by (cases "skip_ws r3") simp_all
  have lt: "length u < length s" "length r1 < length u" "length r2 < length r1" "length r4 < length r3"
    using skip_ws_Cons [OF s] parse_str_length [OF k] skip_ws_Cons [OF r2] skip_ws_Cons [OF e] by simp_all
  have w: "weight v + length r3 \<le> length r2" by (rule "6.IH"(1) [OF s _ k refl r2 _ v]) simp_all
  show ?case
  proof (cases "e = CHR ''}''")
    case True
    then show ?thesis using "6.prems" s k r2 v e w lt by auto
  next
    case False
    then obtain ms' where ms': "parse_members n r4 = Some (ms', r)" "ms = (k, v) # ms'" "e = CHR '',''"
      using "6.prems" s k r2 v e by (auto split: if_splits)
    have "sum_list (map (\<lambda>m. weight (snd m)) ms') + length r < length r4"
      by (rule "6.IH"(2) [OF s _ k refl r2 _ v refl e False ms'(3) ms'(1)]) simp_all
    then show ?thesis using ms'(2) w lt by simp
  qed
qed simp_all

lemma parse_json_weight: "parse_json s = Some v \<Longrightarrow> weight v \<le> length s"
  using parse_weight(1) [of "2 * length s + 2" s v] by (auto simp: parse_json_def split: option.splits if_splits)

lemma b64_groups_length: "b64_groups s = Some bs \<Longrightarrow> length bs \<le> length s"
proof (induction s arbitrary: bs rule: b64_groups.induct)
  case (2 p q r s t)
  obtain w x where q: "b64_val p = Some w" "b64_val q = Some x" using "2.prems" by (auto split: option.splits)
  show ?case
  proof (cases "r = CHR ''=''")
    case True
    then show ?thesis using "2.prems" q by (auto split: if_splits)
  next
    case r: False
    then obtain y where y: "b64_val r = Some y" using "2.prems" q by (auto split: option.splits)
    show ?thesis
    proof (cases "s = CHR ''=''")
      case True
      then show ?thesis using "2.prems" q r y by (auto simp: Let_def split: if_splits)
    next
      case s: False
      then obtain z u where z: "b64_val s = Some z" "b64_groups t = Some u" and len: "length bs = 3 + length u"
        using "2.prems" q r y by (auto simp: Let_def split: option.splits)
      have "length u \<le> length t" using "2.IH" q r y s z by blast
      then show ?thesis using len by simp
    qed
  qed
qed simp_all

lemma b64_decode_length: "b64_decode s = Some bs \<Longrightarrow> length bs \<le> length s"
  using b64_groups_length [of "filter (\<lambda>c. c \<noteq> CHR 0x0A \<and> c \<noteq> CHR 0x0D) s" bs] length_filter_le [of _ s]
  by (auto simp: b64_decode_def intro: order_trans)

lemma DecodedLen_le: "b64_DecodedLen n \<le> n"
  by (simp add: b64_DecodedLen_def)

section \<open>Fields and structs\<close>

text \<open>What each member of an object keeps, its fields, its structs and the whole object keep.\<close>

lemma field_keeps:
  "Q (fst st) \<Longrightarrow> (\<And>x m. v = Inr (Some x) \<Longrightarrow> Q m \<Longrightarrow> Q (upd x m)) \<Longrightarrow> Q (fst (set_field v upd st))"
  by (auto simp: set_field_def split: prod.split sum.split option.split)

lemma fold_keeps:
  "Q (fst st) \<Longrightarrow> (\<And>x st. x \<in> set xs \<Longrightarrow> Q (fst st) \<Longrightarrow> Q (fst (f x st))) \<Longrightarrow> Q (fst (fold f xs st))"
  by (induction xs arbitrary: st) simp_all

lemma struct_keeps:
  "Q (fst st) \<Longrightarrow> (\<And>x st. Q (fst st) \<Longrightarrow> Q (fst (member x st))) \<Longrightarrow> Q (fst (set_struct v member st))"
  by (cases v) (simp_all add: set_struct_def fold_keeps field_keeps)

section \<open>Messages\<close>

text \<open>A slice of Go: its length is within its capacity.  \<open>n\<close> bounds the capacity.\<close>

definition slice_ok :: "nat \<Rightarrow> gobuf \<Rightarrow> bool" where
  "slice_ok n b = (buf_len b \<le> buf_cap b \<and> buf_cap b \<le> n)"

lemma slice_ok_nil [simp]: "slice_ok n nil_buf"
  by (simp add: slice_ok_def nil_buf_def buf_cap_def)

lemma grow_buf_cap: "buf_len b \<le> buf_cap b \<Longrightarrow> buf_cap (grow_buf b) = max 4 (buf_cap b + buf_cap b div 2)"
  by (simp add: grow_buf_def buf_cap_def visible_def Let_def max_def)

lemma grow_buf_len [simp]: "buf_len (grow_buf b) = buf_len b"
  by (simp add: grow_buf_def Let_def)

lemma decode_elems_slice:
  "slice_ok n b \<Longrightarrow> i \<le> buf_cap b \<Longrightarrow> 2 * (i + length xs) \<le> n \<Longrightarrow> 4 \<le> n \<Longrightarrow>
   slice_ok n (fst (decode_elems xs i (b, err)))"
proof (induction xs arbitrary: i b err)
  case Nil
  then show ?case by (auto simp: slice_ok_def buf_cap_def nil_buf_def)
next
  case (Cons x xs)
  define b1 where "b1 = (if buf_cap b \<le> i then grow_buf b else b)"
  define b2 where "b2 = (if buf_len b1 \<le> i then b1\<lparr>buf_len := i + 1\<rparr> else b1)"
  have b: "buf_len b \<le> buf_cap b" "buf_cap b \<le> n" using Cons.prems(1) by (simp_all add: slice_ok_def)
  have b1: "i < buf_cap b1" "buf_len b1 \<le> buf_cap b1" "buf_cap b1 \<le> n"
    using Cons.prems(2-4) b grow_buf_cap [OF b(1)] by (auto simp: b1_def)
  have b2: "slice_ok n b2" "i < buf_cap b2"
    using b1 by (auto simp: slice_ok_def b2_def buf_cap_def)
  obtain b3 err3 where b3: "set_field (get_uint 8 x) (\<lambda>n c. c\<lparr>buf_arr := (buf_arr c)[i := word_of_nat n]\<rparr>) (b2, err) = (b3, err3)"
    by fastforce
  have "slice_ok n b3 \<and> i < buf_cap b3"
    using field_keeps [of "\<lambda>c. slice_ok n c \<and> i < buf_cap c" "(b2, err)" "get_uint 8 x" "\<lambda>n c. c\<lparr>buf_arr := (buf_arr c)[i := word_of_nat n]\<rparr>"]
      b2 b3 by (simp add: slice_ok_def buf_cap_def)
  then have "slice_ok n (fst (decode_elems xs (i + 1) (b3, err3)))"
    using Cons.IH [of b3 "i + 1" err3] Cons.prems(3,4) by simp
  then show ?case by (simp only: decode_elems.simps Let_def b1_def [symmetric] b2_def [symmetric] b3)
qed

lemma decode_bytes_slice:
  assumes "slice_ok n old" "weight v \<le> n" "4 \<le> n"
  shows "slice_ok n (fst (decode_bytes v old))"
proof (cases v)
  case (JStr s)
  then show ?thesis using assms b64_decode_length [of s] DecodedLen_le [of "length s"]
    by (auto simp: decode_bytes_def slice_ok_def buf_cap_def split: option.split)
next
  case (JArr xs)
  then show ?thesis using assms length_elements [of xs] by (simp add: decode_bytes_def decode_elems_slice)
qed (use assms in \<open>simp_all add: decode_bytes_def\<close>)

lemma visible_slice: "slice_ok n b \<Longrightarrow> length (visible b) = buf_len b"
  by (simp add: slice_ok_def visible_def buf_cap_def)

text \<open>The message of the decoder: its buffer is a slice, and its slices and texts are bounded.\<close>

definition message_ok :: "nat \<Rightarrow> Message \<Rightarrow> bool" where
  "message_ok n m = (slice_ok n (m_Bytes m) \<and> length (m_Pubkey m) \<le> n \<and> length (m_SignMsg m) \<le> n
     \<and> length (m_Sign m) \<le> n \<and> length (m_FileName m) \<le> n \<and> length (m_FileHash m) \<le> n)"

lemma buf_of_slice: "length bs \<le> n \<Longrightarrow> slice_ok n (buf_of bs)"
  by (simp add: slice_ok_def buf_of_def buf_cap_def)

lemma bytes_keeps:
  assumes "Q (fst st)" "slice_ok n (sel (fst st))" "weight v \<le> n" "4 \<le> n"
    and "\<And>b m. slice_ok n b \<Longrightarrow> Q m \<Longrightarrow> Q (upd b m)"
  shows "Q (fst (set_bytes v sel upd st))"
  using assms(1,5) decode_bytes_slice [OF assms(2-4)]
  by (auto simp: set_bytes_def split: prod.split)

lemma msg_member_ok:
  assumes "message_ok n (fst st)" "weight v \<le> n" "4 \<le> n"
  shows "message_ok n (fst (msg_member (k, v) st))"
proof -
  have str: "length s \<le> n" if "get_string v = Inr (Some s)" for s
    using that assms(2) by (auto simp: get_string_def split: json.splits)
  note keep = field_keeps [where Q = "message_ok n", OF assms(1)]
    and slice = bytes_keeps [where Q = "message_ok n", OF assms(1) _ assms(2,3)]
  have ok: "slice_ok n (m_Bytes (fst st))" "slice_ok n (buf_of (m_Pubkey (fst st)))"
    "slice_ok n (buf_of (m_SignMsg (fst st)))" "slice_ok n (buf_of (m_Sign (fst st)))"
    using assms(1) by (simp_all add: message_ok_def buf_of_slice)
  have vis: "length (visible b) \<le> n" if "slice_ok n b" for b using visible_slice [OF that] that by (simp add: slice_ok_def)
  have slices:
    "message_ok n (fst (set_bytes v (\<lambda>m. buf_of (m_Pubkey m)) (\<lambda>b m. m\<lparr>m_Pubkey := visible b\<rparr>) st))"
    "message_ok n (fst (set_bytes v (\<lambda>m. buf_of (m_SignMsg m)) (\<lambda>b m. m\<lparr>m_SignMsg := visible b\<rparr>) st))"
    "message_ok n (fst (set_bytes v (\<lambda>m. buf_of (m_Sign m)) (\<lambda>b m. m\<lparr>m_Sign := visible b\<rparr>) st))"
    "message_ok n (fst (set_bytes v m_Bytes (\<lambda>b m. m\<lparr>m_Bytes := b\<rparr>) st))"
    by - (rule slice, simp add: ok, simp add: message_ok_def vis)+
  have texts:
    "message_ok n (fst (set_field (get_string v) (\<lambda>s m. m\<lparr>m_FileName := s\<rparr>) st))"
    "message_ok n (fst (set_field (get_string v) (\<lambda>s m. m\<lparr>m_FileHash := s\<rparr>) st))"
    by - (rule keep, simp add: message_ok_def str)+
  have numbers:
    "message_ok n (fst (set_field (get_uint 64 v) (\<lambda>i m. m\<lparr>m_FileSize := word_of_nat i\<rparr>) st))"
    "message_ok n (fst (set_field (get_uint 8 v) (\<lambda>i m. m\<lparr>m_MsgType := word_of_nat i\<rparr>) st))"
    "message_ok n (fst (set_field (get_uint 8 v) (\<lambda>i m. m\<lparr>m_FileType := word_of_nat i\<rparr>) st))"
    "message_ok n (fst (set_field (get_bool v) (\<lambda>b m. m\<lparr>m_LastMark := b\<rparr>) st))"
    by - (rule keep, simp add: message_ok_def)+
  show ?thesis by (simp only: msg_member.simps slices texts numbers assms(1) if_distrib [of fst] if_distrib [of "message_ok n"] if_cancel)
qed

lemma object_member: "(k, v) \<in> set ms \<Longrightarrow> weight v \<le> weight (JObj ms)"
  using member_le_sum_list [of "weight v" "map (\<lambda>m. weight (snd m)) ms"] by force

lemma unmarshal_msg_ok:
  assumes "unmarshal_msg bs m = Inr (Some m')" "message_ok n m" "length bs \<le> n" "4 \<le> n"
  shows "message_ok n m'"
proof -
  obtain ms where ms: "parse_json (string_of_bytes bs) = Some (JObj ms)" and m': "m' = fst (fold msg_member ms (m, None))"
    using assms(1) by (auto simp: unmarshal_msg_def split: option.splits json.splits prod.splits)
  have "weight (JObj ms) \<le> n" using parse_json_weight [OF ms] assms(3) by simp
  then have step: "message_ok n (fst (msg_member x st))" if x: "x \<in> set ms" "message_ok n (fst st)" for x st
    using msg_member_ok [OF x(2) _ assms(4), of "snd x" "fst x"] object_member [of "fst x" "snd x" ms] x(1)
    by (simp only: prod.collapse) simp
  show ?thesis unfolding m' by (rule fold_keeps [where Q = "message_ok n", OF _ step]) (simp_all only: fst_conv assms(2))
qed

lemma empty_message_ok: "message_ok n (empty_Message\<lparr>m_Bytes := pool_get stale n\<rparr>)"
  by (simp add: message_ok_def slice_ok_def empty_Message_def)

lemma read_body_length: "read_body bs = Some (data, rest) \<Longrightarrow> length data \<le> TCP_ReadBuffer"
  by (auto simp: read_body_def split: if_splits outcome.splits)

lemma readMsg_ok: "Some m \<in> set (readMsg pool alive flag w bs) \<Longrightarrow> message_ok TCP_ReadBuffer m"
proof (induction pool alive flag w bs rule: readMsg.induct)
  case (2 pool alive flag w bs)
  show ?case
  proof (cases "\<not> flag \<and> bs = []")
    case True
    then show ?thesis using "2.prems" "2.IH"(1) by (auto split: if_splits)
  next
    case False
    note P = "2.prems" [unfolded readMsg.simps if_not_P [OF False]]
    obtain data rest where d: "(if flag then read_body bs else read_frame bs) = Some (data, rest)"
      using P by (cases "if flag then read_body bs else read_frame bs") (simp_all only: option.case list.set empty_iff split_paired_all)
    note P = P [unfolded d option.case prod.case]
    have len: "length data \<le> TCP_ReadBuffer"
      using d read_body_length [of bs] read_body_length [of "drop 4 bs"] by (auto simp: read_frame_def split: if_splits)
    let ?m0 = "empty_Message\<lparr>m_Bytes := pool_get (pool alive) TCP_ReadBuffer\<rparr>"
    obtain mo where mo: "unmarshal_msg data ?m0 = Inr mo"
      using P by (cases "unmarshal_msg data ?m0") (simp_all only: sum.case list.set empty_iff)
    have "Some m = mo \<or> Some m \<in> set (readMsg pool alive False w rest)"
      using P by (simp only: mo sum.case list.set insert_iff)
    then show ?thesis
    proof
      assume "Some m = mo"
      then show ?thesis
        using unmarshal_msg_ok [of data ?m0 m, OF _ empty_message_ok len] mo by (simp add: TCP_ReadBuffer_def)
    next
      assume "Some m \<in> set (readMsg pool alive False w rest)"
      then show ?thesis using "2.IH"(2) [OF False d refl mo] by blast
    qed
  qed
qed simp

section \<open>Tags\<close>

text \<open>The number of a tag is an \<open>int64\<close> and its status code a \<open>uint\<close>.\<close>

definition tag_ok :: "PoDR2PubData \<Rightarrow> bool" where
  "tag_ok t = (- (2 ^ 63) \<le> pd_N t \<and> pd_N t < 2 ^ 63 \<and> pd_StatusCode t < 2 ^ 64)"

lemma tag_ok_updates [simp]:
  "tag_ok (t\<lparr>pd_Name := s\<rparr>) = tag_ok t" "tag_ok (t\<lparr>pd_U := s\<rparr>) = tag_ok t" "tag_ok (t\<lparr>pd_SigAbove := s\<rparr>) = tag_ok t"
  "tag_ok (t\<lparr>pd_Phi := ss\<rparr>) = tag_ok t" "tag_ok (t\<lparr>pd_SigRootHash := s\<rparr>) = tag_ok t" "tag_ok (t\<lparr>pd_E := s\<rparr>) = tag_ok t"
  "tag_ok (t\<lparr>pd_KeyN := s\<rparr>) = tag_ok t" "tag_ok (t\<lparr>pd_StatusMsg := s\<rparr>) = tag_ok t"
  by (simp_all add: tag_ok_def)

lemma tag_ok_numbers:
  "get_int64 v = Inr (Some i) \<Longrightarrow> tag_ok t \<Longrightarrow> tag_ok (t\<lparr>pd_N := i\<rparr>)"
  "get_uint 64 v = Inr (Some n) \<Longrightarrow> tag_ok t \<Longrightarrow> tag_ok (t\<lparr>pd_StatusCode := n\<rparr>)"
  by (auto simp: tag_ok_def get_int64_def get_uint_def Let_def split: json.splits if_splits)

lemmas keep_tag = field_keeps [where Q = tag_ok] struct_keeps [where Q = tag_ok]

lemma inner_members_keep_type:
  assumes "tag_ok (fst st)"
  shows "tag_ok (fst (tag_member x st))" "tag_ok (fst (spk_member x st))" "tag_ok (fst (status_member x st))"
    and "tag_ok (fst (set_strings v st))"
  using assms
  by (cases x; cases v; auto simp: set_strings_def tag_ok_numbers split: prod.split intro!: keep_tag)+

lemma members_keep_type:
  assumes "tag_ok (fst st)"
  shows "tag_ok (fst (t_member x st))" "tag_ok (fst (result_member x st))" "tag_ok (fst (pubdata_member x st))"
  using assms
  by (cases x; auto simp: inner_members_keep_type intro!: keep_tag simp del: tag_member.simps spk_member.simps status_member.simps)+

section \<open>Properties\<close>


text \<open>A message whose bytes are first set to nil and then given as an array of five numbers.\<close>

definition array_json :: json where
  "array_json = JObj [(''bytes'', JNull), (''bytes'', JArr (map json_uint [1, 2, 3, 4, 5]))]"


text \<open>
  Whatever is posted to the callback, a tag that it accepts has a number in the range of its type and
  the status code of success; every other body gives no tag.
\<close>

theorem accepted_tags_are_typed:
  assumes "GetTag body = (code, Some t)"
  shows "code = 200 \<and> pd_StatusCode t = SgxReportSuc \<and> - (2 ^ 63) \<le> pd_N t \<and> pd_N t < 2 ^ 63"
proof -
  obtain bs where bs: "unmarshal_pubdata bs = Inr t" "code = 200" "pd_StatusCode t = SgxReportSuc"
    using assms by (auto simp: GetTag_def split: sum.splits if_splits)
  then obtain v where "set_struct v pubdata_member (zero_tag, None) = (t, None)"
    by (auto simp: unmarshal_pubdata_def split: option.splits prod.splits)
  then have "t = fst (set_struct v pubdata_member (zero_tag, None))" by simp
  moreover have "tag_ok (fst (set_struct v pubdata_member (zero_tag, None)))"
    by (rule struct_keeps) (simp_all only: members_keep_type(3) fst_conv, simp add: tag_ok_def zero_tag_def)
  ultimately show ?thesis using bs by (simp add: tag_ok_def)
qed

definition posted_json :: json where
  "posted_json = JObj [(''result'', JObj [(''t'', JObj [(''tag'', JObj [(''n'', json_uint 7)])])]),
     (''status'', JObj [(''status_code'', json_uint 100000)])]"

theorem accepted_tags_are_typed_witness:
  "GetTag (Inr (bytes_of_string (print_json posted_json))) = (200, Some (zero_tag\<lparr>pd_N := 7, pd_StatusCode := 100000\<rparr>))
    \<and> pd_StatusCode (zero_tag\<lparr>pd_N := 7, pd_StatusCode := 100000\<rparr>) = SgxReportSuc"
proof -
  have "json_ok posted_json" by (simp add: posted_json_def)
  then have p: "parse_json (print_json posted_json) = Some posted_json" by (rule parse_json_print)
  have "get_int64 (json_uint 7) = Inr (Some 7)" by code_simp
  then have "set_struct posted_json pubdata_member (zero_tag, None) = (zero_tag\<lparr>pd_N := 7, pd_StatusCode := 100000\<rparr>, None)"
    by (simp add: posted_json_def set_struct_def same_key_def lower_def set_field_def)
  then have g: "GetTag (Inr (bytes_of_string (print_json posted_json))) = (200, Some (zero_tag\<lparr>pd_N := 7, pd_StatusCode := 100000\<rparr>))"
    using p by (simp add: GetTag_def unmarshal_pubdata_def SgxReportSuc_def)
  then show ?thesis using accepted_tags_are_typed [OF g] by blast
qed

end
