(* ===== verification/Logger.thy ===== *)
theory Logger
  imports GoStrings Configs
begin

text \<open>
  The log files (pkg/logger/logger.go).  zap and lumberjack are third party: a logger of theirs is
  the file it appends to, and what has been written is a list of file, level and text.  The file and
  line of a caller, which \<open>runtime.Caller\<close> gives, are an argument.
\<close>

datatype log_level = Info | Warn | Error

type_synonym log_output = "(string \<times> log_level \<times> string) list"

record logs =
  lg_logpath :: "string \<Rightarrow> string option"
  lg_log :: "string \<Rightarrow> string option"

text \<open>
  What the start asks of the system: the working directory, unless \<open>Getwd\<close> fails, which directories
  are there, and the errors of \<open>MkdirAll\<close>.
\<close>

record dir_env =
  de_Getwd :: "string option"
  de_Stat :: "string \<Rightarrow> bool"
  de_MkdirAll :: "string \<Rightarrow> go_error option"
  de_Keeps :: "string \<Rightarrow> string \<Rightarrow> bool"

section \<open>NewLogs\<close>

text \<open>\<open>filepath.Abs\<close> with the error dropped.\<close>

definition abs_path :: "dir_env \<Rightarrow> string \<Rightarrow> string" where
  "abs_path D p =
     (if p \<noteq> [] \<and> hd p = CHR ''/'' then filepath_Clean p
      else case de_Getwd D of None \<Rightarrow> [] | Some wd \<Rightarrow> filepath_Join [wd, p])"

text \<open>\<open>path[:index]\<close> for the last slash; without one the index is -1 and the slice panics.\<close>

definition getFilePath :: "dir_env \<Rightarrow> string \<Rightarrow> string outcome" where
  "getFilePath D fpath =
     (let path = abs_path D fpath in
      if CHR ''/'' \<in> set path then Ret (take (length path - length (last_elem path) - 1) path) else Panic)"

text \<open>
  \<open>NewLogs\<close> on the entries of the map in the order in which the iteration gives them; the path of
  each file is its first line.
\<close>

fun NewLogs :: "dir_env \<Rightarrow> (string \<times> string) list \<Rightarrow> logs \<Rightarrow> log_output \<Rightarrow> (go_error + logs) outcome \<times> log_output" where
  "NewLogs D [] l out = (Ret (Inr l), out)"
| "NewLogs D ((name, fpath) # rest) l out =
     (case getFilePath D fpath of
        Panic \<Rightarrow> (Panic, out)
      | Ret dir \<Rightarrow>
          (case (if de_Stat D dir then None else de_MkdirAll D dir) of
             Some err \<Rightarrow> (Ret (Inl (dir @ '','' @ err)), out)
           | None \<Rightarrow>
               NewLogs D rest
                 (l\<lparr>lg_logpath := (lg_logpath l)(name \<mapsto> fpath), lg_log := (lg_log l)(name \<mapsto> fpath)\<rparr>)
                 (out @ [(fpath, Info, fpath)])))"

definition no_logs :: logs where
  "no_logs = \<lparr>lg_logpath = Map.empty, lg_log = Map.empty\<rparr>"

text \<open>\<open>buildLogs\<close> of cmd/console: one file for each name.\<close>

definition log_entries :: "string \<Rightarrow> (string \<times> string) list" where
  "log_entries logDir = map (\<lambda>v. (v, filepath_Join [logDir, v @ ''.log''])) LogFiles"

section \<open>Writing\<close>

type_synonym caller = "string \<times> nat"

text \<open>\<open>"[%v:%d] %v"\<close>; a nil error prints as \<open><nil>\<close>.\<close>

definition log_line :: "caller \<Rightarrow> go_error option \<Rightarrow> string" where
  "log_line at err =
     ''['' @ filepath_Base (fst at) @ '':'' @ show_nat (snd at) @ ''] '' @ (case err of None \<Rightarrow> ''<nil>'' | Some e \<Rightarrow> e)"

definition Log :: "logs \<Rightarrow> caller \<Rightarrow> string \<Rightarrow> string \<Rightarrow> go_error option \<Rightarrow> log_output \<Rightarrow> log_output" where
  "Log l at name level err out =
     (case lg_log l name of
        None \<Rightarrow> out
      | Some v \<Rightarrow>
          if level = ''info'' then out @ [(v, Info, log_line at err)]
          else if level = ''error'' \<or> level = ''err'' then out @ [(v, Error, log_line at err)]
          else if level = ''warn'' then out @ [(v, Warn, log_line at err)] else out)"

definition Pnc :: "logs \<Rightarrow> caller \<Rightarrow> string \<Rightarrow> go_error option \<Rightarrow> log_output \<Rightarrow> log_output" where
  "Pnc l at level err out =
     (case lg_log l ''panic'' of
        None \<Rightarrow> out
      | Some v \<Rightarrow> if level = ''error'' \<or> level = ''err'' then out @ [(v, Error, log_line at err)] else out)"

definition Common :: "logs \<Rightarrow> caller \<Rightarrow> string \<Rightarrow> go_error option \<Rightarrow> log_output \<Rightarrow> log_output" where
  "Common l at level err out =
     (case lg_log l ''common'' of
        None \<Rightarrow> out
      | Some v \<Rightarrow>
          if level = ''info'' then out @ [(v, Info, log_line at err)]
          else if level = ''error'' \<or> level = ''err'' then out @ [(v, Error, log_line at err)]
          else if level = ''warn'' then out @ [(v, Warn, log_line at err)] else out)"

definition Upfile :: "logs \<Rightarrow> caller \<Rightarrow> string \<Rightarrow> go_error option \<Rightarrow> log_output \<Rightarrow> log_output" where
  "Upfile l at level err out =
     (case lg_log l ''upfile'' of
        None \<Rightarrow> out
      | Some v \<Rightarrow>
          if level = ''info'' then out @ [(v, Info, log_line at err)]
          else if level = ''error'' \<or> level = ''err'' then out @ [(v, Error, log_line at err)]
          else if level = ''warn'' then out @ [(v, Warn, log_line at err)] else out)"

definition MinerCache :: "logs \<Rightarrow> caller \<Rightarrow> string \<Rightarrow> go_error option \<Rightarrow> log_output \<Rightarrow> log_output" where
  "MinerCache l at level err out =
     (case lg_log l ''minerCache'' of
        None \<Rightarrow> out
      | Some v \<Rightarrow>
          if level = ''info'' then out @ [(v, Info, log_line at err)]
          else if level = ''error'' \<or> level = ''err'' then out @ [(v, Error, log_line at err)]
          else if level = ''warn'' then out @ [(v, Warn, log_line at err)] else out)"

definition GenFiller :: "logs \<Rightarrow> caller \<Rightarrow> string \<Rightarrow> go_error option \<Rightarrow> log_output \<Rightarrow> log_output" where
  "GenFiller l at level err out =
     (case lg_log l ''genFiller'' of
        None \<Rightarrow> out
      | Some v \<Rightarrow>
          if level = ''info'' then out @ [(v, Info, log_line at err)]
          else if level = ''err'' \<or> level = ''error'' then out @ [(v, Error, log_line at err)] else out)"

definition FillerMeta :: "logs \<Rightarrow> caller \<Rightarrow> string \<Rightarrow> go_error option \<Rightarrow> log_output \<Rightarrow> log_output" where
  "FillerMeta l at level err out =
     (case lg_log l ''fillerMeta'' of
        None \<Rightarrow> out
      | Some v \<Rightarrow>
          if level = ''info'' then out @ [(v, Info, log_line at err)]
          else if level = ''error'' \<or> level = ''err'' then out @ [(v, Error, log_line at err)]
          else if level = ''warn'' then out @ [(v, Warn, log_line at err)] else out)"

definition Verify :: "logs \<Rightarrow> caller \<Rightarrow> string \<Rightarrow> go_error option \<Rightarrow> log_output \<Rightarrow> log_output" where
  "Verify l at level err out =
     (case lg_log l ''verify'' of
        None \<Rightarrow> out
      | Some v \<Rightarrow>
          if level = ''info'' then out @ [(v, Info, log_line at err)]
          else if level = ''error'' \<or> level = ''err'' then out @ [(v, Error, log_line at err)]
          else if level = ''warn'' then out @ [(v, Warn, log_line at err)] else out)"

definition Speed :: "logs \<Rightarrow> caller \<Rightarrow> go_error option \<Rightarrow> log_output \<Rightarrow> log_output" where
  "Speed l at err out =
     (case lg_log l ''speed'' of None \<Rightarrow> out | Some v \<Rightarrow> out @ [(v, Info, log_line at err)])"

definition Spc :: "logs \<Rightarrow> caller \<Rightarrow> string \<Rightarrow> go_error option \<Rightarrow> log_output \<Rightarrow> log_output" where
  "Spc l at level err out =
     (case lg_log l ''space'' of
        None \<Rightarrow> out
      | Some v \<Rightarrow>
          if level = ''info'' then out @ [(v, Info, log_line at err)]
          else if level = ''error'' \<or> level = ''err'' then out @ [(v, Error, log_line at err)]
          else if level = ''warn'' then out @ [(v, Warn, log_line at err)] else out)"

section \<open>The text of a line\<close>

text \<open>
  The configuration of the console encoder: the keys of the fields, of which an empty one leaves its field
  out, and the functions for level and time.  A nil encoder of callers is \<open>None\<close>.  \<open>'t\<close> is the type of times, whose
  \<open>Format\<close> is a parameter.
\<close>

record 't EncoderConfig =
  en_TimeKey :: string
  en_LevelKey :: string
  en_NameKey :: string
  en_CallerKey :: string
  en_FunctionKey :: string
  en_MessageKey :: string
  en_StacktraceKey :: string
  en_LineEnding :: string
  en_EncodeLevel :: "log_level \<Rightarrow> string list \<Rightarrow> string list"
  en_EncodeTime :: "'t \<Rightarrow> string list \<Rightarrow> string list"
  en_EncodeCaller :: "(caller \<Rightarrow> string list \<Rightarrow> string list) option"

definition CapitalString :: "log_level \<Rightarrow> string" where
  "CapitalString level = (case level of Info \<Rightarrow> ''INFO'' | Warn \<Rightarrow> ''WARN'' | Error \<Rightarrow> ''ERROR'')"

definition cEncodeLevel :: "log_level \<Rightarrow> string list \<Rightarrow> string list" where
  "cEncodeLevel level enc = enc @ [''['' @ CapitalString level @ '']'']"

definition cEncodeTime :: "(string \<Rightarrow> 't \<Rightarrow> string) \<Rightarrow> 't \<Rightarrow> string list \<Rightarrow> string list" where
  "cEncodeTime Format t enc = enc @ [''['' @ Format ''2006-01-02 15:04:05'' t @ '']'']"

definition getEncoder :: "(string \<Rightarrow> 't \<Rightarrow> string) \<Rightarrow> 't EncoderConfig" where
  "getEncoder Format =
     \<lparr>en_TimeKey = ''ts'', en_LevelKey = ''level'', en_NameKey = ''logger'', en_CallerKey = ''caller_line'',
      en_FunctionKey = [], en_MessageKey = ''msg'', en_StacktraceKey = ''stacktrace'', en_LineEnding = [CHR 0x0A],
      en_EncodeLevel = cEncodeLevel, en_EncodeTime = cEncodeTime Format, en_EncodeCaller = None\<rparr>"

text \<open>The writer of a file, which the rotation of lumberjack replaces: sizes in megabytes, ages in days.\<close>

record write_syncer =
  ws_Filename :: string
  ws_MaxSize :: nat
  ws_MaxBackups :: nat
  ws_MaxAge :: nat
  ws_LocalTime :: bool
  ws_Compress :: bool

definition getWriteSyncer :: "string \<Rightarrow> write_syncer" where
  "getWriteSyncer fpath = \<lparr>ws_Filename = fpath, ws_MaxSize = 10, ws_MaxBackups = 99, ws_MaxAge = 180,
     ws_LocalTime = True, ws_Compress = True\<rparr>"

section \<open>Every message has its file\<close>

lemma map_upd_add: "(\<lambda>a. if a = x then Some y else m a) = m ++ [x \<mapsto> y]"
  by (rule ext) (simp add: map_add_def)

lemma NewLogs_result:
  assumes "NewLogs D es l out = (Ret (Inr l'), out')"
  shows "lg_log l' = lg_log l ++ map_of (rev es) \<and> lg_logpath l' = lg_logpath l ++ map_of (rev es) \<and>
    out' = out @ map (\<lambda>(n, p). (p, Info, p)) es"
  using assms
proof (induction D es l out rule: NewLogs.induct)
  case (2 D name fpath rest l out)
  let ?l = "l\<lparr>lg_logpath := (lg_logpath l)(name \<mapsto> fpath), lg_log := (lg_log l)(name \<mapsto> fpath)\<rparr>"
  obtain dir where dir: "getFilePath D fpath = Ret dir"
    using "2.prems" by (cases "getFilePath D fpath") simp_all
  have none: "(if de_Stat D dir then None else de_MkdirAll D dir) = None"
    using "2.prems" dir by (cases "if de_Stat D dir then None else de_MkdirAll D dir") simp_all
  have "NewLogs D rest ?l (out @ [(fpath, Info, fpath)]) = (Ret (Inr l'), out')"
    using "2.prems" by (simp only: NewLogs.simps dir outcome.case none option.case)
  from "2.IH" [OF dir none this] show ?case by (simp add: map_upd_add)
qed simp

lemma map_of_distinct_permutation:
  "distinct (map fst es) \<Longrightarrow> mset es = mset es' \<Longrightarrow> map_of es = map_of es'"
proof -
  assume d: "distinct (map fst es)" and m: "mset es = mset es'"
  have "mset (map fst es) = mset (map fst es')" using m by simp
  then have "distinct (map fst es')" using d by (metis mset_eq_imp_distinct_iff)
  then show ?thesis using d m by (metis map_of_inject_set set_mset_mset)
qed

lemma buildLogs_files:
  assumes "NewLogs D es no_logs out = (Ret (Inr l), out')" "mset es = mset (log_entries logDir)"
  shows "lg_log l name = (if name \<in> set LogFiles then Some (filepath_Join [logDir, name @ ''.log'']) else None)"
proof -
  have dist: "distinct (map fst (log_entries logDir))" by (simp add: log_entries_def LogFiles_def)
  have "lg_log l = map_of (rev es)" using NewLogs_result [OF assms(1)] by (simp add: no_logs_def)
  also have "\<dots> = map_of (log_entries logDir)"
    using map_of_distinct_permutation [OF dist] assms(2) by (metis mset_rev)
  finally show ?thesis by (simp add: log_entries_def LogFiles_def)
qed

text \<open>
  the methods of the logger are one operation.  Each of the methods that name a task is \<open>Log\<close> with
  the name of its file, except that \<open>GenFiller\<close> drops warnings, \<open>Pnc\<close> everything but errors, and
  \<open>Speed\<close> is always information.
\<close>
theorem methods_are_Log:
  "Common l at level err = Log l at ''common'' level err \<and>
   Upfile l at level err = Log l at ''upfile'' level err \<and>
   MinerCache l at level err = Log l at ''minerCache'' level err \<and>
   FillerMeta l at level err = Log l at ''fillerMeta'' level err \<and>
   Verify l at level err = Log l at ''verify'' level err \<and>
   Spc l at level err = Log l at ''space'' level err \<and>
   Speed l at err = Log l at ''speed'' ''info'' err \<and>
   GenFiller l at level err = (if level = ''warn'' then id else Log l at ''genFiller'' level err) \<and>
   Pnc l at level err = (if level \<in> {''err'', ''error''} then Log l at ''panic'' level err else id)"
  by (auto simp: fun_eq_iff Log_def Pnc_def Common_def Upfile_def MinerCache_def GenFiller_def FillerMeta_def
      Verify_def Speed_def Spc_def split: option.splits)

text \<open>
  no message is lost.  With the logger that the start builds, in whatever order its map is
  iterated, a message of level info, warn, err or error for one of the nine names is appended to the
  file of that name in the log directory, with the level and the caller, and to no other file.
\<close>
theorem message_reaches_its_file:
  assumes "NewLogs D es no_logs [] = (Ret (Inr l), out0)" "mset es = mset (log_entries logDir)"
    and "name \<in> set LogFiles" "level \<in> {''info'', ''warn'', ''err'', ''error''}"
  shows "Log l at name level (Some e) out = out @
     [(filepath_Join [logDir, name @ ''.log''],
       if level = ''info'' then Info else if level = ''warn'' then Warn else Error,
       ''['' @ filepath_Base (fst at) @ '':'' @ show_nat (snd at) @ ''] '' @ e)]"
  using assms(3,4) buildLogs_files [OF assms(1,2), of name] by (auto simp: Log_def log_line_def)

lemma message_reaches_its_file_witness:
  "\<exists>l. Log l (''/r/node/main.go'', 7) ''space'' ''err'' (Some ''gone'') [] =
     [(filepath_Join [''/v'', ''space.log''], Error, ''['' @ filepath_Base ''/r/node/main.go'' @ '':'' @ show_nat 7 @ ''] gone'')]"
proof -
  let ?D = "\<lparr>de_Getwd = None, de_Stat = (\<lambda>_. True), de_MkdirAll = (\<lambda>_. None), de_Keeps = (\<lambda>_ _. False)\<rparr>"
  have slash: "CHR ''/'' \<in> set (abs_path ?D (filepath_Join [''/v'', v @ ''.log'']))" for v
  proof -
    have "filepath_Join [''/v'', v @ ''.log''] \<noteq> [] \<and> hd (filepath_Join [''/v'', v @ ''.log'']) = CHR ''/''"
      by (simp add: filepath_Join_def filepath_Clean_def Let_def)
    then show ?thesis by (simp add: abs_path_def filepath_Clean_def Let_def)
  qed
  have "\<exists>l out'. NewLogs ?D (map (\<lambda>v. (v, filepath_Join [''/v'', v @ ''.log''])) vs) l0 out = (Ret (Inr l), out')"
    for vs l0 out
    using slash by (induction vs arbitrary: l0 out) (simp_all add: getFilePath_def Let_def)
  then obtain l out0 where l: "NewLogs ?D (log_entries ''/v'') no_logs [] = (Ret (Inr l), out0)"
    unfolding log_entries_def by blast
  show ?thesis
    using message_reaches_its_file [OF l refl, of "''space''" "''err''" "(''/r/node/main.go'', 7)" "''gone''" "[]"]
    by (auto simp: LogFiles_def)
qed

end
