(* ===== verification/Console.thy ===== *)
theory Console
  imports Confile Logger ChainTx Cache GoFiles Podr2
begin

text \<open>
  The commands of the program (cmd/console) and the construction of the chain client
  (\<open>NewChainClient\<close> of pkg/chain/client.go): what is checked, registered, made and deleted before the
  node runs.  A command ends with an exit code, panics, or, for \<open>run\<close>, hands a node to \<open>Run\<close>.
\<close>

section \<open>NewChainClient\<close>

text \<open>The calls of the RPC library that only the construction makes; their values go to the signer.\<close>

record ('api, 'w) chain_init =
  ci_MetadataLatest :: "'api \<Rightarrow> 'w \<Rightarrow> go_error option \<times> 'w"
  ci_GenesisHash :: "'api \<Rightarrow> 'w \<Rightarrow> go_error option \<times> 'w"
  ci_RuntimeVersion :: "'api \<Rightarrow> 'w \<Rightarrow> go_error option \<times> 'w"

definition NewChainClient ::
    "('api, 'w) gsrpc \<Rightarrow> ('api, 'w) chain_init \<Rightarrow> conf_env \<Rightarrow> string \<Rightarrow> string \<Rightarrow> string \<Rightarrow> 'w
     \<Rightarrow> (go_error + 'api chainClient) \<times> 'w" where
  "NewChainClient G I E rpcAddr secret stash w =
     (case rpc_connect G rpcAddr w of
        (Inl err, w1) \<Rightarrow> (Inl err, w1)
      | (Inr api, w1) \<Rightarrow>
     (case ci_MetadataLatest I api w1 of
        (Some err, w2) \<Rightarrow> (Inl err, w2)
      | (None, w2) \<Rightarrow>
     (case ci_GenesisHash I api w2 of
        (Some err, w3) \<Rightarrow> (Inl err, w3)
      | (None, w3) \<Rightarrow>
     (case ci_RuntimeVersion I api w3 of
        (Some err, w4) \<Rightarrow> (Inl err, w4)
      | (None, w4) \<Rightarrow>
     (case CreateStorageKey G SYSTEM ''Events'' None of
        Inl err \<Rightarrow> (Inl err, w4)
      | Inr _ \<Rightarrow>
     (case (if secret = [] then Inr ([], []) else ce_KeyringPair E secret) of
        Inl err \<Rightarrow> (Inl err, w4)
      | Inr (publicKey, uri) \<Rightarrow>
          (Inr \<lparr>cc_api = Some api, cc_chainState = True, cc_publicKey = publicKey, cc_URI = uri,
             cc_rpcAddr = rpcAddr, cc_stash = stash\<rparr>, w4)))))))"

text \<open>\<open>NewAccountId\<close> dereferences the account that the library gives for 32 bytes only.\<close>

definition NewAccountId :: "bytes \<Rightarrow> AccountID outcome" where
  "NewAccountId pubkey = (case NewAccountID pubkey of Inl _ \<Rightarrow> Panic | Inr acc \<Rightarrow> Ret acc)"

section \<open>Directories\<close>

definition BaseDir :: string where "BaseDir = NameSpace"
definition LogDir :: string where "LogDir = ''log''"
definition CacheDir :: string where "CacheDir = ''cache''"
definition FileDir :: string where "FileDir = ''file''"
definition TagDir :: string where "TagDir = ''tag''"
definition FillerDir :: string where "FillerDir = ''filler''"

text \<open>
  \<open>os.RemoveAll\<close> with its error dropped: the path and everything under it goes, except what could
  not be removed.
\<close>

definition under :: "string \<Rightarrow> string \<Rightarrow> bool" where
  "under p q = (q = p \<or> take (Suc (length p)) q = p @ ''/'')"

definition RemoveAll :: "dir_env \<Rightarrow> string \<Rightarrow> disk \<Rightarrow> disk" where
  "RemoveAll D p d = filter (\<lambda>(q, _). \<not> under p q \<or> de_Keeps D p q) d"

text \<open>\<open>buildDir\<close>: the log, cache, filler, file and tag directories in the order of the code's results.\<close>

definition buildDir ::
    "dir_env \<Rightarrow> (bytes \<Rightarrow> string) \<Rightarrow> (bytes \<Rightarrow> bytes) \<Rightarrow> confile \<Rightarrow> 'api chainClient \<Rightarrow> disk
     \<Rightarrow> (go_error + string list) \<times> disk" where
  "buildDir D b58enc sum512 cfg client d =
     (case GetCessAccount b58enc sum512 client of
        Inl err \<Rightarrow> (Inl err, d)
      | Inr ctlAccount \<Rightarrow>
          let baseDir = filepath_Join [GetDataDir cfg, ctlAccount, BaseDir] in
          case (if de_Stat D baseDir then None else de_MkdirAll D baseDir) of Some err \<Rightarrow> (Inl err, d)
          | None \<Rightarrow>
          let logDir = filepath_Join [baseDir, LogDir] in
          case de_MkdirAll D logDir of Some err \<Rightarrow> (Inl err, d)
          | None \<Rightarrow>
          let cacheDir = filepath_Join [baseDir, CacheDir] in
          case de_MkdirAll D cacheDir of Some err \<Rightarrow> (Inl err, d)
          | None \<Rightarrow>
          let fillerDir = filepath_Join [baseDir, FillerDir]; d1 = RemoveAll D fillerDir d in
          case de_MkdirAll D fillerDir of Some err \<Rightarrow> (Inl err, d1)
          | None \<Rightarrow>
          let fileDir = filepath_Join [baseDir, FileDir] in
          case de_MkdirAll D fileDir of Some err \<Rightarrow> (Inl err, d1)
          | None \<Rightarrow>
          let tagDir = filepath_Join [baseDir, TagDir]; d2 = RemoveAll D tagDir d1 in
          case de_MkdirAll D tagDir of Some err \<Rightarrow> (Inl err, d2)
          | None \<Rightarrow> (Inr [logDir, cacheDir, fillerDir, fileDir, tagDir], d2))"

section \<open>Registration\<close>

definition newline :: string where "newline = [CHR 0x0A]"

definition HELP_common :: string where
  "HELP_common = ''Please check with the following help information:'' @ newline @
     ''    1.Check if the wallet balance is sufficient'' @ newline @ ''    2.Block hash:''"

definition help_result :: "string \<Rightarrow> string" where
  "help_result ev = ''    3.Check the '' @ ev @ '' transaction event result in the block hash above:'' @ newline @
     ''        If system.ExtrinsicFailed is prompted, it means failure;'' @ newline @
     ''        If system.ExtrinsicSuccess is prompted, it means success;''"

definition HELP_register :: string where "HELP_register = help_result ''FileMap.RegistrationScheduler''"

definition register ::
    "('api, 'w) gsrpc \<Rightarrow> conf_env \<Rightarrow> dir_env \<Rightarrow> (bytes \<Rightarrow> string) \<Rightarrow> confile \<Rightarrow> 'api chainClient \<Rightarrow> 'w \<Rightarrow> disk
     \<Rightarrow> go_error option outcome \<times> 'api chainClient \<times> 'w \<times> disk" where
  "register G E D b58enc cfg client w d =
     (case Register G (ce_b58dec E) (ce_sum512 E) (GetStashAcc cfg) (GetServiceAddr cfg) (ucast (GetServicePort cfg)) client w of
        (Panic, c1, w1) \<Rightarrow> (Panic, c1, w1, d)
      | (Ret (txhash, Some err), c1, w1) \<Rightarrow>
          (Ret (Some (if err = ERR_RPC_EMPTY_VALUE then ''[err] Please check your wallet balance''
                else if txhash \<noteq> [] then ''[pending] '' @ HELP_common @ '' '' @ txhash @ newline @ HELP_register @ newline
                else err)), c1, w1, d)
      | (Ret (_, None), c1, w1) \<Rightarrow>
          let ctlAccount = (case GetCessAccount b58enc (ce_sum512 E) c1 of Inl _ \<Rightarrow> [] | Inr a \<Rightarrow> a);
              baseDir = filepath_Join [GetDataDir cfg, ctlAccount, BaseDir] in
          (Ret None, c1, w1, RemoveAll D baseDir d))"

text \<open>\<open>None\<close> is the loop that never ends because the node keeps synchronising.\<close>

partial_function (option) sync_block ::
    "('api, 'w) gsrpc \<Rightarrow> 'api chainClient \<Rightarrow> 'w \<Rightarrow> (go_error option outcome \<times> 'api chainClient \<times> 'w) option" where
  "sync_block G c w =
     (case GetSyncStatus G c w of
        (Panic, c1, w1) \<Rightarrow> Some (Panic, c1, w1)
      | (Ret (Inl err), c1, w1) \<Rightarrow> Some (Ret (Some err), c1, w1)
      | (Ret (Inr ok), c1, w1) \<Rightarrow> if \<not> ok then Some (Ret None, c1, w1) else sync_block G c1 w1)"

definition has_registered :: "bytes \<Rightarrow> SchedulerInfo list \<Rightarrow> bool outcome" where
  "has_registered pk schelist =
     (if schelist = [] then Ret False
      else bind_outcome (NewAccountId pk) (\<lambda>acc. Ret (list_ex (\<lambda>v. si_ControllerUser v = acc) schelist)))"

text \<open>The part of \<open>buildChain\<close> after the synchronisation.\<close>

definition join_network ::
    "('api, 'w) gsrpc \<Rightarrow> conf_env \<Rightarrow> dir_env \<Rightarrow> (bytes \<Rightarrow> string) \<Rightarrow> confile \<Rightarrow> 'api chainClient \<Rightarrow> 'w \<Rightarrow> disk
     \<Rightarrow> (go_error + 'api chainClient) outcome \<times> 'w \<times> disk" where
  "join_network G E D b58enc cfg c w d =
     (case GetAllSchedulerInfo G c w of
        (Panic, c1, w1) \<Rightarrow> (Panic, w1, d)
      | (Ret r, c1, w1) \<Rightarrow>
          (case (case r of
                  Inl err \<Rightarrow> if err \<noteq> ERR_RPC_EMPTY_VALUE then Inl err else Inr []
                | Inr l \<Rightarrow> Inr l) of
             Inl err \<Rightarrow> (Ret (Inl err), w1, d)
           | Inr schelist \<Rightarrow>
               (case has_registered (GetPublicKey c1) schelist of
                  Panic \<Rightarrow> (Panic, w1, d)
                | Ret isReg \<Rightarrow>
                    if isReg then (Ret (Inr c1), w1, d)
                    else (case register G E D b58enc cfg c1 w1 d of
                        (Panic, _, w2, d2) \<Rightarrow> (Panic, w2, d2)
                      | (Ret (Some err), _, w2, d2) \<Rightarrow> (Ret (Inl err), w2, d2)
                      | (Ret None, c2, w2, d2) \<Rightarrow> (Ret (Inr c2), w2, d2)))))"

definition buildChain ::
    "('api, 'w) gsrpc \<Rightarrow> ('api, 'w) chain_init \<Rightarrow> conf_env \<Rightarrow> dir_env \<Rightarrow> (bytes \<Rightarrow> string) \<Rightarrow> confile \<Rightarrow> 'w \<Rightarrow> disk
     \<Rightarrow> ((go_error + 'api chainClient) outcome \<times> 'w \<times> disk) option" where
  "buildChain G I E D b58enc cfg w d =
     (case NewChainClient G I E (GetRpcAddr cfg) (GetCtrlPrk cfg) (GetStashAcc cfg) w of
        (Inl err, w1) \<Rightarrow> Some (Ret (Inl err), w1, d)
      | (Inr client, w1) \<Rightarrow>
          (case GetAccountInfo G (GetPublicKey client) client w1 of
             (Panic, _, w2) \<Rightarrow> Some (Panic, w2, d)
           | (Ret (Inl err), _, w2) \<Rightarrow> Some (Ret (Inl err), w2, d)
           | (Ret (Inr accountinfo), c2, w2) \<Rightarrow>
               if unat (ai_Free accountinfo) < MinimumBalance
               then Some (Ret (Inl (''Account balance is less than '' @ show_nat MinimumBalance @ '' pico'' @ newline)), w2, d)
               else (case sync_block G c2 w2 of
                   None \<Rightarrow> None
                 | Some (Panic, _, w3) \<Rightarrow> Some (Panic, w3, d)
                 | Some (Ret (Some err), _, w3) \<Rightarrow> Some (Ret (Inl err), w3, d)
                 | Some (Ret None, c3, w3) \<Rightarrow> Some (join_network G E D b58enc cfg c3 w3 d))))"

section \<open>The commands\<close>

text \<open>The path of the configuration file, from the two flags that are asked for.\<close>

definition config_path :: "string \<Rightarrow> string \<Rightarrow> string" where
  "config_path configpath1 configpath2 = (if configpath1 \<noteq> [] then configpath1 else configpath2)"

definition buildConfigFile :: "conf_env \<Rightarrow> string \<Rightarrow> string \<Rightarrow> (go_error + confile) outcome \<times> string list" where
  "buildConfigFile E flag1 flag2 =
     (case Parse E (config_path flag1 flag2) NewConfigfile of
        (Panic, _, made) \<Rightarrow> (Panic, made)
      | (Ret (Some err), _, made) \<Rightarrow> (Ret (Inl err), made)
      | (Ret None, cfg, made) \<Rightarrow> (Ret (Inr cfg), made))"

definition buildCache ::
    "(string \<Rightarrow> ldb_options \<Rightarrow> 's open_result) \<Rightarrow> (string \<Rightarrow> go_error + 's) \<Rightarrow> dir_env \<Rightarrow> string \<Rightarrow> go_error + 's LevelDB" where
  "buildCache openf recoverf D cacheDir =
     NewCache openf recoverf (\<lambda>p. if de_Stat D p then None else Some ''no such file or directory'') (de_MkdirAll D)
       cacheDir 0 0"

record ('api, 's) Node =
  nd_Confile :: confile
  nd_Chain :: "'api chainClient"
  nd_Logs :: logs
  nd_Cache :: "'s LevelDB"
  nd_FileDir :: string
  nd_TagDir :: string
  nd_FillerDir :: string

datatype 'n command_end = Exits nat | Crashes | Runs 'n

text \<open>
  \<open>runCmd\<close>: the end of the command, the key that is loaded from the cache, the world, the disk and
  what the new log files hold.  The store of the cache is opened by \<open>openf\<close> and \<open>recoverf\<close>, the map of
  log files is iterated in the order that \<open>order\<close> gives, and the error of \<open>SetKey\<close> is dropped.
\<close>

definition runCmd ::
    "('api, 'w) gsrpc \<Rightarrow> ('api, 'w) chain_init \<Rightarrow> conf_env \<Rightarrow> dir_env \<Rightarrow> (bytes \<Rightarrow> string)
     \<Rightarrow> (string \<Rightarrow> ldb_options \<Rightarrow> 's open_result) \<Rightarrow> (string \<Rightarrow> go_error + 's) \<Rightarrow> 's LevelDB Cacher
     \<Rightarrow> ((string \<times> string) list \<Rightarrow> (string \<times> string) list) \<Rightarrow> string \<Rightarrow> string \<Rightarrow> RSAKeyPair
     \<Rightarrow> 'w \<Rightarrow> disk \<Rightarrow> (('api, 's) Node command_end \<times> RSAKeyPair \<times> 'w \<times> disk \<times> log_output) option" where
  "runCmd G I E D b58enc openf recoverf C order flag1 flag2 key w d =
     (case fst (buildConfigFile E flag1 flag2) of
        Panic \<Rightarrow> Some (Crashes, key, w, d, [])
      | Ret (Inl _) \<Rightarrow> Some (Exits 1, key, w, d, [])
      | Ret (Inr cfg) \<Rightarrow>
          (case buildChain G I E D b58enc cfg w d of
             None \<Rightarrow> None
           | Some (Panic, w1, d1) \<Rightarrow> Some (Crashes, key, w1, d1, [])
           | Some (Ret (Inl _), w1, d1) \<Rightarrow> Some (Exits 1, key, w1, d1, [])
           | Some (Ret (Inr client), w1, d1) \<Rightarrow>
               (case buildDir D b58enc (ce_sum512 E) cfg client d1 of
                  (Inl _, d2) \<Rightarrow> Some (Exits 1, key, w1, d2, [])
                | (Inr dirs, d2) \<Rightarrow>
                    (case buildCache openf recoverf D (dirs ! 1) of
                       Inl _ \<Rightarrow> Some (Exits 1, key, w1, d2, [])
                     | Inr cache \<Rightarrow>
                         let key' = fst (SetKey C (Some cache) key) in
                         case NewLogs D (order (log_entries (dirs ! 0))) no_logs [] of
                           (Panic, out) \<Rightarrow> Some (Crashes, key', w1, d2, out)
                         | (Ret (Inl _), out) \<Rightarrow> Some (Exits 1, key', w1, d2, out)
                         | (Ret (Inr logs), out) \<Rightarrow>
                             Some (Runs \<lparr>nd_Confile = cfg, nd_Chain = client, nd_Logs = logs, nd_Cache = cache,
                                 nd_FileDir = dirs ! 3, nd_TagDir = dirs ! 4, nd_FillerDir = dirs ! 2\<rparr>,
                               key', w1, d2, out)))))"

text \<open>\<open>updateCmd\<close> on the arguments of the process and the two flags; the lines it logs are left out.\<close>

definition updateCmd ::
    "('api, 'w) gsrpc \<Rightarrow> ('api, 'w) chain_init \<Rightarrow> conf_env \<Rightarrow> string list \<Rightarrow> string \<Rightarrow> string \<Rightarrow> 'w
     \<Rightarrow> nat outcome \<times> 'w" where
  "updateCmd G I E Args flag1 flag2 w =
     (if length Args \<ge> 4 then
        if \<not> IsIPv4 (Args ! 2) then (Ret 1, w)
        else (case Atoi (Args ! 3) of
           (_, Some _) \<Rightarrow> (Ret 1, w)
         | (port, None) \<Rightarrow>
             if port < 1025 \<or> port > 65535 then (Ret 1, w)
             else (case Parse E (config_path flag1 flag2) NewConfigfile of
                (Panic, _, _) \<Rightarrow> (Panic, w)
              | (Ret (Some _), _, _) \<Rightarrow> (Ret 1, w)
              | (Ret None, cfg, _) \<Rightarrow>
                  (case NewChainClient G I E (GetRpcAddr cfg) (GetCtrlPrk cfg) (GetStashAcc cfg) w of
                     (Inl _, w1) \<Rightarrow> (Ret 1, w1)
                   | (Inr c, w1) \<Rightarrow>
                       (case Update G (Args ! 2) (Args ! 3) c w1 of
                          (Panic, _, w2) \<Rightarrow> (Panic, w2)
                        | (Ret (_, Some _), _, w2) \<Rightarrow> (Ret 1, w2)
                        | (Ret (_, None), _, w2) \<Rightarrow> (Ret 0, w2)))))
      else (Ret 1, w))"

text \<open>
  \<open>defaultCmd\<close>: the template is written to a file of the working directory; the three operations on
  it fail as the arguments say.
\<close>

definition defaultCmd ::
    "go_error + string \<Rightarrow> go_error option \<Rightarrow> (go_error \<times> nat) option \<Rightarrow> go_error option \<Rightarrow> disk \<Rightarrow> nat \<times> disk" where
  "defaultCmd wd openErr writeErr syncErr d =
     (case wd of
        Inl _ \<Rightarrow> (1, d)
      | Inr pwd \<Rightarrow>
          let path = filepath_Join [pwd, ConfigurationFileTemplateName] in
          case openErr of Some _ \<Rightarrow> (1, d)
          | None \<Rightarrow>
              (case writeErr of
                 Some (_, n) \<Rightarrow> (1, put_file path (take n (bytes_of_string ConfigurationFileTemplete)) d)
               | None \<Rightarrow>
                   (case syncErr of
                      Some _ \<Rightarrow> (1, put_file path (bytes_of_string ConfigurationFileTemplete) d)
                    | None \<Rightarrow> (0, put_file path (bytes_of_string ConfigurationFileTemplete) d))))"

section \<open>Before the commands\<close>

text \<open>
  \<open>init\<close> of initlz: the process exits off Linux and otherwise gives the program two thirds of the
  cores, at least one.
\<close>

definition init_cores :: "string \<Rightarrow> nat \<Rightarrow> nat option" where
  "init_cores GOOS NumCPU =
     (if GOOS \<noteq> ''linux'' then None
      else let num = NumCPU * 2 div 3 in if num \<le> 1 then Some 1 else Some num)"

lemma init_cores_bounds: "init_cores GOOS n = Some k \<Longrightarrow> 1 \<le> k \<and> (1 \<le> n \<longrightarrow> k \<le> n)"
  by (auto simp: init_cores_def Let_def split: if_splits)

end
