(* ===== verification/ConsoleProps.thy ===== *)
theory ConsoleProps
  imports Console
begin

text \<open>
  What the start of the node changes: which registration goes to the chain and when, which files a
  restart deletes, and what the update command sends.
\<close>

section \<open>Registration\<close>

lemma query_latest_log: "snd (snd (snd (query_latest (logged G) p it arg dec c (w, l)))) = l"
  by (cases "CreateStorageKey (logged G) p it arg"; cases "cc_api c";
      cases "rpc_GetStorageLatest G (the (cc_api c)) (projr (CreateStorageKey (logged G) p it arg)) w")
    (auto simp: query_latest_def split: sum.split option.split)

lemma with_connection_log_empty:
  assumes "\<And>c w. Q (snd (snd (snd (body c (w, [])))))" "Q []"
  shows "Q (snd (snd (snd (with_connection (logged G) fl body c (w, [])))))"
proof -
  obtain ok c1 w1 l1 where ok: "IsChainClientOk (logged G) c (w, []) = (ok, c1, (w1, l1))"
    by (cases "IsChainClientOk (logged G) c (w, [])") auto
  then have "l1 = []" using IsChainClientOk_log [of G c w "[]"] by simp
  with ok assms show ?thesis by (simp add: with_connection_def)
qed

lemma GetAllSchedulerInfo_log: "snd (snd (snd (GetAllSchedulerInfo (logged G) c (w, l)))) = l"
  unfolding GetAllSchedulerInfo_def
  by (rule with_connection_log [where P = "\<lambda>l l'. l' = l"]) (simp_all add: query_latest_log)

text \<open>The submissions of one registration.\<close>

definition registrations :: "conf_env \<Rightarrow> confile \<Rightarrow> (tx_call \<times> u32) list \<Rightarrow> bool" where
  "registrations E cfg l =
     (length l \<le> 21 \<and> (\<forall>(call, n) \<in> set l. \<exists>acc octets port.
        call = Call_Register acc \<lparr>ip_Index = 0, ip_Value = octets, ip_Port = port\<rparr> \<and>
        DecodePublicKeyOfCessAccount (ce_b58dec E) (ce_sum512 E) (cf_StashAcc cfg) = Inr acc \<and>
        ipv4_octets (cf_ServiceAddr cfg) = Ret octets \<and> unat port = unat (cf_ServicePort cfg)))"

lemma registrations_Nil [simp]: "registrations E cfg []"
  by (simp add: registrations_def)

lemma service_port_fits:
  assumes "valid_values E cfg"
  shows "unat (ucast (cf_ServicePort cfg) :: u16) = unat (cf_ServicePort cfg)"
  using assms by (simp add: valid_values_def unsigned_ucast_eq take_bit_nat_eq_self)

lemma NewAccountID_id: "NewAccountID pk = Inr acc \<Longrightarrow> acc = pk"
  by (auto simp: NewAccountID_def split: if_splits)

lemma Register_log:
  assumes "valid_values E cfg"
  shows "registrations E cfg (snd (snd (snd (Register (logged G) (ce_b58dec E) (ce_sum512 E) (cf_StashAcc cfg)
     (cf_ServiceAddr cfg) (ucast (cf_ServicePort cfg)) c (w, [])))))"
proof -
  show ?thesis
    unfolding Register_def
  proof (rule with_connection_log_empty, goal_cases)
    case (1 c w)
    obtain acc where acc: "DecodePublicKeyOfCessAccount (ce_b58dec E) (ce_sum512 E) (cf_StashAcc cfg) = Inr acc"
      using assms by (auto simp: valid_values_def)
    show ?case
    proof (cases "\<exists>octets. IsIPv4 (cf_ServiceAddr cfg) \<and> ipv4_octets (cf_ServiceAddr cfg) = Ret octets \<and> NewAccountID acc = Inr acc")
      case True
      then obtain octets where o: "IsIPv4 (cf_ServiceAddr cfg)" "ipv4_octets (cf_ServiceAddr cfg) = Ret octets"
        "NewAccountID acc = Inr acc" by blast
      let ?call = "Call_Register acc \<lparr>ip_Index = 0, ip_Value = octets, ip_Port = ucast (cf_ServicePort cfg)\<rparr>"
      have regs: "registrations E cfg l'" if "l' = [] \<or> (\<exists>n k. l' = (?call, n) # replicate k (?call, n + 1) \<and> k \<le> 20)" for l'
        using that acc o service_port_fits [OF assms] by (auto simp: registrations_def)
      have "registrations E cfg (snd (snd (snd (submit_tx (logged G) T name ex ?call c (w, [])))))" for T name ex
        using submit_tx_log_retry [of G T name ex ?call c w "[]"] by (intro regs) simp
      then show ?thesis by (simp add: acc o)
    next
      case False
      then show ?thesis
        by (auto simp: acc split: outcome.split sum.split dest: NewAccountID_id)
    qed
  qed simp
qed

text \<open>
  C23: registration.  After the synchronisation the start asks for the schedulers of the chain.  If one
  of them is run by the account of this node, the client is returned, nothing is submitted and no file
  is touched.  Otherwise every transaction that is submitted, and there are at most 21, registers the
  stash account of the configuration with the octets of its service address and with exactly its
  service port, which \<open>Parse\<close> has checked to fit 16 bits; files are deleted only after the
  registration succeeded.
\<close>
theorem registration_as_configured:
  assumes "valid_values E cfg" "join_network (logged G) E D b58enc cfg c (w, []) d = (r, (w', l), d')"
  shows "registrations E cfg l \<and> (d' \<noteq> d \<longrightarrow> (\<exists>c'. r = Ret (Inr c'))) \<and>
    (\<forall>sl c1 w1. GetAllSchedulerInfo (logged G) c (w, []) = (Ret (Inr sl), c1, w1) \<and>
        has_registered (cc_publicKey c1) sl = Ret True \<longrightarrow> r = Ret (Inr c1) \<and> l = [] \<and> d' = d)"
proof -
  obtain s c1 w1 l1 where s: "GetAllSchedulerInfo (logged G) c (w, []) = (s, c1, (w1, l1))"
    by (cases "GetAllSchedulerInfo (logged G) c (w, [])") auto
  have l1: "l1 = []" using GetAllSchedulerInfo_log [of G c w "[]"] s by simp
  obtain q c2 w2 l2 d2 where q: "register (logged G) E D b58enc cfg c1 (w1, []) d = (q, c2, (w2, l2), d2)"
    by (cases "register (logged G) E D b58enc cfg c1 (w1, []) d") auto
  have reg: "registrations E cfg l2 \<and> (d2 \<noteq> d \<longrightarrow> q = Ret None)"
    using q Register_log [OF assms(1), of G c1 w1]
    by (auto simp: register_def confile_getters Let_def split: prod.splits outcome.splits option.splits)
  show ?thesis
    using assms(2) reg
    by (auto simp: join_network_def s l1 q GetPublicKey_def split: outcome.splits sum.splits if_splits option.splits)
qed

definition sample_conf :: confile where
  "sample_conf = \<lparr>cf_RpcAddr = ''wss://rpc'', cf_ServiceAddr = ''10.1.2.3'', cf_ServicePort = 15000, cf_SgxPort = 80,
     cf_DataDir = ''/data'', cf_CtrlPrk = ''seed'', cf_StashAcc = ''stash''\<rparr>"

definition sample_system :: conf_env where
  "sample_system = \<lparr>ce_Stat = (\<lambda>p. Inr (p = ''/data'')), ce_ReadInConfig = (\<lambda>_ _. None),
     ce_Unmarshal = (\<lambda>_ _ _. (sample_conf, None)), ce_KeyringPair = (\<lambda>s. Inr (replicate 32 7, s)),
     ce_MkdirAll = (\<lambda>_. None), ce_b58dec = (\<lambda>_. 0x50 # 0 # replicate 32 7 @ [0, 0]),
     ce_sum512 = (\<lambda>_. replicate 64 0)\<rparr>"

definition smooth_dirs :: dir_env where
  "smooth_dirs = \<lparr>de_Getwd = Some ''/'', de_Stat = (\<lambda>_. False), de_MkdirAll = (\<lambda>_. None), de_Keeps = (\<lambda>_ _. False)\<rparr>"

lemma sample_stash:
  "DecodePublicKeyOfCessAccount (ce_b58dec sample_system) (ce_sum512 sample_system) stash = Inr (replicate 32 7)"
  by (simp add: sample_system_def DecodePublicKeyOfCessAccount_def DecodePublicKey_def VerityAddress_def CessPrefix_def
      SSPrefix_def subslice_def Let_def eval_nat_numeral)

lemma sample_conf_valid: "valid_values sample_system sample_conf"
  by (simp add: valid_values_def sample_stash) (simp add: sample_conf_def sample_system_def)

lemma registration_as_configured_witness:
  "\<exists>r w' l d'. join_network (logged sample_node) sample_system smooth_dirs (\<lambda>_. ''me'') sample_conf sample_client (True, []) []
       = (r, (w', l), d') \<and> registrations sample_system sample_conf l"
proof -
  obtain r w' l d' where j: "join_network (logged sample_node) sample_system smooth_dirs (\<lambda>_. ''me'') sample_conf
      sample_client (True, []) [] = (r, (w', l), d')"
    by (cases "join_network (logged sample_node) sample_system smooth_dirs (\<lambda>_. ''me'') sample_conf
      sample_client (True, []) []") auto
  show ?thesis using registration_as_configured [OF sample_conf_valid j] j by blast
qed

section \<open>Restart\<close>

lemma content_RemoveAll:
  "\<not> de_Keeps D p q \<Longrightarrow> content (RemoveAll D p d) q = (if under p q then None else content d q)"
  by (induction d) (auto simp: RemoveAll_def content_def)

text \<open>
  a restart keeps the cache and the stored files and forgets the fillers and tags.  When the
  directories have been built, they are the five subdirectories of the base directory of the account;
  every file under the filler or the tag directory is gone and every other file, those under the cache,
  file and log directories included, is as it was.
\<close>
theorem restart_keeps_cache_and_files:
  assumes "buildDir D b58enc sum512 cfg client d = (Inr dirs, d')" "\<And>p q. \<not> de_Keeps D p q"
  shows "\<exists>acc base. GetCessAccount b58enc sum512 client = Inr acc \<and>
     base = filepath_Join [cf_DataDir cfg, acc, ''scheduler''] \<and>
     dirs = map (\<lambda>s. filepath_Join [base, s]) [''log'', ''cache'', ''filler'', ''file'', ''tag''] \<and>
     (\<forall>q. content d' q = (if under (filepath_Join [base, ''filler'']) q \<or> under (filepath_Join [base, ''tag'']) q
        then None else content d q))"
proof -
  obtain acc where acc: "GetCessAccount b58enc sum512 client = Inr acc"
    using assms(1) by (cases "GetCessAccount b58enc sum512 client") (simp_all add: buildDir_def)
  define base where "base = filepath_Join [GetDataDir cfg, acc, BaseDir]"
  have "dirs = map (\<lambda>s. filepath_Join [base, s]) [LogDir, CacheDir, FillerDir, FileDir, TagDir] \<and>
      d' = RemoveAll D (filepath_Join [base, TagDir]) (RemoveAll D (filepath_Join [base, FillerDir]) d)"
    using assms(1)
    by (simp add: buildDir_def acc Let_def base_def [symmetric] split: if_splits option.splits)
  then show ?thesis
    using acc assms(2)
    by (simp add: content_RemoveAll base_def GetDataDir_def BaseDir_def NameSpace_def LogDir_def CacheDir_def
        FillerDir_def FileDir_def TagDir_def)
qed

lemma restart_keeps_cache_and_files_witness:
  "\<exists>dirs d'. buildDir smooth_dirs (\<lambda>_. ''me'') (\<lambda>_. replicate 64 0) sample_conf sample_client [(''/a'', [1])] = (Inr dirs, d') \<and>
     content d' ''/a'' = Some [1]"
proof -
  have "GetCessAccount (\<lambda>_. ''me'') (\<lambda>_. replicate 64 0) sample_client = Inr ''me''"
    by (simp add: GetCessAccount_def EncodePublicKeyAsCessAccount_def EncodePublicKey_def sample_client_def)
  then obtain dirs d' where b: "buildDir smooth_dirs (\<lambda>_. ''me'') (\<lambda>_. replicate 64 0) sample_conf sample_client [(''/a'', [1])]
      = (Inr dirs, d')"
    by (simp add: buildDir_def smooth_dirs_def Let_def)
  have base: "filepath_Join [cf_DataDir sample_conf, ''me'', ''scheduler''] = ''/data/me/scheduler''"
    "filepath_Join [''/data/me/scheduler'', ''filler''] = ''/data/me/scheduler/filler''"
    "filepath_Join [''/data/me/scheduler'', ''tag''] = ''/data/me/scheduler/tag''"
    by (simp_all add: sample_conf_def filepath_Join_def filepath_Clean_def Let_def)
  show ?thesis
    using restart_keeps_cache_and_files [OF b] b \<open>GetCessAccount _ _ _ = _\<close>
    by (auto simp: smooth_dirs_def base under_def content_def)
qed

section \<open>The update command\<close>

text \<open>
  the update command.  Its arguments are the address and the port, at the third and fourth place.
  A port below 1025 ends the command with exit code 1 before anything is read, 1024 included, which
  the configuration file and the message allow.  From 1025 on, with a configuration that parses and a
  client, it submits exactly the octets and the port that were given, and its exit code is 0 exactly
  if that returns without an error.
\<close>
theorem update_command_effect:
  assumes "Parse E (config_path f1 f2) NewConfigfile = (Ret None, cfg, made)"
    and "NewChainClient G I E (cf_RpcAddr cfg) (cf_CtrlPrk cfg) (cf_StashAcc cfg) w = (Inr client, w1)"
  shows "updateCmd G I E (prog # cmd # show_ipv4 a b c d # show_nat (unat (port :: u16)) # rest) f1 f2 w =
    (if unat port < 1025 then (Ret 1, w)
     else case with_connection G no_connection (submit_tx G texts_bracketed TX_TEEWORKER_UPDATE
            (\<lambda>ev. length (filter is_UpdateScheduler (ev_TeeWorker ev)) > 0)
            (Call_UpdateScheduler \<lparr>ip_Index = 0, ip_Value = [a, b, c, d], ip_Port = port\<rparr>)) client w1 of
        (Panic, _, w2) \<Rightarrow> (Panic, w2)
      | (Ret (_, err), _, w2) \<Rightarrow> (Ret (if err = None then 0 else 1), w2))"
proof -
  have lt: "unat port < 2 ^ 16" using unsigned_less [of port, where 'a = nat] by simp
  then have atoi: "Atoi (show_nat (unat port)) = (int (unat port), None)" by (simp add: Atoi_show_nat)
  have ip: "IsIPv4 (show_ipv4 a b c d)" by simp
  have lt': "\<not> 65535 < uint port" using uint_lt2p [of port] by simp
  have conv: "unat port < 1025 \<longleftrightarrow> uint port < 1025"
    using of_nat_less_iff [of "unat port" 1025, where 'a = int] by simp
  show ?thesis
    using assms lt'
    by (auto simp: updateCmd_def atoi ip conv update_sends_address confile_getters split: prod.split outcome.split option.split)
qed

lemma update_command_effect_witness:
  "fst (updateCmd sample_node \<lparr>ci_MetadataLatest = (\<lambda>_ w. (None, w)), ci_GenesisHash = (\<lambda>_ w. (None, w)), ci_RuntimeVersion = (\<lambda>_ w. (None, w))\<rparr>
     sample_system [''scheduler'', ''update'', show_ipv4 10 0 0 1, show_nat (unat (1024 :: u16))] ''/c.toml'' [] True) = Ret 1"
  (is "fst (updateCmd _ ?I _ _ _ _ _) = _")
proof -
  have p: "Parse sample_system (config_path ''/c.toml'' []) NewConfigfile = (Ret None, sample_conf, [])"
  proof -
    have "check_values sample_system sample_conf = None" using sample_conf_valid by (simp add: check_values_None)
    moreover have "check_DataDir sample_system sample_conf = (None, [])"
      by (simp add: check_DataDir_def sample_system_def sample_conf_def)
    moreover have "ce_Stat sample_system ''/c.toml'' = Inr False" "ce_ReadInConfig sample_system p e = None"
      "ce_Unmarshal sample_system p e c = (sample_conf, None)" for p e c
      by (simp_all add: sample_system_def)
    ultimately show ?thesis by (simp add: Parse_def parse_file_def config_path_def filepath_Ext_def)
  qed
  obtain cl where n: "NewChainClient sample_node ?I sample_system (cf_RpcAddr sample_conf) (cf_CtrlPrk sample_conf)
      (cf_StashAcc sample_conf) True = (Inr cl, True)"
    by (simp add: NewChainClient_def sample_node_def sample_system_def sample_conf_def)
  show ?thesis using update_command_effect [OF p n, of "''scheduler''" "''update''" 10 0 0 1 1024 "[]"] by simp
qed

end
