(* ===== verification/Service.thy ===== *)
theory Service
  imports FillerProps ConsoleProps Tasks
begin

text \<open>
  The node as a service: the HTTP server of the tag callback (node/callback.go, node/route.go), the start of
  the node with its two listeners (node/node.go), and the two goroutines of a connection that
  \<open>Start\<close> and \<open>SendFile\<close> join (node/handler.go).  gin, the CORS middleware and the network are parameters.
\<close>

section \<open>The callback server\<close>

record cors_config =
  co_AllowAllOrigins :: bool
  co_AllowMethods :: "string list"
  co_AllowHeaders :: "string list"

text \<open>An engine of gin: its mode, the middleware it was given, its routes with their handlers, and its address.\<close>

record 'h engine =
  gin_mode :: string
  gin_cors :: "cors_config list"
  gin_routes :: "(string \<times> string \<times> 'h) list"
  gin_addr :: "string option"

definition gin_Default :: "string \<Rightarrow> 'h engine" where
  "gin_Default mode = \<lparr>gin_mode = mode, gin_cors = [], gin_routes = [], gin_addr = None\<rparr>"

definition AddRoute :: "'h \<Rightarrow> 'h engine \<Rightarrow> 'h engine" where
  "AddRoute getTag cb = cb\<lparr>gin_routes := gin_routes cb @ [(''POST'', GetTagRoute_Callback, getTag)]\<rparr>"

text \<open>\<open>AddAllowHeaders\<close> of the middleware appends to the headers of its default configuration.\<close>

definition AddAllowHeaders :: "string \<Rightarrow> cors_config \<Rightarrow> cors_config" where
  "AddAllowHeaders h config = config\<lparr>co_AllowHeaders := co_AllowHeaders config @ [h]\<rparr>"

definition StartCallback :: "cors_config \<Rightarrow> 'h \<Rightarrow> 'h engine" where
  "StartCallback DefaultConfig getTag =
     (let cb = gin_Default ''release'';
          config = AddAllowHeaders ''*'' (DefaultConfig\<lparr>co_AllowAllOrigins := True, co_AllowMethods := [''POST'', ''OPTIONS'']\<rparr>);
          cb = AddRoute getTag (cb\<lparr>gin_cors := gin_cors cb @ [config]\<rparr>) in
      cb\<lparr>gin_addr := Some ('':'' @ show_nat SgxCallBackPort)\<rparr>)"

text \<open>
  What gin documents of its dispatch, for routes without parameters: the handler of the one route with the method and the
  path of the request, and none when no route has them.
\<close>

definition plain_path :: "string \<Rightarrow> bool" where
  "plain_path p = (CHR '':'' \<notin> set p \<and> CHR ''*'' \<notin> set p)"

locale gin_router =
  fixes dispatch :: "(string \<times> string \<times> 'h) list \<Rightarrow> string \<Rightarrow> string \<Rightarrow> 'h option"
  assumes routed: "list_all (\<lambda>(m, p, h). plain_path p) routes \<Longrightarrow> (m, p, h) \<in> set routes \<Longrightarrow>
      distinct (map (\<lambda>(m, p, h). (m, p)) routes) \<Longrightarrow> dispatch routes m p = Some h"
    and not_routed: "list_all (\<lambda>(m, p, h). plain_path p) routes \<Longrightarrow> (\<forall>h. (m, p, h) \<notin> set routes) \<Longrightarrow> dispatch routes m p = None"
begin

lemma callback_dispatch:
  "dispatch (gin_routes (StartCallback config h)) m p = (if m = ''POST'' \<and> p = ''/tag'' then Some h else None)"
proof -
  have routes: "gin_routes (StartCallback config h) = [(''POST'', ''/tag'', h)]"
    by (simp add: StartCallback_def AddRoute_def gin_Default_def GetTagRoute_Callback_def)
  have plain: "list_all (\<lambda>(m, p, h). plain_path p) [(''POST'', ''/tag'', h)]" by (simp add: plain_path_def)
  show ?thesis
    using routed [OF plain, of "''POST''" "''/tag''" h] not_routed [OF plain, of m p] unfolding routes by auto
qed

end

text \<open>A router of the kind.\<close>

definition first_route :: "(string \<times> string \<times> 'h) list \<Rightarrow> string \<Rightarrow> string \<Rightarrow> 'h option" where
  "first_route routes m p = map_of (map (\<lambda>(m, p, h). ((m, p), h)) routes) (m, p)"

interpretation first: gin_router first_route
proof
  fix routes :: "(string \<times> string \<times> 'h) list" and m p h
  have keys: "map fst (map (\<lambda>(m, p, h). ((m, p), h)) routes) = map (\<lambda>(m, p, h). (m, p)) routes" by auto
  show "first_route routes m p = Some h"
    if "(m, p, h) \<in> set routes" "distinct (map (\<lambda>(m, p, h). (m, p)) routes)"
    unfolding first_route_def
    by (rule map_of_is_SomeI) (use that in \<open>simp only: keys, force\<close>)
  show "first_route routes m p = None" if "\<forall>h. (m, p, h) \<notin> set routes"
    using that by (force simp: first_route_def map_of_eq_None_iff)
qed

section \<open>The start of the node\<close>

text \<open>
  \<open>Run\<close> from its beginning: the callback is started, the manager of the tasks, and then the listener of the service, whose
  address must resolve and be free.  The result is the callback engine, the tasks, the streams on which servers are
  started and whether the process exits.
\<close>

definition Node_Run ::
  "cors_config \<Rightarrow> 'h \<Rightarrow> (string \<Rightarrow> go_error + 'a) \<Rightarrow> ('a \<Rightarrow> go_error option) \<Rightarrow> confile \<Rightarrow> accept list
   \<Rightarrow> 'h engine \<times> manager \<times> bytes list \<times> bool" where
  "Node_Run DefaultConfig getTag ResolveTCPAddr ListenTCP conf accepts =
     (let cb = StartCallback DefaultConfig getTag; tasks = started in
      case ResolveTCPAddr ('':'' @ show_nat (unat (GetServicePort conf))) of
        Inl err \<Rightarrow> (cb, tasks, [], True)
      | Inr tcpAddr \<Rightarrow>
          (case ListenTCP tcpAddr of
             Some err \<Rightarrow> (cb, tasks, [], True)
           | None \<Rightarrow> (cb, tasks, Run accepts)))"

section \<open>The goroutines of a connection\<close>

text \<open>
  The manager of a connection, without the connection itself: its directory, the files a client is to send, and the channel of
  capacity one for the notifications of the peer.
\<close>

record ConMgr =
  mg_dir :: string
  mg_sendFiles :: "string list"
  mg_waitNotify :: "bool list"

definition NewServer :: "string \<Rightarrow> ConMgr" where
  "NewServer dir = \<lparr>mg_dir = dir, mg_sendFiles = [], mg_waitNotify = []\<rparr>"

definition NewClient :: "string \<Rightarrow> string list \<Rightarrow> ConMgr" where
  "NewClient dir files = \<lparr>mg_dir = dir, mg_sendFiles = files, mg_waitNotify = []\<rparr>"

definition SetFiles :: "string list \<Rightarrow> ConMgr \<Rightarrow> ConMgr" where
  "SetFiles files c = c\<lparr>mg_sendFiles := files\<rparr>"

text \<open>
  How the loop of \<open>handler\<close> ends: it returns an error or nil, or panics with a value that prints as the text.  The deferred
  function records a panic, and the result of the function is then nil.
\<close>

datatype handler_end = Returns "go_error option" | Panics string

definition handler_deferred :: "logs \<Rightarrow> caller \<Rightarrow> string option \<Rightarrow> handler_end \<Rightarrow> log_output \<Rightarrow> go_error option \<times> log_output" where
  "handler_deferred l at stack r out =
     (case r of
        Returns err \<Rightarrow> (err, out)
      | Panics v \<Rightarrow> (None, Pnc l at ''error'' (Some (RecoverError stack v)) out))"

text \<open>
  \<open>Start\<close> runs the handler on its own goroutine and waits for the two of the transport; \<open>waited\<close> says that they
  end.  What it logs, or no value when it never returns.
\<close>

definition Start_conn ::
  "logs \<Rightarrow> caller \<Rightarrow> caller \<Rightarrow> caller \<Rightarrow> string option \<Rightarrow> string \<Rightarrow> bool \<Rightarrow> handler_end \<Rightarrow> log_output \<Rightarrow> log_output option" where
  "Start_conn l at1 at2 at3 stack remote waited r out =
     (case handler_deferred l at1 stack r out of
        (err, out1) \<Rightarrow>
          (let out2 = (if err \<noteq> None then Common l at2 ''error'' err out1 else out1) in
           if waited then Some (Common l at3 ''info'' (Some (''Close a conn: '' @ remote)) out2) else None))"

text \<open>
  \<open>SendFile\<close> runs the handler beside the sending and returns the result of the sending.  The handler's
  goroutine, which nothing waits for, may log its error before or after the closing line.
\<close>

definition SendFile_conn ::
  "logs \<Rightarrow> caller \<Rightarrow> caller \<Rightarrow> caller \<Rightarrow> string option \<Rightarrow> bool \<Rightarrow> handler_end \<Rightarrow> bool \<Rightarrow> go_error option \<Rightarrow> log_output
   \<Rightarrow> (go_error option \<times> log_output) option" where
  "SendFile_conn l at1 at2 at3 stack waited r handler_first sent out =
     (let handler_logs = (\<lambda>out. case handler_deferred l at1 stack r out of
            (err, out1) \<Rightarrow> if err \<noteq> None then Spc l at2 ''err'' err out1 else out1);
          closing = Spc l at3 ''info'' (Some ''Connection closed'') in
      if waited then Some (sent, if handler_first then closing (handler_logs out) else handler_logs (closing out)) else None)"

section \<open>What a connection leaves in the log\<close>

lemma log_files_of_start:
  assumes "NewLogs D es no_logs [] = (Ret (Inr l), out0)" "mset es = mset (log_entries logDir)"
  shows "lg_log l ''common'' = Some (filepath_Join [logDir, ''common.log''])"
    and "lg_log l ''panic'' = Some (filepath_Join [logDir, ''panic.log''])"
    and "lg_log l ''space'' = Some (filepath_Join [logDir, ''space.log''])"
  using buildLogs_files [OF assms] by (simp_all add: LogFiles_def)

definition closing_line :: "string \<Rightarrow> caller \<Rightarrow> string \<Rightarrow> string \<times> log_level \<times> string" where
  "closing_line logDir at remote = (filepath_Join [logDir, ''common.log''], Info, log_line at (Some (''Close a conn: '' @ remote)))"

text \<open>
  A connection that ends leaves its closing line.  An error of its handler stands before it, a panic with its
  stack goes to the panic file, and is not reported as an error of the connection.
\<close>

theorem connection_is_logged:
  assumes "NewLogs D es no_logs [] = (Ret (Inr l), out0)" "mset es = mset (log_entries logDir)"
  shows "Start_conn l at1 at2 at3 stack remote True (Returns None) out = Some (out @ [closing_line logDir at3 remote])"
    and "Start_conn l at1 at2 at3 stack remote True (Returns (Some e)) out
      = Some (out @ [(filepath_Join [logDir, ''common.log''], Error, log_line at2 (Some e)), closing_line logDir at3 remote])"
    and "Start_conn l at1 at2 at3 stack remote True (Panics v) out
      = Some (out @ [(filepath_Join [logDir, ''panic.log''], Error, log_line at1 (Some (RecoverError stack v))), closing_line logDir at3 remote])"
  using log_files_of_start [OF assms(1,2)]
  by (simp_all add: Start_conn_def handler_deferred_def Common_def Pnc_def closing_line_def)

section \<open>The callback and its request\<close>

lemma show_callback_port [simp]: "show_nat 15001 = ''15001''"
  by (simp add: show_nat.simps digit_char_def char_of_eq_iff take_bit_nat_def)

lemma callback_addr: "gin_addr (StartCallback config h) = Some '':15001''"
  by (simp add: StartCallback_def SgxCallBackPort_def Let_def)

text \<open>
  The enclave is told to post its answer where it is taken.  The request for a tag names a callback at the
  service address, the port the callback server listens on, and a path whose only method, POST, is
  routed to the handler of tags.
\<close>

theorem tag_request_names_its_callback:
  assumes "gin_router dispatch"
  shows "\<exists>body path. getTagReq http fpath (int BlockSize) SgxCallBackPort (callTagUrl conf) GetTagRoute_Callback (GetServiceAddr conf)
        = http (callTagUrl conf) body
      \<and> parse_json (string_of_bytes body) = Some (JObj [(''file_path'', JStr (''/sgx'' @ fpath)), (''block_size'', json_int 2048),
          (''callback_url'', JStr (''http://'' @ cf_ServiceAddr conf @ the (gin_addr (StartCallback config h)) @ path))])
      \<and> (\<forall>m. dispatch (gin_routes (StartCallback config h)) m path = (if m = ''POST'' then Some h else None))"
proof -
  define body where "body = bytes_of_string (print_json (json_of_request
      \<lparr>rq_FilePath = SgxMappingPath @ fpath, rq_BlockSize = int BlockSize,
       rq_CallbackUrl = ''http://'' @ GetServiceAddr conf @ '':'' @ show_nat SgxCallBackPort @ GetTagRoute_Callback\<rparr>))"
  have ok: "json_ok (json_of_request param)" for param by (simp add: json_of_request_def)
  have "asks_tag conf fpath body"
    unfolding asks_tag_def body_def string_of_bytes_of_string parse_json_print [OF ok]
    by (simp add: json_of_request_def GetServiceAddr_def route_defs size_defs)
  then have "parse_json (string_of_bytes body) = Some (JObj [(''file_path'', JStr (''/sgx'' @ fpath)), (''block_size'', json_int 2048),
      (''callback_url'', JStr (''http://'' @ cf_ServiceAddr conf @ the (gin_addr (StartCallback config h)) @ ''/tag''))])"
    by (simp add: asks_tag_def callback_addr)
  moreover have "getTagReq http fpath (int BlockSize) SgxCallBackPort (callTagUrl conf) GetTagRoute_Callback (GetServiceAddr conf)
      = http (callTagUrl conf) body"
    by (simp add: getTagReq_def body_def)
  moreover have "dispatch (gin_routes (StartCallback config h)) m ''/tag'' = (if m = ''POST'' then Some h else None)" for m
    using gin_router.callback_dispatch [OF assms, of config h m "''/tag''"] by simp
  ultimately show ?thesis by blast
qed

theorem tag_request_names_its_callback_witness:
  "\<exists>body path. getTagReq (\<lambda>url body. Some url) ''/f'' (int BlockSize) SgxCallBackPort (callTagUrl demo_conf) GetTagRoute_Callback (GetServiceAddr demo_conf)
        = Some (callTagUrl demo_conf)
      \<and> parse_json (string_of_bytes body) = Some (JObj [(''file_path'', JStr (''/sgx'' @ ''/f'')), (''block_size'', json_int 2048),
          (''callback_url'', JStr (''http://'' @ cf_ServiceAddr demo_conf
            @ the (gin_addr (StartCallback \<lparr>co_AllowAllOrigins = False, co_AllowMethods = [], co_AllowHeaders = []\<rparr> (1 :: nat))) @ path))])
      \<and> (\<forall>m. first_route (gin_routes (StartCallback \<lparr>co_AllowAllOrigins = False, co_AllowMethods = [], co_AllowHeaders = []\<rparr> (1 :: nat))) m path
          = (if m = ''POST'' then Some 1 else None))"
  using tag_request_names_its_callback [OF first.gin_router_axioms, of "\<lambda>url body. Some url" "''/f''" demo_conf
      "\<lparr>co_AllowAllOrigins = False, co_AllowMethods = [], co_AllowHeaders = []\<rparr>" 1] by blast

text \<open>
  The port of the callback is not reserved.  A configuration stays valid when its service port is set to
  15001, but its node cannot serve: where the callback server already listens the listener of the service is refused, and
  the process exits when the callback and the tasks have been started.
\<close>

theorem callback_port_cannot_serve:
  assumes "valid_values E c" "ListenTCP (the (gin_addr (StartCallback config h))) = Some in_use"
  shows "valid_values E (c\<lparr>cf_ServicePort := 15001\<rparr>)
     \<and> Node_Run config h Inr ListenTCP (c\<lparr>cf_ServicePort := 15001\<rparr>) accepts = (StartCallback config h, started, [], True)"
  using assms by (simp add: valid_values_def Node_Run_def callback_addr GetServicePort_def Let_def)

theorem callback_port_cannot_serve_witness:
  "valid_values sample_system (sample_conf\<lparr>cf_ServicePort := 15001\<rparr>)
     \<and> Node_Run \<lparr>co_AllowAllOrigins = False, co_AllowMethods = [], co_AllowHeaders = []\<rparr> (1 :: nat) Inr
         (\<lambda>a. if a = '':15001'' then Some ''address already in use'' else None) (sample_conf\<lparr>cf_ServicePort := 15001\<rparr>) []
       = (StartCallback \<lparr>co_AllowAllOrigins = False, co_AllowMethods = [], co_AllowHeaders = []\<rparr> 1, started, [], True)"
  by (rule callback_port_cannot_serve) (simp_all add: callback_addr sample_conf_valid)

end
