(* ===== verification/CommandLine.thy ===== *)
theory CommandLine
  imports ConsoleProps
begin

text \<open>
  The commands of the program and \<open>Execute\<close> (cmd/console/main.go, cmd/main.go).  cobra, which finds the
  command of a command line and takes the flags from it, is a parameter; a command ends with a value of
  a type that the model leaves open, of which \<open>os.Exit\<close> is one function and \<open>Println\<close>, which
  prints before the rest, another.
\<close>

section \<open>The commands\<close>

record 'r command =
  cmd_Use :: string
  cmd_Short :: string
  cmd_Run :: "(string \<Rightarrow> string) \<Rightarrow> string list \<Rightarrow> 'r"
  cmd_DisableFlagsInUseLine :: bool

text \<open>The values of the flags by their names, and the arguments without the flags.\<close>

type_synonym 'r runner = "(string \<Rightarrow> string) \<Rightarrow> string list \<Rightarrow> 'r"

definition versionCommand :: "(string \<Rightarrow> 'r \<Rightarrow> 'r) \<Rightarrow> (nat \<Rightarrow> 'r) \<Rightarrow> 'r command" where
  "versionCommand Println os_Exit =
     \<lparr>cmd_Use = ''version'', cmd_Short = ''Print version information'',
      cmd_Run = (\<lambda>flags args. Println (Name @ '' '' @ Version) (os_Exit 0)), cmd_DisableFlagsInUseLine = True\<rparr>"

definition defaultCommand :: "'r runner \<Rightarrow> 'r command" where
  "defaultCommand run = \<lparr>cmd_Use = ''default'', cmd_Short = ''Generate configuration file template'', cmd_Run = run,
      cmd_DisableFlagsInUseLine = True\<rparr>"

definition runCommand :: "'r runner \<Rightarrow> 'r command" where
  "runCommand run = \<lparr>cmd_Use = ''run'', cmd_Short = ''Operation scheduling service'', cmd_Run = run,
      cmd_DisableFlagsInUseLine = True\<rparr>"

definition updateCommand :: "'r runner \<Rightarrow> 'r command" where
  "updateCommand run =
     \<lparr>cmd_Use = ''update <ipv4> <port>'', cmd_Short = ''Update scheduling service ip and port'', cmd_Run = run,
      cmd_DisableFlagsInUseLine = True\<rparr>"

definition rootCmd :: "string \<times> string" where
  "rootCmd = (Name, Description)"

definition root_commands :: "(string \<Rightarrow> 'r \<Rightarrow> 'r) \<Rightarrow> (nat \<Rightarrow> 'r) \<Rightarrow> 'r runner \<Rightarrow> 'r runner \<Rightarrow> 'r runner \<Rightarrow> 'r command list" where
  "root_commands Println os_Exit default_run run_run update_run =
     [versionCommand Println os_Exit, defaultCommand default_run, runCommand run_run, updateCommand update_run]"

text \<open>The library, on the subcommands, the shorthands of the persistent flags, and \<open>os.Args[1:]\<close>.\<close>

type_synonym 'r cobra = "'r command list \<Rightarrow> (string \<times> string) list \<Rightarrow> string list \<Rightarrow> go_error + 'r"

definition persistent_flags :: "(string \<times> string) list" where
  "persistent_flags = [(''c'', ''config'')]"

definition Execute :: "'r cobra \<Rightarrow> (string \<Rightarrow> 'r \<Rightarrow> 'r) \<Rightarrow> (nat \<Rightarrow> 'r) \<Rightarrow> 'r runner \<Rightarrow> 'r runner \<Rightarrow> 'r runner \<Rightarrow> string list \<Rightarrow> 'r" where
  "Execute lib Println os_Exit default_run run_run update_run args =
     (case lib (root_commands Println os_Exit default_run run_run update_run) persistent_flags args of
        Inl err \<Rightarrow> os_Exit 1
      | Inr r \<Rightarrow> r)"

section \<open>The library\<close>

text \<open>The name of a command is the first word of its use line.\<close>

definition command_name :: "'r command \<Rightarrow> string" where
  "command_name c = takeWhile (\<lambda>x. x \<noteq> CHR '' '') (cmd_Use c)"

definition is_flag :: "string \<Rightarrow> bool" where
  "is_flag a = (a \<noteq> [] \<and> hd a = CHR ''-'')"

text \<open>
  What cobra documents: the command named by the first argument runs with the arguments that follow and
  without the flags; a name that no command has is an error.  Names are looked up where they are unique.
\<close>

locale cobra_library =
  fixes lib :: "'r cobra"
  assumes runs_command: "c \<in> set cs \<Longrightarrow> distinct (map command_name cs) \<Longrightarrow> list_all (\<lambda>a. \<not> is_flag a) args \<Longrightarrow>
      lib cs fs (command_name c # args) = Inr (cmd_Run c (\<lambda>_. []) args)"
    and runs_with_flag: "c \<in> set cs \<Longrightarrow> distinct (map command_name cs) \<Longrightarrow> list_all (\<lambda>a. \<not> is_flag a) args \<Longrightarrow>
      map_of fs [sh] = Some f \<Longrightarrow>
      lib cs fs (command_name c # [CHR ''-'', sh] # v # args) = Inr (cmd_Run c (\<lambda>n. if n = f then v else []) args)"
    and unknown_command: "\<not> is_flag n \<Longrightarrow> n \<notin> {''help'', ''completion''} \<Longrightarrow> n \<notin> command_name ` set cs \<Longrightarrow>
      n \<noteq> [] \<Longrightarrow> n \<notin> {''__complete'', ''__completeNoDesc''} \<Longrightarrow> \<exists>err. lib cs fs (n # args) = Inl err"
begin

lemma names: "distinct (map command_name (root_commands p e d r u))"
  by (simp add: root_commands_def command_name_def versionCommand_def defaultCommand_def runCommand_def updateCommand_def)

lemma root_runs:
  assumes "c \<in> set (root_commands p e d r u)" "list_all (\<lambda>a. \<not> is_flag a) args"
  shows "Execute lib p e d r u (command_name c # args) = cmd_Run c (\<lambda>_. []) args"
  using runs_command [OF assms(1) names assms(2)] by (simp add: Execute_def)

lemma root_runs_with_config:
  assumes "c \<in> set (root_commands p e d r u)" "list_all (\<lambda>a. \<not> is_flag a) args"
  shows "Execute lib p e d r u (command_name c # ''-c'' # v # args) = cmd_Run c (\<lambda>n. if n = ''config'' then v else []) args"
  using runs_with_flag [OF assms(1) names assms(2), of persistent_flags "CHR ''c''" "''config''" v]
  by (simp add: Execute_def persistent_flags_def)

lemma root_unknown:
  assumes "n \<notin> {''version'', ''default'', ''run'', ''update'', ''help'', ''completion'', ''__complete'', ''__completeNoDesc''}"
    and "\<not> is_flag n" "n \<noteq> []"
  shows "Execute lib p e d r u (n # args) = e 1"
proof -
  have "command_name ` set (root_commands p e d r u) = {''version'', ''default'', ''run'', ''update''}"
    by (simp add: root_commands_def command_name_def versionCommand_def defaultCommand_def runCommand_def updateCommand_def)
  then have other: "n \<notin> command_name ` set (root_commands p e d r u)" using assms(1) by simp
  have "n \<notin> {''help'', ''completion''}" "n \<notin> {''__complete'', ''__completeNoDesc''}" using assms(1) by simp_all
  then obtain err where "lib (root_commands p e d r u) persistent_flags (n # args) = Inl err"
    using unknown_command [OF assms(2) _ other assms(3)] by metis
  then show ?thesis by (simp add: Execute_def)
qed

end

text \<open>A library of the kind: it knows a single flag right after the command.\<close>

definition simple_cobra :: "'r cobra" where
  "simple_cobra cs fs args =
     (case args of
        [] \<Rightarrow> Inl ''no command''
      | n # as \<Rightarrow>
          (case find (\<lambda>c. command_name c = n) cs of
             None \<Rightarrow> Inl (''unknown command '' @ n)
           | Some c \<Rightarrow>
               (case as of
                  [x, sh] # v # as' \<Rightarrow>
                    (case map_of fs [sh] of
                       Some f \<Rightarrow> if x = CHR ''-'' then Inr (cmd_Run c (\<lambda>m. if m = f then v else []) as')
                                 else Inr (cmd_Run c (\<lambda>_. []) as)
                     | None \<Rightarrow> Inr (cmd_Run c (\<lambda>_. []) as))
                | _ \<Rightarrow> Inr (cmd_Run c (\<lambda>_. []) as))))"

lemma find_command:
  "c \<in> set cs \<Longrightarrow> distinct (map command_name cs) \<Longrightarrow> find (\<lambda>c'. command_name c' = command_name c) cs = Some c"
  by (induction cs) auto

interpretation simple: cobra_library simple_cobra
proof
  fix c :: "'r command" and cs fs args
  assume c: "c \<in> set cs" "distinct (map command_name cs)" and a: "list_all (\<lambda>a. \<not> is_flag a) args"
  have "x \<noteq> CHR ''-''" if "args = [x, sh] # v # as" for x sh v as
    using a that by (simp add: is_flag_def)
  then show "simple_cobra cs fs (command_name c # args) = Inr (cmd_Run c (\<lambda>_. []) args)"
    using find_command [OF c] by (auto simp: simple_cobra_def split: list.split option.split)
  show "simple_cobra cs fs (command_name c # [CHR ''-'', sh] # v # args) = Inr (cmd_Run c (\<lambda>n. if n = f then v else []) args)"
    if "map_of fs [sh] = Some f" for sh f v
    using find_command [OF c] that by (simp add: simple_cobra_def)
next
  fix n :: string and cs :: "'r command list" and fs args
  assume "n \<notin> command_name ` set cs"
  then have "find (\<lambda>c. command_name c = n) cs = None" by (auto simp: find_None_iff)
  then show "\<exists>err. simple_cobra cs fs (n # args) = Inl err" by (simp add: simple_cobra_def)
qed

section \<open>The update command and its flag\<close>

text \<open>\<open>updateCmd\<close> as the run function of its command: it reads \<open>os.Args\<close>, not the arguments of the library.\<close>

definition update_runner ::
    "('api, 'w) gsrpc \<Rightarrow> ('api, 'w) chain_init \<Rightarrow> conf_env \<Rightarrow> string list \<Rightarrow> 'w \<Rightarrow> (nat outcome \<times> 'w) runner" where
  "update_runner G I E os_Args w = (\<lambda>flags args. updateCmd G I E os_Args (flags ''config'') (flags ''c'') w)"

lemma not_IsIPv4_flag: "\<not> IsIPv4 ''-c''"
  by (simp add: IsIPv4_def)

text \<open>
  The update command takes its address and port from the places of \<open>os.Args\<close>.  Called as its usage
  says it runs on them; with the documented flag \<open>-c\<close> in front of them it finds the flag where the
  address should be and exits with code 1, without reading the configuration or asking the chain.
\<close>
theorem update_needs_arguments_first:
  assumes "cobra_library lib"
  shows "Execute lib p (\<lambda>n. (Ret n, w)) d r (update_runner G I E [prog, ''update'', show_ipv4 a b c e, show_nat port] w)
           [''update'', show_ipv4 a b c e, show_nat port]
         = updateCmd G I E [prog, ''update'', show_ipv4 a b c e, show_nat port] [] [] w
    \<and> Execute lib p (\<lambda>n. (Ret n, w)) d r (update_runner G I E [prog, ''update'', ''-c'', path, show_ipv4 a b c e, show_nat port] w)
           [''update'', ''-c'', path, show_ipv4 a b c e, show_nat port] = (Ret 1, w)"
proof -
  have digit: "\<not> is_flag (show_nat n @ r)" for n r
  proof -
    have "show_nat n \<noteq> []" "is_digit (hd (show_nat n))"
      using list_all_is_digit_show_nat [of n] show_nat_nonempty [of n] by (cases "show_nat n"; simp)+
    then show ?thesis using not_digit_sign by (auto simp: is_flag_def hd_append)
  qed
  have no_flag: "\<not> is_flag (show_ipv4 a b c e)" "\<not> is_flag (show_nat port)"
    using digit [of "unat a"] digit [of port "[]"] by (simp_all add: show_ipv4_def)
  have mem: "updateCommand u \<in> set (root_commands p x d r u)" for x u by (simp add: root_commands_def)
  have name: "command_name (updateCommand u) = ''update''" "cmd_Run (updateCommand u) = u" for u
    by (simp_all add: command_name_def updateCommand_def)
  have exits: "updateCmd G I E [prog, ''update'', ''-c'', path, show_ipv4 a b c e, show_nat port] f1 f2 w = (Ret 1, w)" for f1 f2
    using not_IsIPv4_flag by (simp add: updateCmd_def)
  show ?thesis
    using cobra_library.root_runs [OF assms mem, of "[show_ipv4 a b c e, show_nat port]"]
      cobra_library.root_runs_with_config [OF assms mem, of "[show_ipv4 a b c e, show_nat port]"] no_flag
    by (simp add: name update_runner_def exits)
qed

lemma update_needs_arguments_first_witness:
  "fst (Execute simple_cobra (\<lambda>_ r. r) (\<lambda>n. (Ret n, True)) (\<lambda>_ _. (Panic, True)) (\<lambda>_ _. (Panic, True))
      (update_runner sample_node \<lparr>ci_MetadataLatest = (\<lambda>_ w. (None, w)), ci_GenesisHash = (\<lambda>_ w. (None, w)), ci_RuntimeVersion = (\<lambda>_ w. (None, w))\<rparr>
        sample_system [''scheduler'', ''update'', ''-c'', ''/c.toml'', show_ipv4 10 0 0 1, show_nat 15000] True)
      [''update'', ''-c'', ''/c.toml'', show_ipv4 10 0 0 1, show_nat 15000]) = Ret 1"
  by (simp only: update_needs_arguments_first [OF simple.cobra_library_axioms, THEN conjunct2] fst_conv)

text \<open>The version command prints its line and exits with 0, and an unknown command with 1.\<close>

lemma version_and_unknown:
  assumes "cobra_library lib"
  shows "Execute lib p e d r u [''version''] = p (Name @ '' '' @ Version) (e 0)"
    and "n \<notin> {''version'', ''default'', ''run'', ''update'', ''help'', ''completion'', ''__complete'', ''__completeNoDesc''}
      \<Longrightarrow> \<not> is_flag n \<Longrightarrow> n \<noteq> [] \<Longrightarrow> Execute lib p e d r u (n # args) = e 1"
proof -
  have mem: "versionCommand p e \<in> set (root_commands p e d r u)" by (simp add: root_commands_def)
  show "Execute lib p e d r u [''version''] = p (Name @ '' '' @ Version) (e 0)"
    using cobra_library.root_runs [OF assms mem, of "[]"] by (simp add: command_name_def versionCommand_def)
qed (rule cobra_library.root_unknown [OF assms])

end
