(* ===== verification/Spec2Isabelle.thy ===== *)
theory Spec2Isabelle
  imports Ss58 Utils Podr2 ChainTx TcpProps TcpConn VerifyTask BackupProps FillerProps SpaceProps NodeLock
    ErasureProps ProofPbcProps Connections Pipeline BackupChain ProofPass UploadProtocol ChainLost FillerFlow Decoders Service CommandLine
begin

text \<open>
  A model of cess-scheduler, the scheduling service of the CESS storage network (Go, under src/).  A
  scheduler takes files from clients over TCP, distributes their chunks to storage miners and reports
  them to the chain; makes filler files and hands them to the miners; asks an enclave for the tags of
  files; reads the miners' proofs of storage from the chain, verifies them and submits the results.

  \<^bold>\<open>How the parts interact.\<close>  The command \<open>run\<close> (cmd/console) parses the configuration, connects to the
  chain, registers the node, builds its directories, its cache and its logs and starts the node.  The
  node (node/node.go) accepts connections, each served by a \<open>ConMgr\<close> over a \<open>TcpCon\<close>; the end of a
  granted upload starts a file backup, which reads miner records from the cache and sends chunks as a
  client.  Five tasks (node/sub_*.go) run beside it under a manager that restarts them: they refresh the
  miner records, validate proofs, generate fillers, send fillers, and watch the balance.  They share the
  cache (pkg/db), the chain client (pkg/chain), the channel of tags, and the mutex \<open>workLock\<close>.

  \<^bold>\<open>Conventions.\<close>  Fixed-width integers are words, \<open>int64\<close> sizes are \<open>int\<close>, texts are lists of characters,
  byte slices lists of 8-bit words.  An error is its text; a run-time panic is the value \<open>Panic\<close>, and a
  call that never returns is \<open>None\<close> of a \<open>partial_function (option)\<close>, or a state from which no run
  leads on, never a fuel that runs out.  Third-party code (the RPC library, goleveldb, the keyring,
  base58, BLAKE2b, SHA-256, viper, zap, the Reed-Solomon coder, the pairing library, the enclave) is a
  parameter: a record of functions.  The clock, the network, the file system's faults and random values
  are arguments, usually lists of answers in the order in which the code asks.

  \<^bold>\<open>The standard library and the prelude.\<close>
  \<^item> Prelude: types, outcomes, slices with their bounds, proof collections.  Steps: runs of step relations
    and the contracts (\<open>stable\<close>, \<open>labelled_stable\<close>, \<open>simulation\<close>, \<open>conserving\<close>) that every transition system of the
    development interprets.  Configs: constants of configs/.
  \<^item> GoBytes, GoStrings, GoBase64, GoJson, GoFiles, GoFloat: byte order, decimal and hexadecimal texts,
    \<open>net.ParseIP\<close>, paths, base64, the encoder and decoder of JSON with their round trips, a disk of
    files with \<open>Glob\<close> and the names of a directory, and float64 rounding.

  \<^bold>\<open>The components.\<close>
  \<^item> Ss58 (pkg/utils/ss58_transform.go): account addresses; encoding and decoding are inverse, and exactly
    which texts are accepted.  Utils (pkg/utils): shuffling, addresses, names, random texts, digests.
  \<^item> Cache (pkg/db): the interface as the locale \<open>cacher\<close>, goleveldb's documented laws as the locale
    \<open>leveldb_store\<close>, and the wrapper that provides the one from the other; sequences of operations refine
    an abstract map.
  \<^item> Podr2 (pkg/proof/keyGen.go, verifyProof.go, chalGen.go, genProof.go): the RSA key, challenges from the
    chain, verification with its concurrent products; every order gives the same product, and the verdict
    is the RSA equation.  ProofPbc and ProofPbcProps (sigGen.go, genProof.go, chalGen.go): the pairing
    scheme; honest proofs verify, and generated challenges are distinct blocks.
  \<^item> ChainTypes, ChainClient, ChainTx (pkg/chain): the types, the connection state and the queries, and the
    five transactions as instances of one skeleton; submissions are bounded, an address is sent as given,
    a lost connection looks healthy.  ChainLost: sequences of all the operations of the client; none panics while the
    node answers, and none gets anywhere after a reconnection that failed.
  \<^item> NodeMsg (node/msg.go, node/utils.go), Handler and HandlerProps (node/handler.go, node/conn.go): messages
    over reused buffers, the handler of a connection with its panics and blocking states, the client that
    sends files; a granted upload is a copy, and nothing else is written.  Connections (the goroutines that
    node/node.go starts): connections that were granted different names do not interfere, and one that is granted the
    name of another overwrites its file.
    UploadProtocol: an abstract protocol of uploads, which the handler refines; an accepted file is what was received.
  \<^item> TcpTransfer and TcpProps (node/transfer.go, \<open>ConnectionFiltering\<close>): the JSON of messages, frames, the
    sender and the reader; what is sent arrives, and a file travels from disk to disk.  TcpConn: the two
    goroutines of a connection and its channels as a step relation; when \<open>Start\<close> and \<open>SendFile\<close> return.
    Decoders: whatever bytes a peer sends, the messages and tags that the JSON decoders yield are in the range of
    their types, and no buffer grows beyond that of the reader.
  \<^item> MinerCache (node/sub_minerCache.go), Backup and BackupProps (\<open>FileBackupManagement\<close> and \<open>backupFile\<close> of
    node/handler.go): the miner records follow the chain; what a finished backup has recorded.  Pipeline: the
    connection and the backup together, from an upload to the blocks reported to the chain, and an end message that
    backs up files of another directory.  BackupChain: the cache and the backup together; the blocks of a file name
    miners as the chain describes them, and a backup ends when miners answer often enough.  BackupOnChain: the backup over the chain client;
    what a file that is recorded as active means for the chain, and how often it is submitted.  MinerPass: a pass of the
    miner cache over the client; the cache mirrors the storage of the chain, whose miners reach the submitted call.
  \<^item> FillerGen and FillerProps (node/sub_filler.go, node/route.go): the content of fillers, the channel of
    tags with its racing callbacks as a step relation, the request to the enclave, the saved tag.  Space and SpaceProps
    (node/sub_space.go): when a filler leaves the disk, and when the task stops.  FillerFlow: both tasks and
    the channel between them as one step relation; every filler stays whole on the disk until it is delivered.
  \<^item> VerifyTask (node/sub_verifyProofs.go): one proof, the batches of a round, the submissions.  ProofPass: a pass of the
    task over the client; the verdicts of all proofs that the storage of the chain has are submitted, each once, and honest
    miners pass.
  \<^item> Tasks (node/sub_main.go, sub_common.go, node.go): the restart of tasks as a step relation, the balance,
    the loop that accepts connections.  WorkLock (node/param.go and the four places that take the lock):
    mutual exclusion, and the panics after which the lock is lost.  NodeLock: the manager and the lock as
    one system, whose runs project to runs of each: restarting a task does not bring a lost lock back.
  \<^item> Service (node/callback.go, node/route.go, node/node.go, node/handler.go): the HTTP server of the callback with its
    route, the start of the node, and what a connection leaves in the log; the address posted to the enclave is
    the one that is served, and the port of the callback is not refused as service port.
  \<^item> Erasure and ErasureProps (pkg/erasure/reedsolomon.go): the coding rule with its float64 test, encoding
    and restoring in memory and by streams; lost shards are restored, and two restores that restore nothing.
  \<^item> Confile (pkg/confile), Logger (pkg/logger), Console and ConsoleProps (cmd/console, \<open>NewChainClient\<close>,
    initlz): which configurations are accepted (not the template as it is written), where a message is logged, what a start registers and
    deletes, what the update command sends.  CommandLine (cmd/console/main.go): the commands over the laws of
    cobra, and the documented flag that the update command does not understand.

  \<^bold>\<open>Bounds.\<close>  Loops over lists are structural.  The retry counts of the code (three attempts of a query,
  20 further submissions, three or four of a batch or a file record) are counted down as in the code.
  Loops without a bound are partial functions, and whether they end is part of a property: the
  submission of proof results and of a filler's record, the placing of a chunk, the drawing of a
  challenge.  The float64 results are exact below 2 to the 50, which the coding rule needs up to two
  gigabytes only.

  \<^bold>\<open>Not modelled.\<close>  Sockets, HTTP and the dispatch of routes and commands, which are parameters with the laws
  their documentation states; the lines that commands other than \<open>version\<close> print; the layout of the log encoder and the
  rotation of the log files, of which the configuration is modelled; the fields \<open>Phase\<close> and \<open>Topics\<close>
  of events, the types \<open>SpacePackage\<close> and \<open>Ipv6Type\<close> and \<open>New\<close> of the node, which no code reads or which do nothing.
  Data races on memory without a channel or a lock (the chain client's fields) are outside the models, which
  interleave whole operations.
\<close>

end
